(* ===== verification/Prelude.thy ===== *)
theory Prelude
  imports Main "HOL-Library.Word" "HOL-Library.Monad_Syntax"
begin

text \<open>
  Shared vocabulary of the development: the fixed-width integer types of the C++ sources, the
  values of type \<open>error + 'a\<close> that stand for C++ exceptions, the collections of rewrite rules
  the component theories extend, and generic facts on lists and machine words.
\<close>

unbundle bit_operations_syntax

section \<open>Types\<close>

type_synonym u8 = "8 word"
type_synonym u16 = "16 word"
type_synonym u32 = "32 word"
type_synonym u64 = "64 word"

text \<open>What a C++ function can do besides returning: the standard exceptions the sources throw
  (\<open>std::stoi\<close>, \<open>std::runtime_error\<close>) and behaviour the language leaves undefined
  (an access past the end of an array, a conversion out of range).\<close>

datatype cpp_error =
    Invalid_argument
  | Out_of_range
  | Runtime_error string
  | Undefined_behaviour

type_synonym 'a result = "cpp_error + 'a"

definition bind_result :: "'a result \<Rightarrow> ('a \<Rightarrow> 'b result) \<Rightarrow> 'b result" where
  "bind_result m f = (case m of Inl e \<Rightarrow> Inl e | Inr x \<Rightarrow> f x)"

named_theorems layout_simps \<open>rules that read back the bytes of an encoded message\<close>
named_theorems inv_intros \<open>preservation of a component's invariant by its operations\<close>

section \<open>Errors\<close>

lemma bind_result_simps [simp]:
  "bind_result (Inl e) f = Inl e"
  "bind_result (Inr x) f = f x"
  by (simp_all add: bind_result_def)

lemma bind_result_cong [fundef_cong]:
  "m = m' \<Longrightarrow> (\<And>x. m' = Inr x \<Longrightarrow> f x = f' x) \<Longrightarrow> bind_result m f = bind_result m' f'"
  by (simp add: bind_result_def split: sum.splits)

lemma bind_result_assoc: "bind_result (bind_result m f) g = bind_result m (\<lambda>x. bind_result (f x) g)"
  by (simp add: bind_result_def split: sum.splits)

lemma bind_result_Inr_iff:
  "bind_result m f = Inr y \<longleftrightarrow> (\<exists>x. m = Inr x \<and> f x = Inr y)"
  by (cases m) auto

lemma bind_result_Inl_iff:
  "bind_result m f = Inl e \<longleftrightarrow> m = Inl e \<or> (\<exists>x. m = Inr x \<and> f x = Inl e)"
  by (cases m) auto

section \<open>Lists\<close>

lemma map_upt_Suc_tl: "tl (map f [0..<n]) = map (\<lambda>i. f (Suc i)) [0..<n - 1]"
  by (cases n) (simp_all add: upt_conv_Cons map_Suc_upt [symmetric] del: upt_Suc)

lemma drop_append_single:
  "n \<le> length xs \<Longrightarrow> drop n xs @ [x] = drop n (xs @ [x])"
  by simp

text \<open>Index arithmetic of a ring of \<open>n\<close> cells: one conditional subtraction.\<close>

lemma ring_index:
  fixes t i n :: nat
  assumes "t < n" "i \<le> n"
  shows "(t + i) mod n = (if t + i < n then t + i else t + i - n)"
  using assms by (simp add: mod_if)

lemma ring_index_eq_iff:
  fixes t i k n :: nat
  assumes "t < n" "i < n" "k < n"
  shows "(t + i) mod n = (t + k) mod n \<longleftrightarrow> i = k"
  using assms by (auto simp: ring_index split: if_splits)

end
