(* ===== verification/Remote_Key_Protocol.thy ===== *)
theory Remote_Key_Protocol
  imports Prelude
begin

text \<open>
  \<open>src/remote_key_protocol.h\<close>: the datagrams that carry timestamped key edges from the
  operator to the rig. A buffer is a list of bytes; a pointer into it is a suffix of the list.
  Every read past the end is excluded by the length checks of \<open>decode\<close>, which the model
  keeps.
\<close>

unbundle bit_operations_syntax

section \<open>Packets\<close>

definition MAGIC :: u8 where "MAGIC = 0xC7"

definition VERSION :: u8 where "VERSION = 1"

definition FLAG_SESSION_RESET :: u8 where "FLAG_SESSION_RESET = 0x01"

definition KEY_DOWN :: u8 where "KEY_DOWN = 0x01"

definition PTT_REQ :: u8 where "PTT_REQ = 0x02"

record edge =
  ts_us :: u64
  edge_state :: u8

record packet =
  pkt_session_id :: u16
  pkt_flags :: u8
  pkt_edges :: "edge list"

definition HEADER_BYTES :: nat where "HEADER_BYTES = 6"

definition EDGE_BYTES :: nat where "EDGE_BYTES = 9"

definition MAX_EDGES :: nat where "MAX_EDGES = 32"

definition MAX_PACKET_BYTES :: nat where
  "MAX_PACKET_BYTES = HEADER_BYTES + MAX_EDGES * EDGE_BYTES"

lemmas wire_sizes = HEADER_BYTES_def EDGE_BYTES_def MAX_EDGES_def MAX_PACKET_BYTES_def

section \<open>Big-endian fields\<close>

definition put_u16 :: "u16 \<Rightarrow> u8 list" where
  "put_u16 v = [ucast (drop_bit 8 v), ucast v]"

definition put_u64 :: "u64 \<Rightarrow> u8 list" where
  "put_u64 v = map (\<lambda>i. ucast (drop_bit (56 - 8 * i) v)) [0..<8]"

definition get_u16 :: "u8 list \<Rightarrow> u16" where
  "get_u16 p = push_bit 8 (ucast (p ! 0)) OR ucast (p ! 1)"

definition get_u64 :: "u8 list \<Rightarrow> u64" where
  "get_u64 p = fold (\<lambda>i v. push_bit 8 v OR ucast (p ! i)) [0..<8] 0"

section \<open>Encoding and decoding\<close>

definition put_edge :: "edge \<Rightarrow> u8 list" where
  "put_edge e = put_u64 (ts_us e) @ [edge_state e]"

definition encode :: "packet \<Rightarrow> u8 list" where
  "encode pkt =
     (let n = (if length (pkt_edges pkt) > MAX_EDGES then MAX_EDGES else length (pkt_edges pkt));
          first = length (pkt_edges pkt) - n
      in [MAGIC, VERSION, pkt_flags pkt] @ put_u16 (pkt_session_id pkt) @ [of_nat n]
         @ concat (map (\<lambda>i. put_edge (pkt_edges pkt ! (first + i))) [0..<n]))"

text \<open>The loop that reads \<open>count\<close> edges, advancing by \<open>EDGE_BYTES\<close>.\<close>

fun get_edges :: "nat \<Rightarrow> u8 list \<Rightarrow> edge list" where
  "get_edges 0 e = []"
| "get_edges (Suc n) e =
     \<lparr>ts_us = get_u64 e, edge_state = e ! 8\<rparr> # get_edges n (drop EDGE_BYTES e)"

definition decode :: "u8 list \<Rightarrow> packet option" where
  "decode buf =
     (if length buf < HEADER_BYTES \<or> buf ! 0 \<noteq> MAGIC \<or> buf ! 1 \<noteq> VERSION then None
      else let count = unat (buf ! 5)
           in if length buf < HEADER_BYTES + count * EDGE_BYTES then None
              else Some \<lparr>pkt_session_id = get_u16 (drop 3 buf), pkt_flags = buf ! 2,
                         pkt_edges = get_edges count (drop HEADER_BYTES buf)\<rparr>)"

section \<open>Field round trips\<close>

lemma get_u16_put [layout_simps]: "get_u16 (put_u16 v @ r) = v"
  by (rule bit_word_eqI) (auto simp: get_u16_def put_u16_def bit_simps)

lemma put_u16_get:
  "put_u16 (get_u16 [a, b]) = [a, b]"
  by (auto simp: get_u16_def put_u16_def intro!: bit_word_eqI)
    (auto simp: bit_simps dest: bit_imp_le_length)

lemma word_low_byte:
  fixes v :: u64
  shows "push_bit 8 (drop_bit (k + 8) v) OR ucast (ucast (drop_bit k v) :: u8) = drop_bit k v"
proof (rule bit_word_eqI)
  fix n
  assume "n < LENGTH(64)"
  then show "bit (push_bit 8 (drop_bit (k + 8) v) OR ucast (ucast (drop_bit k v) :: u8)) n
      = bit (drop_bit k v) n"
    by (cases "n < 8") (simp_all add: bit_simps not_less)
qed

lemma upt8: "[0..<8] = [0, 1, 2, 3, 4, 5, 6, 7::nat]"
  by (simp add: upt_rec)

lemma get_u64_put [layout_simps]: "get_u64 (put_u64 v @ r) = v"
proof -
  have top: "drop_bit 64 v = 0"
    by (rule bit_word_eqI) (auto simp: bit_simps)
  show ?thesis
    using word_low_byte [of 56 v] word_low_byte [of 48 v] word_low_byte [of 40 v]
      word_low_byte [of 32 v] word_low_byte [of 24 v] word_low_byte [of 16 v]
      word_low_byte [of 8 v] word_low_byte [of 0 v] top
    by (simp add: get_u64_def put_u64_def upt8)
qed

lemma put_u64_get:
  "put_u64 (get_u64 [a, b, c, d, e, f, g, h]) = [a, b, c, d, e, f, g, h]"
  unfolding get_u64_def put_u64_def upt8
  by (auto intro!: bit_word_eqI) (auto simp: bit_simps dest: bit_imp_le_length)

lemma length_put [simp]:
  "length (put_u16 v) = 2" "length (put_u64 w) = 8" "length (put_edge e) = EDGE_BYTES"
  by (simp_all add: put_u16_def put_u64_def put_edge_def EDGE_BYTES_def)

section \<open>Packet round trips\<close>

text \<open>The edges that \<open>encode\<close> sends: the most recent \<open>MAX_EDGES\<close>.\<close>

definition sent_edges :: "packet \<Rightarrow> edge list" where
  "sent_edges pkt = drop (length (pkt_edges pkt) - MAX_EDGES) (pkt_edges pkt)"

lemma length_sent_edges: "length (sent_edges pkt) = min MAX_EDGES (length (pkt_edges pkt))"
  by (simp add: sent_edges_def)

lemma encode_layout:
  "encode pkt = [MAGIC, VERSION, pkt_flags pkt] @ put_u16 (pkt_session_id pkt)
     @ [of_nat (length (sent_edges pkt))] @ concat (map put_edge (sent_edges pkt))"
proof -
  let ?n = "length (sent_edges pkt)"
  have n: "(if MAX_EDGES < length (pkt_edges pkt) then MAX_EDGES else length (pkt_edges pkt)) = ?n"
    by (simp add: length_sent_edges)
  have "map (\<lambda>i. put_edge (pkt_edges pkt ! (length (pkt_edges pkt) - ?n + i))) [0..<?n]
      = map put_edge (sent_edges pkt)"
    by (rule nth_equalityI) (auto simp: sent_edges_def min_def)
  then show ?thesis
    unfolding encode_def Let_def n by simp
qed

lemma length_concat_edges: "length (concat (map put_edge es)) = EDGE_BYTES * length es"
  by (induction es) simp_all

lemma length_encode: "length (encode pkt) = HEADER_BYTES + EDGE_BYTES * length (sent_edges pkt)"
  by (simp add: encode_layout length_concat_edges HEADER_BYTES_def)

lemma get_edge_put: "get_u64 (put_edge e @ r) = ts_us e" "(put_edge e @ r) ! 8 = edge_state e"
  by (simp_all add: put_edge_def layout_simps nth_append)

lemma get_edges_put [layout_simps]:
  "get_edges (length es) (concat (map put_edge es) @ r) = es"
proof (induction es)
  case (Cons e es)
  then show ?case by (simp add: get_edge_put)
qed simp

lemma edge_bytes_exhaust:
  assumes "length bs = EDGE_BYTES"
  shows "put_edge \<lparr>ts_us = get_u64 (bs @ r), edge_state = (bs @ r) ! 8\<rparr> = bs"
proof -
  obtain a b c d e f g h i where bs: "bs = [a, b, c, d, e, f, g, h, i]"
    using assms by (auto simp: EDGE_BYTES_def numeral_eq_Suc length_Suc_conv)
  have "get_u64 (bs @ r) = get_u64 [a, b, c, d, e, f, g, h]"
    by (simp add: bs get_u64_def upt8)
  with bs show ?thesis by (simp add: put_edge_def put_u64_get)
qed

lemma put_edges_get:
  "length bs = EDGE_BYTES * n \<Longrightarrow> concat (map put_edge (get_edges n bs)) = bs"
proof (induction n arbitrary: bs)
  case (Suc n)
  then have "length (take EDGE_BYTES bs) = EDGE_BYTES" by simp
  from edge_bytes_exhaust [OF this, of "drop EDGE_BYTES bs"]
  have "put_edge \<lparr>ts_us = get_u64 bs, edge_state = bs ! 8\<rparr> = take EDGE_BYTES bs" by simp
  with Suc show ?case by simp
qed simp

lemma length_get_edges [simp]: "length (get_edges n bs) = n"
  by (induction n arbitrary: bs) simp_all

text \<open>(C6) A packet survives the wire: decoding an encoded packet gives its session, its flags
  and its most recent \<open>MAX_EDGES\<close> edges, whatever the packet.\<close>

theorem decode_encode:
  "decode (encode pkt) =
     Some \<lparr>pkt_session_id = pkt_session_id pkt, pkt_flags = pkt_flags pkt,
           pkt_edges = drop (length (pkt_edges pkt) - MAX_EDGES) (pkt_edges pkt)\<rparr>"
proof -
  have small: "length (sent_edges pkt) < 256"
    using length_sent_edges [of pkt] by (simp add: MAX_EDGES_def)
  then have count: "unat (of_nat (length (sent_edges pkt)) :: u8) = length (sent_edges pkt)"
    by (simp add: unat_of_nat)
  let ?b = "encode pkt"
  have fields: "?b ! 0 = MAGIC" "?b ! Suc 0 = VERSION" "?b ! 2 = pkt_flags pkt"
    "?b ! 5 = of_nat (length (sent_edges pkt))"
    by (simp_all add: encode_layout put_u16_def)
  have sid: "get_u16 (drop 3 ?b) = pkt_session_id pkt"
    by (simp add: encode_layout layout_simps)
  have "drop HEADER_BYTES ?b = concat (map put_edge (sent_edges pkt)) @ []"
    by (simp add: encode_layout HEADER_BYTES_def put_u16_def)
  then have "get_edges (length (sent_edges pkt)) (drop HEADER_BYTES ?b) = sent_edges pkt"
    by (simp only: layout_simps)
  then show ?thesis
    by (simp add: decode_def fields count length_encode sid Let_def)
      (simp add: sent_edges_def)
qed

text \<open>(C7) No datagram is produced that the receiver's buffer would truncate, and every
  canonical datagram (no trailing bytes, at most \<open>MAX_EDGES\<close> edges) is the encoding of what
  \<open>decode\<close> reads from it: decoding loses nothing.\<close>

theorem encode_decode:
  assumes "decode buf = Some pkt"
    and "length buf = HEADER_BYTES + EDGE_BYTES * length (pkt_edges pkt)"
    and "length buf \<le> MAX_PACKET_BYTES"
  shows "encode pkt = buf \<and> length (encode pkt) \<le> MAX_PACKET_BYTES"
proof -
  let ?n = "unat (buf ! 5)"
  from assms(1) have hdr: "6 \<le> length buf" "buf ! 0 = MAGIC" "buf ! 1 = VERSION"
    and pkt: "pkt = \<lparr>pkt_session_id = get_u16 (drop 3 buf), pkt_flags = buf ! 2,
       pkt_edges = get_edges ?n (drop 6 buf)\<rparr>"
    by (auto simp: decode_def Let_def HEADER_BYTES_def split: if_splits)
  have len: "length buf = 6 + 9 * ?n" using assms(2) pkt by (simp add: wire_sizes)
  then have "?n \<le> 32" using assms(3) by (simp add: wire_sizes)
  then have sent: "sent_edges pkt = get_edges ?n (drop 6 buf)"
    by (simp add: sent_edges_def pkt MAX_EDGES_def)
  obtain b0 b1 b2 b3 b4 b5 rest where buf: "buf = b0 # b1 # b2 # b3 # b4 # b5 # rest"
    using hdr(1) by (auto simp: numeral_eq_Suc Suc_le_length_iff)
  have "length rest = EDGE_BYTES * ?n" using len buf by (simp add: EDGE_BYTES_def)
  then have "concat (map put_edge (get_edges ?n rest)) = rest" by (rule put_edges_get)
  moreover have "get_u16 (drop 3 buf) = get_u16 [b3, b4]" by (simp add: buf get_u16_def)
  ultimately have "encode pkt = buf"
    using hdr(2,3) sent by (simp add: encode_layout pkt buf put_u16_get)
  with assms(3) show ?thesis by simp
qed

text \<open>A one-edge packet, byte for byte.\<close>

theorem encode_decode_witness:
  "encode \<lparr>pkt_session_id = 0x0102, pkt_flags = 1, pkt_edges = [\<lparr>ts_us = 500, edge_state = 1\<rparr>]\<rparr>
     = [0xC7, 1, 1, 1, 2, 1, 0, 0, 0, 0, 0, 0, 1, 0xF4, 1]"
proof -
  let ?buf = "[0xC7, 1, 1, 1, 2, 1, 0, 0, 0, 0, 0, 0, 1, 0xF4, 1] :: u8 list"
  let ?pkt = "\<lparr>pkt_session_id = 0x0102, pkt_flags = 1,
    pkt_edges = [\<lparr>ts_us = 500, edge_state = 1\<rparr>]\<rparr>"
  have d: "decode ?buf = Some ?pkt"
    by (simp add: decode_def MAGIC_def VERSION_def wire_sizes get_u16_def get_u64_def upt8
        numeral_eq_Suc [of num.One] nth_Cons' numeral_Bit0 [symmetric])
  show ?thesis using encode_decode [OF d] by (simp add: wire_sizes)
qed

end
