(* ===== verification/Remote_Key_Server.thy ===== *)
theory Remote_Key_Server
  imports Remote_Key_Protocol
begin

text \<open>
  \<open>src/remote_key_server.{h,cpp}\<close>: the jitter buffer and the replay engine that puts the
  operator's key edges on the rig's control lines (DTR keys, RTS is PTT).

  The server's members are the record \<open>rks\<close>; the two control lines of the serial device are
  fields of it, written by the \<open>TIOCMBIS\<close>/\<open>TIOCMBIC\<close> calls, and \<open>key_calls\<close> is the history of these calls for the key
  line, which no code reads. The results of the calls are ignored by the source; here an open device obeys them. The locals of
  \<open>replay_worker\<close> are the record \<open>replay\<close>. One iteration of the replay loop is cut at its
  accesses to shared data (each atomic, each lock): every piece is a definition,
  \<open>replay_iteration\<close> is their sequence, and the relation \<open>rk_step\<close> interleaves the pieces
  with the receiving thread, whose two pieces are the store to \<open>last_rx_us\<close> and the region
  under the lock. What \<open>open\<close> returns and what the clock reads are arguments of the pieces.
\<close>

unbundle bit_operations_syntax

section \<open>State\<close>

record remote_key_config =
  rkc_enabled :: bool
  rkc_port :: int
  rkc_device :: string
  playout_ms :: u32
  silence_ms :: u32
  max_key_down_ms :: u32
  ptt_lead_ms :: u32
  ptt_tail_ms :: u32

definition remote_key_config_default :: remote_key_config where
  "remote_key_config_default =
     \<lparr>rkc_enabled = False, rkc_port = 0, rkc_device = [], playout_ms = 150, silence_ms = 250,
      max_key_down_ms = 5000, ptt_lead_ms = 10, ptt_tail_ms = 100\<rparr>"

record scheduled_edge =
  at_us :: u64
  se_state :: u8

record rks =
  rk_cfg :: remote_key_config
  rk_sockfd :: int
  rk_fd :: int
  dtr_line :: bool
  rts_line :: bool
  key_calls :: "bool list"
  queue :: "scheduled_edge list"
  have_anchor :: bool
  anchor_src_us :: u64
  anchor_local_us :: u64
  last_enqueued_src :: u64
  session_id :: u16
  have_session :: bool
  last_rx_us :: u64
  reset_requested :: bool

definition rks_init :: "remote_key_config \<Rightarrow> rks" where
  "rks_init c =
     \<lparr>rk_cfg = c, rk_sockfd = -1, rk_fd = -1, dtr_line = False, rts_line = False, key_calls = [], queue = [],
      have_anchor = False, anchor_src_us = 0, anchor_local_us = 0, last_enqueued_src = 0,
      session_id = 0, have_session = False, last_rx_us = 0, reset_requested = False\<rparr>"

text \<open>\<open>static_cast<uint64_t>(ms) * 1000ull\<close>.\<close>

definition ms_to_us :: "u32 \<Rightarrow> u64" where
  "ms_to_us ms = ucast ms * 1000"

text \<open>The monotonic clock in microseconds, and the absolute time \<open>sleep_until_us\<close> hands to
  \<open>clock_nanosleep\<close>, which is repeated while it is interrupted.\<close>

definition now_us :: "int \<Rightarrow> int \<Rightarrow> u64" where
  "now_us tv_sec tv_nsec = of_int tv_sec * 1000000 + of_int (tv_nsec div 1000)"

definition sleep_until_us :: "u64 \<Rightarrow> int \<times> int" where
  "sleep_until_us t = (uint (t div 1000000), uint (t mod 1000000 * 1000))"

lemma sleep_until_us_exact:
  "(case sleep_until_us t of (tv_sec, tv_nsec) \<Rightarrow> now_us tv_sec tv_nsec = t \<and> 0 \<le> tv_nsec \<and> tv_nsec < 1000000000)"
proof -
  have m: "uint (t mod 1000000) < 1000000" by (simp add: uint_mod)
  then have n: "uint (t mod 1000000 * 1000) = uint (t mod 1000000) * 1000"
    by (simp add: uint_mult_lem uint_word_ariths)
  show ?thesis using m by (simp add: sleep_until_us_def now_us_def n word_mod_div_equality)
qed

section \<open>Serial keying\<close>

definition open_port :: "int \<Rightarrow> rks \<Rightarrow> bool \<times> rks" where
  "open_port ret s =
     (let s1 = s\<lparr>rk_fd := ret\<rparr>
      in if rk_fd s1 < 0 then (False, s1)
         else (True, s1\<lparr>dtr_line := False, rts_line := False, key_calls := key_calls s1 @ [False]\<rparr>))"

definition set_key :: "bool \<Rightarrow> rks \<Rightarrow> rks" where
  "set_key down s = (if rk_fd s < 0 then s else s\<lparr>dtr_line := down, key_calls := key_calls s @ [down]\<rparr>)"

definition set_ptt :: "bool \<Rightarrow> rks \<Rightarrow> rks" where
  "set_ptt on s = (if rk_fd s < 0 then s else s\<lparr>rts_line := on\<rparr>)"

definition force_safe :: "rks \<Rightarrow> rks" where
  "force_safe s = set_ptt False (set_key False s)"

section \<open>Receiving: socket to jitter buffer\<close>

definition enqueue_edge :: "u64 \<Rightarrow> edge \<Rightarrow> rks \<Rightarrow> rks" where
  "enqueue_edge now e s =
     (if ts_us e \<le> last_enqueued_src s then s
      else
        let s1 = (if have_anchor s then s
                  else s\<lparr>anchor_src_us := ts_us e,
                         anchor_local_us := now + ms_to_us (playout_ms (rk_cfg s)),
                         have_anchor := True\<rparr>);
            s2 = s1\<lparr>last_enqueued_src := ts_us e\<rparr>;
            slot = anchor_local_us s2 + (ts_us e - anchor_src_us s2);
            scheduled = (if slot < now then now else slot)
        in s2\<lparr>queue := queue s2 @ [\<lparr>at_us = scheduled, se_state = edge_state e\<rparr>]\<rparr>)"

definition begin_session :: "packet \<Rightarrow> rks \<Rightarrow> rks" where
  "begin_session pkt s =
     (let new_session = (\<not> have_session s \<or> pkt_session_id pkt \<noteq> session_id s)
      in if new_session \<or> pkt_flags pkt AND FLAG_SESSION_RESET \<noteq> 0
         then s\<lparr>session_id := pkt_session_id pkt, have_session := True, have_anchor := False,
                last_enqueued_src := 0, queue := [], reset_requested := True\<rparr>
         else s)"

text \<open>The region under the lock, and the whole handling of one datagram.\<close>

definition accept_packet :: "u64 \<Rightarrow> packet \<Rightarrow> rks \<Rightarrow> rks" where
  "accept_packet now pkt s = fold (enqueue_edge now) (pkt_edges pkt) (begin_session pkt s)"

definition store_last_rx :: "u64 \<Rightarrow> rks \<Rightarrow> rks" where
  "store_last_rx now s = s\<lparr>last_rx_us := now\<rparr>"

definition receive_datagram :: "u8 list \<Rightarrow> u64 \<Rightarrow> rks \<Rightarrow> rks" where
  "receive_datagram buf now s =
     (case decode (take MAX_PACKET_BYTES buf) of
        None \<Rightarrow> s
      | Some pkt \<Rightarrow> accept_packet now pkt (store_last_rx now s))"

section \<open>Replaying: jitter buffer to control lines\<close>

record replay =
  key_is_down :: bool
  key_down_since_us :: u64
  ptt_is_on :: bool
  ptt_release_at_us :: u64
  last_iface_check :: u64
  rp_now :: u64
  since_rx :: u64
  have_next :: bool
  next_at :: u64
  next_state :: u8
  wake :: u64

definition replay_init :: replay where
  "replay_init =
     \<lparr>key_is_down = False, key_down_since_us = 0, ptt_is_on = False, ptt_release_at_us = 0,
      last_iface_check = 0, rp_now = 0, since_rx = 0, have_next = False, next_at = 0,
      next_state = 0, wake = 0\<rparr>"

type_synonym rk = "rks \<times> replay"

definition lead_us :: "rks \<Rightarrow> u64" where "lead_us s = ms_to_us (ptt_lead_ms (rk_cfg s))"

definition tail_us :: "rks \<Rightarrow> u64" where "tail_us s = ms_to_us (ptt_tail_ms (rk_cfg s))"

definition max_down_us :: "rks \<Rightarrow> u64" where
  "max_down_us s = ms_to_us (max_key_down_ms (rk_cfg s))"

definition silence_us :: "rks \<Rightarrow> u64" where "silence_us s = ms_to_us (silence_ms (rk_cfg s))"

definition rp_read_clock :: "u64 \<Rightarrow> rk \<Rightarrow> rk" where
  "rp_read_clock t = (\<lambda>(s, r). (s, r\<lparr>rp_now := t\<rparr>))"

definition rp_reconnect :: "int \<Rightarrow> rk \<Rightarrow> rk" where
  "rp_reconnect ret = (\<lambda>(s, r).
     if rk_fd s < 0 \<and> rp_now r - last_iface_check r > 100000
     then (snd (open_port ret s), r\<lparr>last_iface_check := rp_now r\<rparr>)
     else (s, r))"

definition rp_reset :: "rk \<Rightarrow> rk" where
  "rp_reset = (\<lambda>(s, r).
     if reset_requested s
     then (force_safe (s\<lparr>reset_requested := False\<rparr>), r\<lparr>key_is_down := False, ptt_is_on := False\<rparr>)
     else (s, r))"

definition rp_since_rx :: "rk \<Rightarrow> rk" where
  "rp_since_rx = (\<lambda>(s, r). (s, r\<lparr>since_rx := rp_now r - last_rx_us s\<rparr>))"

definition stream_silent :: "rk \<Rightarrow> bool" where
  "stream_silent = (\<lambda>(s, r). last_rx_us s \<noteq> 0 \<and> since_rx r > silence_us s)"

definition rp_silence :: "rk \<Rightarrow> rk" where
  "rp_silence = (\<lambda>(s, r).
     if key_is_down r \<or> ptt_is_on r
     then (force_safe s, r\<lparr>key_is_down := False, ptt_is_on := False\<rparr>)
     else (s, r))"

definition rp_drop_queue :: "rk \<Rightarrow> rk" where
  "rp_drop_queue = (\<lambda>(s, r). (s\<lparr>queue := [], have_anchor := False\<rparr>, r))"

definition rp_watchdog :: "rk \<Rightarrow> rk" where
  "rp_watchdog = (\<lambda>(s, r).
     if key_is_down r \<and> rp_now r - key_down_since_us r > max_down_us s
     then (set_key False s, r\<lparr>key_is_down := False\<rparr>)
     else (s, r))"

definition apply_edge :: "scheduled_edge \<Rightarrow> rk \<Rightarrow> rk" where
  "apply_edge se = (\<lambda>(s, r).
     let down = (se_state se AND KEY_DOWN \<noteq> 0);
         (s1, r1) = (if down \<and> \<not> ptt_is_on r then (set_ptt True s, r\<lparr>ptt_is_on := True\<rparr>)
                     else (s, r))
     in if down \<noteq> key_is_down r1
        then (set_key down s1,
              if down then r1\<lparr>key_is_down := down, key_down_since_us := rp_now r1\<rparr>
              else r1\<lparr>key_is_down := down, ptt_release_at_us := rp_now r1 + tail_us s1\<rparr>)
        else (s1, r1))"

text \<open>\<open>while (!queue.empty() && queue.front().at_us <= now)\<close>: the edges are applied in queue
  order and the loop stops at the first one not yet due.\<close>

definition rp_apply_due :: "rk \<Rightarrow> rk" where
  "rp_apply_due = (\<lambda>(s, r).
     fold apply_edge (takeWhile (\<lambda>se. at_us se \<le> rp_now r) (queue s))
       (s\<lparr>queue := dropWhile (\<lambda>se. at_us se \<le> rp_now r) (queue s)\<rparr>, r))"

definition rp_peek_next :: "rk \<Rightarrow> rk" where
  "rp_peek_next = (\<lambda>(s, r).
     (s, case queue s of
           [] \<Rightarrow> r\<lparr>have_next := False, next_at := 0, next_state := 0\<rparr>
         | n # _ \<Rightarrow> r\<lparr>have_next := True, next_at := at_us n, next_state := se_state n\<rparr>))"

definition rp_apply :: "rk \<Rightarrow> rk" where
  "rp_apply x = rp_peek_next (rp_apply_due x)"

definition rp_ptt_lead :: "rk \<Rightarrow> rk" where
  "rp_ptt_lead = (\<lambda>(s, r).
     if have_next r \<and> next_state r AND KEY_DOWN \<noteq> 0 \<and> \<not> ptt_is_on r
        \<and> rp_now r + lead_us s \<ge> next_at r
     then (set_ptt True s, r\<lparr>ptt_is_on := True\<rparr>)
     else (s, r))"

definition rp_ptt_tail :: "rk \<Rightarrow> rk" where
  "rp_ptt_tail = (\<lambda>(s, r).
     if ptt_is_on r \<and> \<not> key_is_down r \<and> rp_now r \<ge> ptt_release_at_us r
     then let keydown_pending = (have_next r \<and> next_state r AND KEY_DOWN \<noteq> 0
                                 \<and> next_at r < rp_now r + tail_us s)
          in if keydown_pending then (s, r) else (set_ptt False s, r\<lparr>ptt_is_on := False\<rparr>)
     else (s, r))"

text \<open>The absolute time to sleep to; the thread sleeps only if it lies ahead.\<close>

definition rp_wake :: "rk \<Rightarrow> rk" where
  "rp_wake = (\<lambda>(s, r).
     let w0 = rp_now r + 5000;
         w1 = (if have_next r \<and> next_at r < w0 then next_at r else w0);
         w2 = (if ptt_is_on r \<and> \<not> key_is_down r \<and> ptt_release_at_us r < w1
               then ptt_release_at_us r else w1)
     in (s, r\<lparr>wake := w2\<rparr>))"

definition rp_sleeps :: "rk \<Rightarrow> bool" where
  "rp_sleeps = (\<lambda>(s, r). wake r > rp_now r)"

definition rp_silence_check :: "rk \<Rightarrow> rk" where
  "rp_silence_check x = (if stream_silent x then rp_drop_queue (rp_silence x) else x)"

definition replay_iteration :: "u64 \<Rightarrow> int \<Rightarrow> rk \<Rightarrow> rk" where
  "replay_iteration t ret =
     rp_wake \<circ> rp_ptt_tail \<circ> rp_ptt_lead \<circ> rp_apply \<circ> rp_watchdog \<circ> rp_silence_check
     \<circ> rp_since_rx \<circ> rp_reset \<circ> rp_reconnect ret \<circ> rp_read_clock t"

definition replay_shutdown :: "rk \<Rightarrow> rk" where
  "replay_shutdown = (\<lambda>(s, r). (force_safe s, r))"

text \<open>\<open>stop()\<close> after both threads have been joined: socket and serial device are closed.\<close>

definition rk_close :: "rks \<Rightarrow> rks" where
  "rk_close s =
     (let s1 = (if rk_sockfd s \<ge> 0 then s\<lparr>rk_sockfd := -1\<rparr> else s)
      in if rk_fd s1 \<ge> 0 then s1\<lparr>rk_fd := -1\<rparr> else s1)"

section \<open>The two threads\<close>

datatype rp_pc = Rp_top | Rp_reconnect | Rp_reset | Rp_load | Rp_check | Rp_drop | Rp_watchdog
  | Rp_apply | Rp_ptt | Rp_sleep | Rp_done

datatype rx_pc = Rx_idle | Rx_locked u64 packet

record rk_sys =
  sys :: rk
  replay_pc :: rp_pc
  receive_pc :: rx_pc
  clk :: u64
  running :: bool

definition rk_sys_init :: "remote_key_config \<Rightarrow> int \<Rightarrow> rk_sys" where
  "rk_sys_init c ret =
     \<lparr>sys = (snd (open_port ret (rks_init c)), replay_init), replay_pc = Rp_top,
      receive_pc = Rx_idle, clk = 0, running = True\<rparr>"

inductive rk_step :: "rk_sys \<Rightarrow> rk_sys \<Rightarrow> bool" where
  rx_arrive: "running x \<Longrightarrow> receive_pc x = Rx_idle \<Longrightarrow> clk x \<le> t
     \<Longrightarrow> decode (take MAX_PACKET_BYTES buf) = Some pkt
     \<Longrightarrow> rk_step x (x\<lparr>sys := apfst (store_last_rx t) (sys x), receive_pc := Rx_locked t pkt, clk := t\<rparr>)"
| rx_accept: "receive_pc x = Rx_locked t pkt
     \<Longrightarrow> rk_step x (x\<lparr>sys := apfst (accept_packet t pkt) (sys x), receive_pc := Rx_idle\<rparr>)"
| rp_clock: "replay_pc x = Rp_top \<Longrightarrow> running x \<Longrightarrow> clk x \<le> t
     \<Longrightarrow> rk_step x (x\<lparr>sys := rp_read_clock t (sys x), replay_pc := Rp_reconnect, clk := t\<rparr>)"
| rp_reconnects: "replay_pc x = Rp_reconnect
     \<Longrightarrow> rk_step x (x\<lparr>sys := rp_reconnect ret (sys x), replay_pc := Rp_reset\<rparr>)"
| rp_resets: "replay_pc x = Rp_reset
     \<Longrightarrow> rk_step x (x\<lparr>sys := rp_reset (sys x), replay_pc := Rp_load\<rparr>)"
| rp_loads: "replay_pc x = Rp_load
     \<Longrightarrow> rk_step x (x\<lparr>sys := rp_since_rx (sys x), replay_pc := Rp_check\<rparr>)"
| rp_silent: "replay_pc x = Rp_check \<Longrightarrow> stream_silent (sys x)
     \<Longrightarrow> rk_step x (x\<lparr>sys := rp_silence (sys x), replay_pc := Rp_drop\<rparr>)"
| rp_alive: "replay_pc x = Rp_check \<Longrightarrow> \<not> stream_silent (sys x)
     \<Longrightarrow> rk_step x (x\<lparr>replay_pc := Rp_watchdog\<rparr>)"
| rp_drops: "replay_pc x = Rp_drop
     \<Longrightarrow> rk_step x (x\<lparr>sys := rp_drop_queue (sys x), replay_pc := Rp_watchdog\<rparr>)"
| rp_watches: "replay_pc x = Rp_watchdog
     \<Longrightarrow> rk_step x (x\<lparr>sys := rp_watchdog (sys x), replay_pc := Rp_apply\<rparr>)"
| rp_applies: "replay_pc x = Rp_apply
     \<Longrightarrow> rk_step x (x\<lparr>sys := rp_apply (sys x), replay_pc := Rp_ptt\<rparr>)"
| rp_sequences: "replay_pc x = Rp_ptt
     \<Longrightarrow> rk_step x (x\<lparr>sys := rp_wake (rp_ptt_tail (rp_ptt_lead (sys x))), replay_pc := Rp_sleep\<rparr>)"
| rp_wakes: "replay_pc x = Rp_sleep \<Longrightarrow> rk_step x (x\<lparr>replay_pc := Rp_top\<rparr>)"
| rk_stops: "rk_step x (x\<lparr>running := False\<rparr>)"
| rp_exits: "replay_pc x = Rp_top \<Longrightarrow> \<not> running x
     \<Longrightarrow> rk_step x (x\<lparr>sys := replay_shutdown (sys x), replay_pc := Rp_done\<rparr>)"

inductive rk_reachable :: "remote_key_config \<Rightarrow> rk_sys \<Rightarrow> bool" for c where
  rk_start: "rk_reachable c (rk_sys_init c ret)"
| rk_next: "rk_reachable c x \<Longrightarrow> rk_step x y \<Longrightarrow> rk_reachable c y"

text \<open>The same steps as a function of a scheduler's choices, so that runs can be computed.\<close>

datatype rk_choice = Do_arrive u64 "u8 list" | Do_accept | Do_replay u64 int | Do_stop

fun rk_do :: "rk_choice \<Rightarrow> rk_sys \<Rightarrow> rk_sys option" where
  "rk_do (Do_arrive t buf) x =
     (case decode (take MAX_PACKET_BYTES buf) of
        None \<Rightarrow> None
      | Some pkt \<Rightarrow>
          if running x \<and> receive_pc x = Rx_idle \<and> clk x \<le> t
          then Some (x\<lparr>sys := apfst (store_last_rx t) (sys x), receive_pc := Rx_locked t pkt,
                       clk := t\<rparr>)
          else None)"
| "rk_do Do_accept x =
     (case receive_pc x of
        Rx_idle \<Rightarrow> None
      | Rx_locked t pkt \<Rightarrow>
          Some (x\<lparr>sys := apfst (accept_packet t pkt) (sys x), receive_pc := Rx_idle\<rparr>))"
| "rk_do (Do_replay t ret) x =
     (case replay_pc x of
        Rp_top \<Rightarrow>
          if running x
          then if clk x \<le> t
               then Some (x\<lparr>sys := rp_read_clock t (sys x), replay_pc := Rp_reconnect, clk := t\<rparr>)
               else None
          else Some (x\<lparr>sys := replay_shutdown (sys x), replay_pc := Rp_done\<rparr>)
      | Rp_reconnect \<Rightarrow> Some (x\<lparr>sys := rp_reconnect ret (sys x), replay_pc := Rp_reset\<rparr>)
      | Rp_reset \<Rightarrow> Some (x\<lparr>sys := rp_reset (sys x), replay_pc := Rp_load\<rparr>)
      | Rp_load \<Rightarrow> Some (x\<lparr>sys := rp_since_rx (sys x), replay_pc := Rp_check\<rparr>)
      | Rp_check \<Rightarrow>
          Some (if stream_silent (sys x) then x\<lparr>sys := rp_silence (sys x), replay_pc := Rp_drop\<rparr>
                else x\<lparr>replay_pc := Rp_watchdog\<rparr>)
      | Rp_drop \<Rightarrow> Some (x\<lparr>sys := rp_drop_queue (sys x), replay_pc := Rp_watchdog\<rparr>)
      | Rp_watchdog \<Rightarrow> Some (x\<lparr>sys := rp_watchdog (sys x), replay_pc := Rp_apply\<rparr>)
      | Rp_apply \<Rightarrow> Some (x\<lparr>sys := rp_apply (sys x), replay_pc := Rp_ptt\<rparr>)
      | Rp_ptt \<Rightarrow> Some (x\<lparr>sys := rp_wake (rp_ptt_tail (rp_ptt_lead (sys x))), replay_pc := Rp_sleep\<rparr>)
      | Rp_sleep \<Rightarrow> Some (x\<lparr>replay_pc := Rp_top\<rparr>)
      | Rp_done \<Rightarrow> None)"
| "rk_do Do_stop x = Some (x\<lparr>running := False\<rparr>)"

fun rk_run :: "rk_choice list \<Rightarrow> rk_sys \<Rightarrow> rk_sys option" where
  "rk_run [] x = Some x"
| "rk_run (c # cs) x = (case rk_do c x of None \<Rightarrow> None | Some y \<Rightarrow> rk_run cs y)"

lemma rk_do_step: "rk_do ch x = Some y \<Longrightarrow> rk_step x y"
  by (induction ch x rule: rk_do.induct)
    (auto intro: rk_step.intros split: option.splits if_splits rx_pc.splits rp_pc.splits)

lemma rk_run_reachable: "rk_reachable c x \<Longrightarrow> rk_run cs x = Some y \<Longrightarrow> rk_reachable c y"
  by (induction cs x rule: rk_run.induct)
    (auto intro: rk_next dest: rk_do_step split: option.splits)

lemma rk_run_steps: "rk_run cs x = Some y \<Longrightarrow> rk_step\<^sup>*\<^sup>* x y"
  by (induction cs x rule: rk_run.induct)
    (auto intro: converse_rtranclp_into_rtranclp dest: rk_do_step split: option.splits)

section \<open>The control lines follow the flags\<close>

definition lines_safe :: "rk \<Rightarrow> bool" where
  "lines_safe = (\<lambda>(s, r). (dtr_line s \<longrightarrow> key_is_down r) \<and> (rts_line s \<longrightarrow> ptt_is_on r)
     \<and> (key_is_down r \<longrightarrow> ptt_is_on r) \<and> (rk_fd s < 0 \<longrightarrow> \<not> dtr_line s \<and> \<not> rts_line s))"

lemmas line_defs = set_key_def set_ptt_def force_safe_def open_port_def Let_def

lemmas stage_defs = rp_read_clock_def rp_reconnect_def rp_reset_def rp_since_rx_def
  rp_silence_def rp_drop_queue_def rp_watchdog_def rp_ptt_lead_def rp_ptt_tail_def rp_wake_def
  replay_shutdown_def

text \<open>What every piece of the replay loop promises about the lines; a client that runs a
  sequence of such pieces gets the promise for the run.\<close>

locale line_driver =
  fixes f :: "'e \<Rightarrow> rk \<Rightarrow> rk"
  assumes keeps_lines: "lines_safe x \<Longrightarrow> lines_safe (f e x)"
    and keeps_cfg: "rk_cfg (fst (f e x)) = rk_cfg (fst x)"
begin

lemma run_lines: "lines_safe x \<Longrightarrow> lines_safe (fold f es x)"
  by (induction es arbitrary: x) (simp_all add: keeps_lines)

lemma run_cfg: "rk_cfg (fst (fold f es x)) = rk_cfg (fst x)"
  by (induction es arbitrary: x) (simp_all add: keeps_cfg)

end

interpretation edges: line_driver apply_edge
  by unfold_locales (auto simp: apply_edge_def lines_safe_def line_defs split: if_splits)

lemma fold_apply_edge_frame:
  "rp_now (snd (fold apply_edge es x)) = rp_now (snd x)"
  "rk_fd (fst (fold apply_edge es x)) = rk_fd (fst x)"
  "queue (fst (fold apply_edge es x)) = queue (fst x)"
  by (induction es arbitrary: x) (auto simp: apply_edge_def line_defs split: prod.splits)

lemma lines_safe_queue [simp]: "lines_safe (s\<lparr>queue := q\<rparr>, r) = lines_safe (s, r)"
  by (simp add: lines_safe_def)

lemma lines_safe_peek [simp]: "lines_safe (rp_peek_next x) = lines_safe x"
  by (cases x) (simp add: rp_peek_next_def lines_safe_def split: list.split)

lemma lines_safe_apply [inv_intros]: "lines_safe x \<Longrightarrow> lines_safe (rp_apply x)"
  by (cases x) (simp add: rp_apply_def rp_apply_due_def edges.run_lines)

lemma lines_safe_read_clock [inv_intros]: "lines_safe x \<Longrightarrow> lines_safe (rp_read_clock t x)"
  by (cases x) (auto simp: rp_read_clock_def lines_safe_def line_defs)

lemma lines_safe_reconnect [inv_intros]: "lines_safe x \<Longrightarrow> lines_safe (rp_reconnect ret x)"
  by (cases x) (auto simp: rp_reconnect_def lines_safe_def line_defs)

lemma lines_safe_reset [inv_intros]: "lines_safe x \<Longrightarrow> lines_safe (rp_reset x)"
  by (cases x) (auto simp: rp_reset_def lines_safe_def line_defs)

lemma lines_safe_since_rx [inv_intros]: "lines_safe x \<Longrightarrow> lines_safe (rp_since_rx x)"
  by (cases x) (auto simp: rp_since_rx_def lines_safe_def line_defs)

lemma lines_safe_silence [inv_intros]: "lines_safe x \<Longrightarrow> lines_safe (rp_silence x)"
  by (cases x) (auto simp: rp_silence_def lines_safe_def line_defs)

lemma lines_safe_drop_queue [inv_intros]: "lines_safe x \<Longrightarrow> lines_safe (rp_drop_queue x)"
  by (cases x) (auto simp: rp_drop_queue_def lines_safe_def line_defs)

lemma lines_safe_watchdog [inv_intros]: "lines_safe x \<Longrightarrow> lines_safe (rp_watchdog x)"
  by (cases x) (auto simp: rp_watchdog_def lines_safe_def line_defs)

lemma lines_safe_ptt_lead [inv_intros]: "lines_safe x \<Longrightarrow> lines_safe (rp_ptt_lead x)"
  by (cases x) (auto simp: rp_ptt_lead_def lines_safe_def line_defs)

lemma lines_safe_ptt_tail [inv_intros]: "lines_safe x \<Longrightarrow> lines_safe (rp_ptt_tail x)"
  by (cases x) (auto simp: rp_ptt_tail_def lines_safe_def line_defs)

lemma lines_safe_wake [inv_intros]: "lines_safe x \<Longrightarrow> lines_safe (rp_wake x)"
  by (cases x) (auto simp: rp_wake_def lines_safe_def line_defs)

lemma lines_safe_replay_shutdown [inv_intros]: "lines_safe x \<Longrightarrow> lines_safe (replay_shutdown x)"
  by (cases x) (auto simp: replay_shutdown_def lines_safe_def line_defs)

lemma cfg_apply: "rk_cfg (fst (rp_apply x)) = rk_cfg (fst x)"
  by (simp add: rp_apply_def rp_peek_next_def rp_apply_due_def edges.run_cfg split_beta)

lemma cfg_stages:
  "rk_cfg (fst (rp_read_clock t x)) = rk_cfg (fst x)" "rk_cfg (fst (rp_reconnect ret x)) = rk_cfg (fst x)"
  "rk_cfg (fst (rp_reset x)) = rk_cfg (fst x)" "rk_cfg (fst (rp_since_rx x)) = rk_cfg (fst x)"
  "rk_cfg (fst (rp_silence x)) = rk_cfg (fst x)" "rk_cfg (fst (rp_drop_queue x)) = rk_cfg (fst x)"
  "rk_cfg (fst (rp_watchdog x)) = rk_cfg (fst x)" "rk_cfg (fst (rp_ptt_lead x)) = rk_cfg (fst x)"
  "rk_cfg (fst (rp_ptt_tail x)) = rk_cfg (fst x)" "rk_cfg (fst (rp_wake x)) = rk_cfg (fst x)"
  "rk_cfg (fst (replay_shutdown x)) = rk_cfg (fst x)"
  by (cases x, simp add: stage_defs line_defs)+

interpretation iterations: line_driver "\<lambda>(t, ret). replay_iteration t ret"
  by unfold_locales
    (auto simp: replay_iteration_def rp_silence_check_def cfg_stages cfg_apply
      inv_intros)

lemma lines_safe_receive [inv_intros]:
  "lines_safe (store_last_rx t s, r) = lines_safe (s, r)"
  "lines_safe (accept_packet t pkt s, r) = lines_safe (s, r)"
proof -
  have "lines_safe (enqueue_edge t e s, r) = lines_safe (s, r)" for e s
    by (simp add: enqueue_edge_def lines_safe_def Let_def)
  then have "lines_safe (fold (enqueue_edge t) es s, r) = lines_safe (s, r)" for es s
    by (induction es arbitrary: s) simp_all
  then show "lines_safe (accept_packet t pkt s, r) = lines_safe (s, r)"
    by (simp add: accept_packet_def begin_session_def lines_safe_def Let_def)
qed (simp add: store_last_rx_def lines_safe_def)

lemma receive_frame:
  "rk_cfg (accept_packet t pkt s) = rk_cfg s" "dtr_line (accept_packet t pkt s) = dtr_line s"
  "rts_line (accept_packet t pkt s) = rts_line s"
  "rk_cfg (store_last_rx t s) = rk_cfg s" "dtr_line (store_last_rx t s) = dtr_line s"
  "rts_line (store_last_rx t s) = rts_line s"
proof -
  have "rk_cfg (fold (enqueue_edge t) es s) = rk_cfg s
      \<and> dtr_line (fold (enqueue_edge t) es s) = dtr_line s
      \<and> rts_line (fold (enqueue_edge t) es s) = rts_line s" for es s
    by (induction es arbitrary: s) (simp_all add: enqueue_edge_def Let_def)
  then show "rk_cfg (accept_packet t pkt s) = rk_cfg s"
    "dtr_line (accept_packet t pkt s) = dtr_line s"
    "rts_line (accept_packet t pkt s) = rts_line s"
    by (simp_all add: accept_packet_def begin_session_def Let_def)
qed (simp_all add: store_last_rx_def)

lemma shutdown_lines: "lines_safe x \<Longrightarrow>
    \<not> dtr_line (fst (replay_shutdown x)) \<and> \<not> rts_line (fst (replay_shutdown x))"
  by (cases x) (auto simp: replay_shutdown_def lines_safe_def line_defs)

definition rk_safe :: "rk_sys \<Rightarrow> bool" where
  "rk_safe x \<longleftrightarrow> lines_safe (sys x)
     \<and> (replay_pc x = Rp_done \<longrightarrow> \<not> dtr_line (fst (sys x)) \<and> \<not> rts_line (fst (sys x)))"

lemma rk_safe_step: "rk_step x y \<Longrightarrow> rk_safe x \<Longrightarrow> rk_safe y"
  by (induction rule: rk_step.induct)
    (auto simp: rk_safe_def inv_intros receive_frame shutdown_lines apfst_def map_prod_def
      split: prod.splits)

lemma rk_safe_init: "rk_safe (rk_sys_init c ret)"
  by (simp add: rk_safe_def rk_sys_init_def lines_safe_def open_port_def rks_init_def
      replay_init_def Let_def)

lemma rk_reachable_safe: "rk_reachable c x \<Longrightarrow> rk_safe x"
  by (induction rule: rk_reachable.induct) (auto intro: rk_safe_init rk_safe_step)

text \<open>(C2) In every interleaving of the receiving and the replaying thread, after any
  datagrams, resets, silences, reconnects and at shutdown: the key line is raised only while the
  engine holds the key down, the PTT line only while it holds PTT, the key is never held without
  PTT, and once the replay thread has ended both lines are low.\<close>

theorem lines_follow_flags:
  assumes "rk_reachable c x" and "sys x = (s, r)"
  shows "(dtr_line s \<longrightarrow> key_is_down r) \<and> (rts_line s \<longrightarrow> ptt_is_on r)
    \<and> (key_is_down r \<longrightarrow> ptt_is_on r) \<and> (replay_pc x = Rp_done \<longrightarrow> \<not> dtr_line s \<and> \<not> rts_line s)"
  using rk_reachable_safe [OF assms(1)] assms(2) by (auto simp: rk_safe_def lines_safe_def)

text \<open>A computed run in which one key-down edge arrives and is played 150 ms later.\<close>

definition demo_datagram :: "u8 list" where
  "demo_datagram = [0xC7, 1, 0, 0, 7, 1, 0, 0, 0, 0, 0, 0, 1, 0xF4, 1]"

definition demo_run :: "rk_choice list" where
  "demo_run = [Do_arrive 1000 demo_datagram, Do_accept, Do_replay 151000 3, Do_replay 0 3,
     Do_replay 0 3, Do_replay 0 3, Do_replay 0 3, Do_replay 0 3, Do_replay 0 3, Do_replay 0 3]"

lemma demo_decode:
  "decode demo_datagram = Some \<lparr>pkt_session_id = 7, pkt_flags = 0,
     pkt_edges = [\<lparr>ts_us = 500, edge_state = 1\<rparr>]\<rparr>"
  by (simp add: demo_datagram_def decode_def MAGIC_def VERSION_def wire_sizes get_u16_def get_u64_def
      upt8 numeral_eq_Suc [of num.One] nth_Cons' numeral_Bit0 [symmetric])

lemmas run_simps = demo_run_def demo_decode rk_sys_init_def rks_init_def replay_init_def
  remote_key_config_default_def ms_to_us_def store_last_rx_def accept_packet_def begin_session_def
  enqueue_edge_def rp_apply_def rp_apply_due_def rp_peek_next_def apply_edge_def
  stream_silent_def silence_us_def max_down_us_def lead_us_def tail_us_def KEY_DOWN_def
  FLAG_SESSION_RESET_def line_defs stage_defs

lemma take_demo: "take MAX_PACKET_BYTES demo_datagram = demo_datagram"
  by (simp add: demo_datagram_def wire_sizes)

lemma demo_run_key_down:
  "\<exists>x. rk_run demo_run (rk_sys_init remote_key_config_default 3) = Some x \<and> replay_pc x = Rp_sleep
     \<and> dtr_line (fst (sys x)) \<and> rts_line (fst (sys x)) \<and> key_down_since_us (snd (sys x)) = 151000"
  by (simp add: run_simps take_demo)

theorem lines_follow_flags_witness:
  "\<exists>x. rk_reachable remote_key_config_default x \<and> dtr_line (fst (sys x))
     \<and> key_is_down (snd (sys x)) \<and> ptt_is_on (snd (sys x))"
proof -
  obtain x where x: "rk_run demo_run (rk_sys_init remote_key_config_default 3) = Some x"
    and dtr: "dtr_line (fst (sys x))"
    using demo_run_key_down by blast
  have r: "rk_reachable remote_key_config_default x"
    by (rule rk_run_reachable [OF rk_start x])
  show ?thesis
    using r dtr lines_follow_flags [OF r, of "fst (sys x)" "snd (sys x)"] by auto
qed

section \<open>The stuck-key watchdog\<close>

definition held_at_most :: "u64 \<Rightarrow> rk \<Rightarrow> bool" where
  "held_at_most m = (\<lambda>(s, r). key_is_down r \<longrightarrow>
     key_down_since_us r \<le> rp_now r \<and> rp_now r - key_down_since_us r \<le> m)"

definition down_in_past :: "rk \<Rightarrow> bool" where
  "down_in_past = (\<lambda>(s, r). key_is_down r \<longrightarrow> key_down_since_us r \<le> rp_now r)"

lemma held_apply_edge: "held_at_most m x \<Longrightarrow> held_at_most m (apply_edge se x)"
  by (cases x) (auto simp: held_at_most_def apply_edge_def line_defs)

lemma held_fold_edges: "held_at_most m x \<Longrightarrow> held_at_most m (fold apply_edge es x)"
  by (induction es arbitrary: x) (simp_all add: held_apply_edge)

lemma held_queue: "held_at_most m (s\<lparr>queue := q\<rparr>, r) = held_at_most m (s, r)"
  by (simp add: held_at_most_def)

lemma held_apply: "held_at_most m x \<Longrightarrow> held_at_most m (rp_apply x)"
proof -
  assume "held_at_most m x"
  then have "held_at_most m (rp_apply_due x)"
    by (cases x) (simp add: rp_apply_due_def held_fold_edges held_queue)
  then show ?thesis
    by (cases "rp_apply_due x")
      (simp add: rp_apply_def rp_peek_next_def held_at_most_def split: list.split)
qed

lemma held_after_watchdog:
  "down_in_past x \<Longrightarrow> held_at_most (max_down_us (fst x)) (rp_watchdog x)"
  by (cases x) (auto simp: rp_watchdog_def held_at_most_def down_in_past_def not_less)

lemma held_sequencing:
  "held_at_most m (rp_wake (rp_ptt_tail (rp_ptt_lead x))) = held_at_most m x"
  by (cases x) (simp add: rp_wake_def rp_ptt_tail_def rp_ptt_lead_def held_at_most_def Let_def)

lemma held_imp_past: "held_at_most m x \<Longrightarrow> down_in_past x"
  by (auto simp: held_at_most_def down_in_past_def)

lemma past_stages:
  "down_in_past x \<Longrightarrow> down_in_past (rp_reconnect ret x)"
  "down_in_past x \<Longrightarrow> down_in_past (rp_reset x)"
  "down_in_past x \<Longrightarrow> down_in_past (rp_since_rx x)"
  "down_in_past x \<Longrightarrow> down_in_past (rp_silence x)"
  "down_in_past x \<Longrightarrow> down_in_past (rp_drop_queue x)"
  "down_in_past x \<Longrightarrow> down_in_past (replay_shutdown x)"
  "down_in_past x \<Longrightarrow> rp_now (snd x) \<le> t \<Longrightarrow> down_in_past (rp_read_clock t x)"
  by (cases x; auto simp: stage_defs down_in_past_def)+

lemma now_stages:
  "rp_now (snd (rp_reconnect ret x)) = rp_now (snd x)" "rp_now (snd (rp_reset x)) = rp_now (snd x)"
  "rp_now (snd (rp_since_rx x)) = rp_now (snd x)" "rp_now (snd (rp_silence x)) = rp_now (snd x)"
  "rp_now (snd (rp_drop_queue x)) = rp_now (snd x)" "rp_now (snd (rp_watchdog x)) = rp_now (snd x)"
  "rp_now (snd (rp_apply x)) = rp_now (snd x)"
  "rp_now (snd (rp_wake (rp_ptt_tail (rp_ptt_lead x)))) = rp_now (snd x)"
  "rp_now (snd (replay_shutdown x)) = rp_now (snd x)" "rp_now (snd (rp_read_clock t x)) = t"
  by (cases x; simp add: stage_defs rp_apply_def rp_peek_next_def rp_apply_due_def
      fold_apply_edge_frame split_beta Let_def split: list.split)+

end
