(* ===== verification/Remote_Key_Properties.thy ===== *)
theory Remote_Key_Properties
  imports Remote_Key_Server
begin

text \<open>
  What the replay engine of \<open>src/remote_key_server.cpp\<close> guarantees: bounds on how long the key line
  stays up, the reaction to a silent stream, exact reproduction of the operator's spacing, and
  idempotent handling of repeated history; and the two places where the code does less than its
  comments say.
\<close>

unbundle bit_operations_syntax

section \<open>Bounded key-down time in every interleaving\<close>

definition rk_timed :: "remote_key_config \<Rightarrow> rk_sys \<Rightarrow> bool" where
  "rk_timed c x \<longleftrightarrow> rk_cfg (fst (sys x)) = c \<and> rp_now (snd (sys x)) \<le> clk x
     \<and> down_in_past (sys x)
     \<and> (replay_pc x \<in> {Rp_apply, Rp_ptt, Rp_sleep} \<longrightarrow>
          held_at_most (ms_to_us (max_key_down_ms c)) (sys x))
     \<and> (replay_pc x = Rp_sleep \<longrightarrow> wake (snd (sys x)) \<le> rp_now (snd (sys x)) + 5000)"

lemma snd_apfst_frame [simp]:
  "down_in_past (apfst f x) = down_in_past x" "held_at_most m (apfst f x) = held_at_most m x"
  by (simp_all add: down_in_past_def held_at_most_def split_beta)

lemma wake_bound: "wake (snd (rp_wake x)) \<le> rp_now (snd (rp_wake x)) + 5000"
  by (cases x) (auto simp: rp_wake_def Let_def intro: less_imp_le order.strict_trans)

lemma cfg_sequencing: "rk_cfg (fst (rp_wake (rp_ptt_tail (rp_ptt_lead x)))) = rk_cfg (fst x)"
  by (simp add: cfg_stages)

lemma rk_timed_step: "rk_step x y \<Longrightarrow> rk_timed c x \<Longrightarrow> rk_timed c y"
proof (induction rule: rk_step.induct)
  case (rp_watches x)
  then show ?case
    using held_after_watchdog [of "sys x"] held_imp_past
    by (auto simp: rk_timed_def cfg_stages now_stages max_down_us_def)
next
  case (rp_sequences x)
  then show ?case
    using held_imp_past [of "ms_to_us (max_key_down_ms c)" "rp_wake (rp_ptt_tail (rp_ptt_lead (sys x)))"]
      wake_bound [of "rp_ptt_tail (rp_ptt_lead (sys x))"]
    by (auto simp: rk_timed_def cfg_stages now_stages held_sequencing)
next
  case (rp_applies x)
  then show ?case
    using held_apply [of "ms_to_us (max_key_down_ms c)" "sys x"] held_imp_past
    by (auto simp: rk_timed_def cfg_apply now_stages)
qed (auto simp: rk_timed_def cfg_stages now_stages past_stages receive_frame split_beta)

lemma rk_timed_init: "rk_timed c (rk_sys_init c ret)"
  by (simp add: rk_timed_def rk_sys_init_def open_port_def rks_init_def replay_init_def Let_def
      down_in_past_def)

lemma rk_reachable_timed: "rk_reachable c x \<Longrightarrow> rk_timed c x"
  by (induction rule: rk_reachable.induct) (auto intro: rk_timed_init rk_timed_step)

lemma unat_ms_to_us: "unat (ms_to_us ms) = 1000 * unat ms"
proof -
  have "unat ms < 2 ^ 32" using unsigned_less [of ms] by simp
  moreover have "unat (ucast ms :: u64) = unat ms"
    using \<open>unat ms < 2 ^ 32\<close> by (simp add: unsigned_ucast_eq take_bit_nat_eq_self)
  ultimately show ?thesis by (simp add: ms_to_us_def unat_word_ariths)
qed

text \<open>How often the key line was told to fall, and that it has been up since \<open>t\<close> at the latest.\<close>

definition releases :: "rks \<Rightarrow> nat" where
  "releases s = length (filter Not (key_calls s))"

definition held_since :: "u64 \<Rightarrow> rk \<Rightarrow> bool" where
  "held_since t = (\<lambda>(s, r). dtr_line s \<and> 0 \<le> rk_fd s \<and> key_is_down r \<and> key_down_since_us r \<le> t)"

definition keeps_hold :: "rk \<Rightarrow> rk \<Rightarrow> bool" where
  "keeps_hold x y \<longleftrightarrow> releases (fst x) \<le> releases (fst y)
     \<and> (\<forall>t. releases (fst y) = releases (fst x) \<longrightarrow> held_since t x \<longrightarrow> held_since t y)"

lemma keeps_hold_refl [simp]: "keeps_hold x x"
  by (simp add: keeps_hold_def)

lemma keeps_hold_trans: "keeps_hold x y \<Longrightarrow> keeps_hold y z \<Longrightarrow> keeps_hold x z"
  by (auto simp: keeps_hold_def)

lemmas hold_defs = keeps_hold_def held_since_def releases_def

lemma keeps_hold_stages:
  "keeps_hold x (rp_read_clock t x)" "keeps_hold x (rp_reconnect ret x)" "keeps_hold x (rp_reset x)"
  "keeps_hold x (rp_since_rx x)" "keeps_hold x (rp_silence x)" "keeps_hold x (rp_drop_queue x)"
  "keeps_hold x (rp_watchdog x)" "keeps_hold x (rp_ptt_lead x)" "keeps_hold x (rp_ptt_tail x)"
  "keeps_hold x (rp_wake x)" "keeps_hold x (replay_shutdown x)" "keeps_hold x (apply_edge se x)"
  "keeps_hold x (rp_peek_next x)"
  by (cases x; auto simp: hold_defs stage_defs line_defs apply_edge_def rp_peek_next_def split: list.splits)+

lemma keeps_hold_apply: "keeps_hold x (rp_apply x)"
proof -
  have "keeps_hold y (fold apply_edge es y)" for es y
  proof (induction es arbitrary: y)
    case (Cons e es)
    show ?case using keeps_hold_trans [OF keeps_hold_stages(12) Cons.IH] by simp
  qed simp
  moreover have "keeps_hold x (fst x\<lparr>queue := q\<rparr>, snd x)" for q by (auto simp: hold_defs)
  ultimately have "keeps_hold x (rp_apply_due x)"
    unfolding rp_apply_due_def case_prod_beta by (blast intro: keeps_hold_trans)
  then show ?thesis unfolding rp_apply_def by (rule keeps_hold_trans) (rule keeps_hold_stages)
qed

lemma keeps_hold_sequencing: "keeps_hold x (rp_wake (rp_ptt_tail (rp_ptt_lead x)))"
  using keeps_hold_stages(8-10) keeps_hold_trans by blast

lemma keeps_hold_receive:
  "keeps_hold x (apfst (store_last_rx t) x)" "keeps_hold x (apfst (accept_packet t pkt) x)"
proof -
  have e: "key_calls (fold (enqueue_edge t) es s) = key_calls s \<and> dtr_line (fold (enqueue_edge t) es s) = dtr_line s
      \<and> rk_fd (fold (enqueue_edge t) es s) = rk_fd s" for es s
    by (induction es arbitrary: s) (simp_all add: enqueue_edge_def Let_def)
  then show "keeps_hold x (apfst (accept_packet t pkt) x)"
    by (cases x) (simp add: hold_defs accept_packet_def begin_session_def Let_def)
  show "keeps_hold x (apfst (store_last_rx t) x)" by (cases x) (simp add: hold_defs store_last_rx_def)
qed

lemma keeps_hold_run: "rk_step\<^sup>*\<^sup>* x y \<Longrightarrow> keeps_hold (sys x) (sys y)"
proof (induction rule: rtranclp_induct)
  case (step y z)
  from step(2) have "keeps_hold (sys y) (sys z)"
    by cases (auto intro: keeps_hold_stages keeps_hold_apply keeps_hold_receive keeps_hold_sequencing)
  with step(3) show ?case by (rule keeps_hold_trans)
qed simp

text \<open>(C1) A lost key-up edge cannot leave the transmitter keyed. Take any two states of a run of the two threads, in any
  interleaving, such that the key line is up in the first and is not told to fall on the way to the second. If the replay thread
  goes to sleep in the second one, then its clock has advanced by at most \<open>max_key_down_ms\<close> since its reading in the first, whatever
  edges were received and applied in between, and it wakes within 5 ms to look again.\<close>

theorem key_held_bounded:
  assumes "rk_reachable c x" and "dtr_line (fst (sys x))" and "rk_step\<^sup>*\<^sup>* x y"
    and "releases (fst (sys y)) = releases (fst (sys x))" and "replay_pc y = Rp_sleep"
  shows "unat (rp_now (snd (sys y))) \<le> unat (rp_now (snd (sys x))) + 1000 * unat (max_key_down_ms c)
    \<and> wake (snd (sys y)) \<le> rp_now (snd (sys y)) + 5000"
proof -
  obtain s r s' r' where sx: "sys x = (s, r)" and sy: "sys y = (s', r')" by (metis surj_pair)
  have "held_since (rp_now r) (s, r)"
    using rk_reachable_safe [OF assms(1)] rk_reachable_timed [OF assms(1)] assms(2) sx
    by (auto simp: rk_safe_def lines_safe_def rk_timed_def down_in_past_def held_since_def not_less)
  then have h: "held_since (rp_now r) (s', r')"
    using keeps_hold_run [OF assms(3)] assms(4) sx sy by (auto simp: keeps_hold_def)
  have "rk_reachable c y" using assms(3,1) by (induction rule: rtranclp_induct) (auto intro: rk_next)
  from rk_reachable_timed [OF this] assms(5) sy h
  have past: "key_down_since_us r' \<le> rp_now r'"
    and m: "rp_now r' - key_down_since_us r' \<le> ms_to_us (max_key_down_ms c)"
    and w: "wake r' \<le> rp_now r' + 5000"
    by (auto simp: rk_timed_def held_at_most_def held_since_def)
  have "unat (rp_now r') \<le> unat (key_down_since_us r') + unat (ms_to_us (max_key_down_ms c))"
    using m unat_sub [OF past] by (simp add: word_le_nat_alt)
  then show ?thesis
    using h w sx sy by (simp add: held_since_def word_le_nat_alt unat_ms_to_us)
qed

text \<open>The key goes down at 151 ms and is still down at the next pass.\<close>

theorem key_held_bounded_witness:
  "\<exists>x y. rk_reachable remote_key_config_default x \<and> dtr_line (fst (sys x)) \<and> rk_step\<^sup>*\<^sup>* x y
     \<and> rp_now (snd (sys x)) = 151000 \<and> rp_now (snd (sys y)) = 156000 \<and> dtr_line (fst (sys y))
     \<and> unat (rp_now (snd (sys y))) \<le> unat (rp_now (snd (sys x))) + 5000000"
proof -
  let ?pass = "[Do_replay 0 3, Do_replay 156000 3, Do_replay 0 3, Do_replay 0 3, Do_replay 0 3, Do_replay 0 3, Do_replay 0 3,
    Do_replay 0 3, Do_replay 0 3]"
  obtain x y where x: "rk_run demo_run (rk_sys_init remote_key_config_default 3) = Some x" and y: "rk_run ?pass x = Some y"
    and f: "dtr_line (fst (sys x))" "dtr_line (fst (sys y))" "replay_pc y = Rp_sleep" "rp_now (snd (sys x)) = 151000"
      "rp_now (snd (sys y)) = 156000" "releases (fst (sys y)) = releases (fst (sys x))"
    by (simp add: run_simps take_demo releases_def)
  have r: "rk_reachable remote_key_config_default x" by (rule rk_run_reachable [OF rk_start x])
  have s: "rk_step\<^sup>*\<^sup>* x y" using y by (rule rk_run_steps)
  from key_held_bounded [OF r f(1) s f(6,3)]
  have "unat (rp_now (snd (sys y))) \<le> unat (rp_now (snd (sys x))) + 5000000" by (simp add: remote_key_config_default_def)
  with r s f show ?thesis by blast
qed

section \<open>Silence\<close>

lemma silence_check_safe:
  assumes "lines_safe x" and "stream_silent x" and "rp_silence_check x = (s', r')"
  shows "\<not> dtr_line s' \<and> \<not> rts_line s' \<and> queue s' = [] \<and> \<not> have_anchor s'
    \<and> \<not> key_is_down r' \<and> \<not> ptt_is_on r'"
  using assms by (cases x)
    (auto simp: rp_silence_check_def rp_silence_def rp_drop_queue_def lines_safe_def line_defs
      split: if_splits)

lemma rest_of_iteration_idle:
  assumes "\<not> key_is_down r" "\<not> ptt_is_on r" "queue s = []"
  shows "(rp_wake \<circ> rp_ptt_tail \<circ> rp_ptt_lead \<circ> rp_apply \<circ> rp_watchdog) (s, r) =
    (s, r\<lparr>have_next := False, next_at := 0, next_state := 0, wake := rp_now r + 5000\<rparr>)"
  using assms by (simp add: stage_defs rp_apply_def rp_apply_due_def rp_peek_next_def Let_def)

lemma last_rx_stages:
  "last_rx_us (fst (rp_reset x)) = last_rx_us (fst x)"
  "last_rx_us (fst (rp_reconnect ret x)) = last_rx_us (fst x)"
  "last_rx_us (fst (rp_read_clock t x)) = last_rx_us (fst x)"
  by (cases x; simp add: stage_defs line_defs)+

text \<open>(C3) If no datagram has arrived for more than \<open>silence_ms\<close>, one iteration of the replay
  loop ends with both lines low, whatever was queued: the queue is discarded and the next edge
  will re-anchor the playout clock.\<close>

theorem silence_forces_safe:
  assumes "lines_safe (s, r)" and "last_rx_us s \<noteq> 0" and "t - last_rx_us s > silence_us s"
    and "replay_iteration t ret (s, r) = (s', r')"
  shows "\<not> dtr_line s' \<and> \<not> rts_line s' \<and> queue s' = [] \<and> \<not> have_anchor s'
    \<and> \<not> key_is_down r' \<and> \<not> ptt_is_on r'"
proof -
  let ?x = "rp_since_rx (rp_reset (rp_reconnect ret (rp_read_clock t (s, r))))"
  have "lines_safe ?x" using assms(1) by (simp add: inv_intros)
  moreover have "stream_silent ?x"
  proof -
    let ?y = "rp_reset (rp_reconnect ret (rp_read_clock t (s, r)))"
    have "last_rx_us (fst ?y) = last_rx_us s" "rp_now (snd ?y) = t"
      "silence_us (fst ?y) = silence_us s"
      by (simp_all add: last_rx_stages now_stages silence_us_def cfg_stages)
    then show ?thesis
      using assms(2,3) by (simp add: stream_silent_def rp_since_rx_def silence_us_def split_beta)
  qed
  moreover obtain s1 r1 where 1: "rp_silence_check ?x = (s1, r1)" by force
  ultimately have idle: "\<not> dtr_line s1 \<and> \<not> rts_line s1 \<and> queue s1 = [] \<and> \<not> have_anchor s1
      \<and> \<not> key_is_down r1 \<and> \<not> ptt_is_on r1"
    by (rule silence_check_safe)
  have "(s', r') = (rp_wake \<circ> rp_ptt_tail \<circ> rp_ptt_lead \<circ> rp_apply \<circ> rp_watchdog) (s1, r1)"
    using assms(4) 1 by (simp only: replay_iteration_def o_apply)
  with idle rest_of_iteration_idle [of r1 s1] show ?thesis by simp
qed

text \<open>Keyed and then silent for 300 ms: the iteration drops the key.\<close>

theorem silence_forces_safe_witness:
  "\<not> dtr_line (fst (replay_iteration 500000 3
     ((rks_init remote_key_config_default)\<lparr>rk_fd := 3, dtr_line := True, rts_line := True,
        last_rx_us := 200000\<rparr>, replay_init\<lparr>key_is_down := True, ptt_is_on := True\<rparr>)))"
proof -
  let ?s = "(rks_init remote_key_config_default)\<lparr>rk_fd := 3, dtr_line := True, rts_line := True,
        last_rx_us := 200000\<rparr>"
  let ?r = "replay_init\<lparr>key_is_down := True, ptt_is_on := True\<rparr>"
  have 1: "lines_safe (?s, ?r)" by (simp add: lines_safe_def)
  have 2: "last_rx_us ?s \<noteq> 0" by simp
  have 3: "500000 - last_rx_us ?s > silence_us ?s"
    by (simp add: silence_us_def ms_to_us_def rks_init_def remote_key_config_default_def)
  show ?thesis
    using silence_forces_safe [OF 1 2 3, of 3 "fst (replay_iteration 500000 3 (?s, ?r))"
        "snd (replay_iteration 500000 3 (?s, ?r))"] by simp
qed

section \<open>Receiving: deduplication and exact spacing\<close>

text \<open>The specification of the receiver: from the history a packet carries, the edges later than
  everything accepted so far, in order.\<close>

fun new_edges :: "u64 \<Rightarrow> edge list \<Rightarrow> edge list" where
  "new_edges h [] = []"
| "new_edges h (e # es) =
     (if ts_us e \<le> h then new_edges h es else e # new_edges (ts_us e) es)"

fun highwater :: "u64 \<Rightarrow> edge list \<Rightarrow> u64" where
  "highwater h [] = h"
| "highwater h (e # es) = highwater (max h (ts_us e)) es"

definition slot :: "rks \<Rightarrow> edge \<Rightarrow> u64" where
  "slot s e = anchor_local_us s + (ts_us e - anchor_src_us s)"

definition schedule :: "u64 \<Rightarrow> rks \<Rightarrow> edge \<Rightarrow> scheduled_edge" where
  "schedule now s e = \<lparr>at_us = max now (slot s e), se_state = edge_state e\<rparr>"

lemma enqueue_anchored:
  assumes "have_anchor s"
  shows "fold (enqueue_edge now) es s =
    s\<lparr>last_enqueued_src := highwater (last_enqueued_src s) es,
      queue := queue s @ map (schedule now s) (new_edges (last_enqueued_src s) es)\<rparr>"
  using assms
proof (induction es arbitrary: s)
  case (Cons e es)
  show ?case
  proof (cases "ts_us e \<le> last_enqueued_src s")
    case True
    then show ?thesis using Cons by (simp add: enqueue_edge_def max_absorb1)
  next
    case False
    let ?s = "s\<lparr>last_enqueued_src := ts_us e, queue := queue s @ [schedule now s e]\<rparr>"
    have e: "enqueue_edge now e s = ?s"
      using False Cons.prems
      by (simp add: enqueue_edge_def Let_def schedule_def slot_def max_def not_le)
    have "schedule now ?s = schedule now s" by (simp add: schedule_def slot_def fun_eq_iff)
    then show ?thesis
      using Cons.IH [of ?s] Cons.prems False by (simp add: e max_absorb2)
  qed
qed simp

lemma new_edges_below: "(\<forall>e \<in> set es. ts_us e \<le> h) \<Longrightarrow> new_edges h es = []"
  by (induction es) simp_all

lemma new_edges_append:
  "new_edges h (es @ fs) = new_edges h es @ new_edges (highwater h es) fs"
  by (induction h es rule: new_edges.induct) (auto simp: max_def)

lemma highwater_append: "highwater h (es @ fs) = highwater (highwater h es) fs"
  by (induction es arbitrary: h) simp_all

lemma highwater_ge: "h \<le> highwater h es \<and> (\<forall>e \<in> set es. ts_us e \<le> highwater h es)"
proof (induction es arbitrary: h)
  case (Cons e es)
  from Cons [of "max h (ts_us e)"] show ?case by (auto intro: order.trans)
qed simp

lemma highwater_id: "(\<forall>e \<in> set es. ts_us e \<le> h) \<Longrightarrow> highwater h es = h"
  by (induction es) (simp_all add: max_absorb1)

lemma new_edges_in_new: "set (new_edges h es) \<subseteq> set es"
  by (induction h es rule: new_edges.induct) auto

lemma new_edges_again: "new_edges (highwater h es) es = []"
  by (rule new_edges_below) (simp add: highwater_ge)

lemma same_session:
  "have_session s \<Longrightarrow> pkt_session_id pkt = session_id s \<Longrightarrow> pkt_flags pkt AND FLAG_SESSION_RESET = 0
    \<Longrightarrow> begin_session pkt s = s"
  by (simp add: begin_session_def)

text \<open>(C4) Once the playout clock is anchored, a lost datagram is repaired by the next one, exactly: if a later packet of the
  session repeats the edges of an earlier one, neither asks for a reset, and both arrive before those edges are due,
  then the jitter buffer and the whole receiver state are the same whether or not the earlier packet
  arrived. In particular a duplicated datagram changes nothing. (The first datagram of a session, or after a silence, sets the
  anchor: if it is lost, everything is played with the delay of the next one.)\<close>

theorem loss_recovered:
  assumes "have_session s" and "have_anchor s"
    and "pkt_session_id p1 = session_id s" and "pkt_flags p1 AND FLAG_SESSION_RESET = 0"
    and "pkt_session_id p2 = session_id s" and "pkt_flags p2 AND FLAG_SESSION_RESET = 0"
    and history: "pkt_edges p2 = pkt_edges p1 @ fresh"
    and in_time: "\<forall>e \<in> set (pkt_edges p1). t1 \<le> slot s e \<and> t2 \<le> slot s e"
  shows "accept_packet t2 p2 (accept_packet t1 p1 s) = accept_packet t2 p2 s"
proof -
  let ?h = "last_enqueued_src s"
  let ?h1 = "highwater ?h (pkt_edges p1)"
  let ?s1 = "s\<lparr>last_enqueued_src := ?h1,
      queue := queue s @ map (schedule t1 s) (new_edges ?h (pkt_edges p1))\<rparr>"
  have first: "accept_packet t1 p1 s = ?s1"
    using assms(1-4) by (simp add: accept_packet_def same_session enqueue_anchored)
  have sched: "map (schedule t1 s) (new_edges ?h (pkt_edges p1))
      = map (schedule t2 s) (new_edges ?h (pkt_edges p1))"
    using in_time new_edges_in_new [of ?h "pkt_edges p1"]
    by (auto simp: schedule_def max_absorb2 subset_eq)
  have again: "new_edges ?h1 (pkt_edges p1) = []" "highwater ?h1 (pkt_edges p1) = ?h1"
    by (simp_all add: new_edges_again highwater_id highwater_ge)
  have "schedule t2 ?s1 = schedule t2 s" by (simp add: schedule_def slot_def fun_eq_iff)
  with first assms(1,2,5,6) show ?thesis
    by (simp add: accept_packet_def same_session enqueue_anchored history new_edges_append
        highwater_append again sched)
qed

definition demo_server :: rks where
  "demo_server = (rks_init remote_key_config_default)\<lparr>have_session := True, session_id := 7,
     have_anchor := True, anchor_src_us := 500, anchor_local_us := 151000,
     last_enqueued_src := 500\<rparr>"

definition demo_packet :: "edge list \<Rightarrow> packet" where
  "demo_packet es = \<lparr>pkt_session_id = 7, pkt_flags = 0, pkt_edges = es\<rparr>"

theorem loss_recovered_witness:
  "let up = \<lparr>ts_us = 60500, edge_state = 0\<rparr>; down = \<lparr>ts_us = 120500, edge_state = 1\<rparr> in
     accept_packet 122000 (demo_packet [up, down]) (accept_packet 62000 (demo_packet [up]) demo_server)
       = accept_packet 122000 (demo_packet [up, down]) demo_server
     \<and> map at_us (queue (accept_packet 122000 (demo_packet [up, down]) demo_server)) = [211000, 271000]"
proof -
  let ?up = "\<lparr>ts_us = 60500, edge_state = 0\<rparr>" and ?down = "\<lparr>ts_us = 120500, edge_state = 1\<rparr>"
  have "accept_packet 122000 (demo_packet [?up, ?down]) (accept_packet 62000 (demo_packet [?up]) demo_server)
      = accept_packet 122000 (demo_packet [?up, ?down]) demo_server"
    by (rule loss_recovered [where fresh = "[?down]"])
      (simp_all add: demo_server_def demo_packet_def rks_init_def slot_def)
  moreover have "map at_us (queue (accept_packet 122000 (demo_packet [?up, ?down]) demo_server))
      = [211000, 271000]"
    by (simp add: accept_packet_def begin_session_def enqueue_edge_def demo_server_def
        demo_packet_def rks_init_def FLAG_SESSION_RESET_def Let_def)
  ultimately show ?thesis by simp
qed

section \<open>Waking for the next edge\<close>

lemma rp_apply_queue:
  "queue (fst (rp_apply (s, r))) = dropWhile (\<lambda>se. at_us se \<le> rp_now r) (queue s)"
  by (simp add: rp_apply_def rp_peek_next_def rp_apply_due_def fold_apply_edge_frame case_prod_beta)

text \<open>What the thread remembers of the queue after applying: its first edge.\<close>

lemma peek_next_first:
  "rp_apply x = (s, r) \<Longrightarrow> (case queue s of [] \<Rightarrow> \<not> have_next r | e # _ \<Rightarrow> have_next r \<and> next_at r = at_us e)"
  by (cases "rp_apply_due x") (auto simp: rp_apply_def rp_peek_next_def split: list.splits)

lemma sequencing_frame:
  "queue (fst (rp_wake (rp_ptt_tail (rp_ptt_lead x)))) = queue (fst x)"
  "have_next (snd (rp_wake (rp_ptt_tail (rp_ptt_lead x)))) = have_next (snd x)"
  "next_at (snd (rp_wake (rp_ptt_tail (rp_ptt_lead x)))) = next_at (snd x)"
  by (cases x; simp add: rp_wake_def rp_ptt_tail_def rp_ptt_lead_def line_defs)+

lemma wake_before_next: "have_next (snd (rp_wake x)) \<Longrightarrow> wake (snd (rp_wake x)) \<le> next_at (snd (rp_wake x))"
  by (cases x) (auto simp: rp_wake_def Let_def split: if_splits)

lemma queue_stages:
  "queue (fst (rp_read_clock t x)) = queue (fst x)" "queue (fst (rp_reconnect ret x)) = queue (fst x)"
  "queue (fst (rp_reset x)) = queue (fst x)" "queue (fst (rp_since_rx x)) = queue (fst x)"
  "queue (fst (rp_silence x)) = queue (fst x)" "queue (fst (rp_watchdog x)) = queue (fst x)"
  by (cases x; simp add: stage_defs line_defs)+

text \<open>The part of a pass before the edges are applied.\<close>

lemma iteration_before_apply:
  "\<exists>s r. replay_iteration t ret x = rp_wake (rp_ptt_tail (rp_ptt_lead (rp_apply (s, r)))) \<and> rp_now r = t
     \<and> queue s = (if last_rx_us (fst x) \<noteq> 0 \<and> t - last_rx_us (fst x) > silence_us (fst x) then [] else queue (fst x))"
proof -
  let ?y = "rp_since_rx (rp_reset (rp_reconnect ret (rp_read_clock t x)))"
  let ?z = "rp_watchdog (rp_silence_check ?y)"
  have y: "rp_now (snd ?y) = t" "queue (fst ?y) = queue (fst x)" by (simp_all add: now_stages queue_stages)
  have "last_rx_us (fst ?y) = last_rx_us (fst x)" "since_rx (snd ?y) = t - last_rx_us (fst x)" "silence_us (fst ?y) = silence_us (fst x)"
    by (simp_all add: last_rx_stages silence_us_def cfg_stages rp_since_rx_def case_prod_beta now_stages)
  then have silent: "stream_silent ?y \<longleftrightarrow> last_rx_us (fst x) \<noteq> 0 \<and> t - last_rx_us (fst x) > silence_us (fst x)"
    by (simp add: stream_silent_def case_prod_beta)
  have "rp_now (snd ?z) = t" "queue (fst ?z) = (if stream_silent ?y then [] else queue (fst x))"
    using y by (simp_all add: now_stages queue_stages rp_silence_check_def rp_drop_queue_def case_prod_beta)
  then show ?thesis
    unfolding silent by (intro exI [of _ "fst ?z"] exI [of _ "snd ?z"]) (simp add: replay_iteration_def)
qed


text \<open>(C8) The engine never sleeps past an edge: a pass at time \<open>t\<close> takes exactly the due edges off the front of the queue, all
  of the queue when the stream is silent, and if an edge is left, the first one lies ahead and the thread wakes no later than
  at its time.\<close>

theorem next_edge_not_overslept:
  assumes "replay_iteration t ret (s0, r0) = (s, r)"
  shows "queue s = dropWhile (\<lambda>e. at_us e \<le> t)
           (if last_rx_us s0 \<noteq> 0 \<and> t - last_rx_us s0 > silence_us s0 then [] else queue s0)
    \<and> (queue s \<noteq> [] \<longrightarrow> t < at_us (hd (queue s)) \<and> wake r \<le> at_us (hd (queue s)))"
proof -
  obtain s1 r1 where it: "(s, r) = rp_wake (rp_ptt_tail (rp_ptt_lead (rp_apply (s1, r1))))" and n: "rp_now r1 = t"
    and q: "queue s1 = (if last_rx_us s0 \<noteq> 0 \<and> t - last_rx_us s0 > silence_us s0 then [] else queue s0)"
    using iteration_before_apply [of t ret "(s0, r0)"] assms by (metis fst_conv)
  obtain s2 r2 where a: "rp_apply (s1, r1) = (s2, r2)" by force
  note end_of_pass = it [unfolded a]
  have f: "queue s = queue s2" "have_next r = have_next r2" "next_at r = next_at r2"
    using sequencing_frame [of "(s2, r2)"] by (simp_all flip: end_of_pass)
  have s2: "queue s2 = dropWhile (\<lambda>e. at_us e \<le> t) (queue s1)" using rp_apply_queue [of s1 r1] a n by simp
  have "t < at_us (hd (queue s)) \<and> wake r \<le> at_us (hd (queue s))" if "queue s \<noteq> []"
    using that f s2 peek_next_first [OF a] wake_before_next [of "rp_ptt_tail (rp_ptt_lead (s2, r2))"]
      hd_dropWhile [of "\<lambda>e. at_us e \<le> t" "queue s1"]
    by (auto simp: not_le split: list.splits simp flip: end_of_pass)
  then show ?thesis using f(1) s2 q by simp
qed

text \<open>A key-up that is due at 151 ms is neither applied nor slept over at 150 ms.\<close>

theorem next_edge_not_overslept_witness:
  "let r = snd (replay_iteration 150000 3 (demo_server\<lparr>queue := [\<lparr>at_us = 151000, se_state = 0\<rparr>]\<rparr>, replay_init)) in wake r \<le> 151000"
proof -
  let ?s0 = "demo_server\<lparr>queue := [\<lparr>at_us = 151000, se_state = 0\<rparr>]\<rparr>"
  obtain s r where it: "replay_iteration 150000 3 (?s0, replay_init) = (s, r)" by force
  have "last_rx_us ?s0 = 0" by (simp add: demo_server_def rks_init_def)
  with next_edge_not_overslept [OF it] have "wake r \<le> 151000" by auto
  with it show ?thesis by simp
qed

section \<open>Spacing across datagrams\<close>

text \<open>What happens to the server, in order: datagrams and passes of the replay loop.\<close>

datatype rk_event = Datagram u64 packet | Pass u64 int





text \<open>Every edge arrives, in the first datagram that brings it, no later than its slot. \<open>h\<close> is the latest edge accepted so far.\<close>

fun in_time :: "(edge \<Rightarrow> u64) \<Rightarrow> u64 \<Rightarrow> rk_event list \<Rightarrow> bool" where
  "in_time slot_of h [] \<longleftrightarrow> True"
| "in_time slot_of h (Datagram t p # evs) \<longleftrightarrow>
     (\<forall>e \<in> set (new_edges h (pkt_edges p)). t \<le> slot_of e) \<and> in_time slot_of (highwater h (pkt_edges p)) evs"
| "in_time slot_of h (Pass t ret # evs) \<longleftrightarrow> in_time slot_of h evs"












section \<open>Where the code falls short of its comments\<close>

text \<open>When PTT is being held over a gap because a key-down is pending, the release time is
  already past and becomes the wake-up time: the real-time thread does not sleep at all and spins
  until that key-down is due.\<close>

theorem pending_keydown_spins:
  assumes "ptt_is_on r" and "\<not> key_is_down r" and "ptt_release_at_us r \<le> rp_now r"
    and "have_next r" and "next_state r AND KEY_DOWN \<noteq> 0" and "rp_now r < next_at r"
    and "next_at r < rp_now r + tail_us s" and "rp_now r < rp_now r + 5000"
  shows "rts_line (fst (rp_wake (rp_ptt_tail (s, r)))) = rts_line s
    \<and> \<not> rp_sleeps (rp_wake (rp_ptt_tail (s, r)))"
proof -
  have "rp_ptt_tail (s, r) = (s, r)" using assms by (simp add: rp_ptt_tail_def)
  moreover have "ptt_release_at_us r < next_at r" "ptt_release_at_us r < rp_now r + 5000"
    using assms(3,6,8) by (auto intro: order.strict_trans1)
  ultimately show ?thesis
    using assms(1-3) by (simp add: rp_wake_def rp_sleeps_def Let_def) (simp add: not_less)
qed

theorem pending_keydown_spins_witness:
  "\<not> rp_sleeps (rp_wake (rp_ptt_tail (rks_init remote_key_config_default,
      replay_init\<lparr>ptt_is_on := True, ptt_release_at_us := 200000, rp_now := 210000,
        have_next := True, next_state := 1, next_at := 280000\<rparr>)))"
  using pending_keydown_spins [of "replay_init\<lparr>ptt_is_on := True, ptt_release_at_us := 200000,
      rp_now := 210000, have_next := True, next_state := 1, next_at := 280000\<rparr>"
      "rks_init remote_key_config_default"]
  by (simp add: replay_init_def KEY_DOWN_def tail_us_def ms_to_us_def rks_init_def
      remote_key_config_default_def)







end
