(* ===== verification/Cpp_Float.thy ===== *)
theory Cpp_Float
  imports Prelude Complex_Main
begin

text \<open>
  The C++ types \<open>float\<close> and \<open>double\<close> as IEEE 754 binary32 and binary64 with rounding to
  nearest, ties to even: a value is a rational or one of the specials, and every operation is the
  exact rational operation followed by one rounding, as the SSE instructions do it (no
  contraction into fused operations, no excess precision). The sign of zero is not kept; the
  sources divide only by sums and products that cannot be \<open>-0\<close>. A conversion of a value that
  does not fit into the integer type is undefined behaviour, \<open>None\<close>.
\<close>

section \<open>Values and rounding\<close>

datatype flt = Fin rat | PInf | NInf | NaN

definition pow2 :: "int \<Rightarrow> rat" where
  "pow2 k = (if 0 \<le> k then 2 ^ nat k else 1 / 2 ^ nat (- k))"

function zlog2 :: "int \<Rightarrow> int" where
  "zlog2 n = (if n < 2 then 0 else 1 + zlog2 (n div 2))"
  by auto
termination by (relation "measure nat") auto

declare zlog2.simps [simp del]

text \<open>The exponent of a positive rational: \<open>2 ^ ilog2 x \<le> x < 2 ^ (ilog2 x + 1)\<close>.\<close>

definition ilog2 :: "rat \<Rightarrow> int" where
  "ilog2 x =
     (case quotient_of x of (n, d) \<Rightarrow>
        let k = zlog2 n - zlog2 d
        in if x < pow2 k then k - 1 else k)"

definition round_even :: "rat \<Rightarrow> int" where
  "round_even r =
     (let f = floor r; d = r - of_int f
      in if d < 1 / 2 then f else if 1 / 2 < d then f + 1 else if even f then f else f + 1)"

definition rnd :: "int \<Rightarrow> int \<Rightarrow> int \<Rightarrow> rat \<Rightarrow> flt" where
  "rnd prec qmin emax x =
     (if x = 0 then Fin 0
      else let q = max (ilog2 \<bar>x\<bar> - (prec - 1)) qmin;
               v = sgn x * (of_int (round_even (\<bar>x\<bar> / pow2 q)) * pow2 q)
           in if v \<ge> pow2 emax then PInf else if v \<le> - pow2 emax then NInf else Fin v)"

definition rnd32 :: "rat \<Rightarrow> flt" where "rnd32 = rnd 24 (- 149) 128"

definition rnd64 :: "rat \<Rightarrow> flt" where "rnd64 = rnd 53 (- 1074) 1024"

section \<open>Operations\<close>

fun fneg :: "flt \<Rightarrow> flt" where
  "fneg (Fin a) = Fin (- a)"
| "fneg PInf = NInf"
| "fneg NInf = PInf"
| "fneg NaN = NaN"

fun fadd :: "(rat \<Rightarrow> flt) \<Rightarrow> flt \<Rightarrow> flt \<Rightarrow> flt" where
  "fadd r (Fin a) (Fin b) = r (a + b)"
| "fadd r NaN _ = NaN"
| "fadd r _ NaN = NaN"
| "fadd r PInf NInf = NaN"
| "fadd r NInf PInf = NaN"
| "fadd r PInf _ = PInf"
| "fadd r NInf _ = NInf"
| "fadd r _ PInf = PInf"
| "fadd r _ NInf = NInf"

definition fsub :: "(rat \<Rightarrow> flt) \<Rightarrow> flt \<Rightarrow> flt \<Rightarrow> flt" where
  "fsub r a b = fadd r a (fneg b)"

definition inf_of_sign :: "rat \<Rightarrow> flt" where
  "inf_of_sign s = (if s = 0 then NaN else if 0 < s then PInf else NInf)"

fun fsgn :: "flt \<Rightarrow> rat" where
  "fsgn (Fin a) = sgn a"
| "fsgn PInf = 1"
| "fsgn NInf = - 1"
| "fsgn NaN = 0"

fun fmul :: "(rat \<Rightarrow> flt) \<Rightarrow> flt \<Rightarrow> flt \<Rightarrow> flt" where
  "fmul r (Fin a) (Fin b) = r (a * b)"
| "fmul r a b = inf_of_sign (fsgn a * fsgn b)"

fun fdiv :: "(rat \<Rightarrow> flt) \<Rightarrow> flt \<Rightarrow> flt \<Rightarrow> flt" where
  "fdiv r (Fin a) (Fin b) = (if b = 0 then inf_of_sign a else r (a / b))"
| "fdiv r NaN _ = NaN"
| "fdiv r _ NaN = NaN"
| "fdiv r (Fin a) _ = Fin 0"
| "fdiv r a (Fin b) = inf_of_sign (fsgn a * (if b = 0 then 1 else sgn b))"
| "fdiv r a b = NaN"

fun fle :: "flt \<Rightarrow> flt \<Rightarrow> bool" where
  "fle NaN _ = False"
| "fle _ NaN = False"
| "fle NInf _ = True"
| "fle _ PInf = True"
| "fle (Fin a) (Fin b) = (a \<le> b)"
| "fle _ _ = False"

fun fabs :: "flt \<Rightarrow> flt" where
  "fabs (Fin a) = Fin \<bar>a\<bar>"
| "fabs NInf = PInf"
| "fabs a = a"

text \<open>Integer to \<open>float\<close> rounds; \<open>float\<close> to an unsigned integer truncates.\<close>

definition f32_of_int :: "int \<Rightarrow> flt" where "f32_of_int n = rnd32 (of_int n)"

definition trunc_rat :: "rat \<Rightarrow> int" where
  "trunc_rat x = (if 0 \<le> x then \<lfloor>x\<rfloor> else \<lceil>x\<rceil>)"

definition to_u32 :: "flt \<Rightarrow> u32 option" where
  "to_u32 a =
     (case a of
        Fin x \<Rightarrow> if 0 \<le> trunc_rat x \<and> trunc_rat x < 2 ^ 32 then Some (of_int (trunc_rat x)) else None
      | _ \<Rightarrow> None)"

definition to_i32 :: "flt \<Rightarrow> int option" where
  "to_i32 a =
     (case a of
        Fin x \<Rightarrow> if - (2 ^ 31) \<le> trunc_rat x \<and> trunc_rat x < 2 ^ 31 then Some (trunc_rat x) else None
      | _ \<Rightarrow> None)"

text \<open>The operators on \<open>float\<close> operands.\<close>

abbreviation add32 :: "flt \<Rightarrow> flt \<Rightarrow> flt" where "add32 \<equiv> fadd rnd32"
abbreviation sub32 :: "flt \<Rightarrow> flt \<Rightarrow> flt" where "sub32 \<equiv> fsub rnd32"
abbreviation mul32 :: "flt \<Rightarrow> flt \<Rightarrow> flt" where "mul32 \<equiv> fmul rnd32"
abbreviation div32 :: "flt \<Rightarrow> flt \<Rightarrow> flt" where "div32 \<equiv> fdiv rnd32"

section \<open>Accuracy\<close>

lemma pow2_pos [simp]: "0 < pow2 k"
  by (simp add: pow2_def)

lemma pow2_nonzero [simp]: "pow2 k \<noteq> 0"
  by (simp add: pow2_def)

lemma pow2_add: "pow2 (a + b) = pow2 a * pow2 b"
proof -
  have p: "pow2 k = 2 powi k" for k
    by (cases "0 \<le> k") (simp_all add: pow2_def power_int_def inverse_eq_divide power_one_over)
  show ?thesis unfolding p by (rule power_int_add) simp
qed

lemma pow2_nat [simp]: "pow2 (int n) = 2 ^ n"
  by (simp add: pow2_def)

lemma pow2_less_cancel:
  assumes "pow2 a < pow2 b"
  shows "a < b"
proof (rule ccontr)
  assume "\<not> a < b"
  then obtain n where "a = b + int n" by (metis not_less zle_iff_zadd)
  then have "pow2 a = pow2 b * 2 ^ n" by (simp add: pow2_add)
  moreover have "pow2 b * 1 \<le> pow2 b * 2 ^ n"
    by (rule mult_left_mono) (simp_all add: less_imp_le)
  ultimately show False using assms by simp
qed

lemma zlog2_bounds: "0 < n \<Longrightarrow> pow2 (zlog2 n) \<le> of_int n \<and> of_int n < pow2 (zlog2 n + 1)"
proof (induction n rule: zlog2.induct)
  case (1 n)
  show ?case
  proof (cases "n < 2")
    case True
    with 1 show ?thesis by (simp add: zlog2.simps [of n] pow2_def)
  next
    case False
    define m where "m = n div 2"
    have IH: "pow2 (zlog2 m) \<le> of_int m" "of_int m < pow2 (zlog2 m + 1)"
      using 1 False by (auto simp: m_def)
    obtain r where n: "n = 2 * m + r" "0 \<le> r" "r < 2"
      using that [of "n mod 2"] by (simp add: m_def)
    have z: "pow2 (1 + zlog2 m) = 2 * pow2 (zlog2 m)"
        "pow2 (1 + zlog2 m + 1) = 2 * pow2 (zlog2 m + 1)"
      using pow2_add [of 1 "zlog2 m"] pow2_add [of 1 "zlog2 m + 1"] by (simp_all add: pow2_def [of 1] add.assoc)
    obtain j where "pow2 (zlog2 m + 1) = of_int j"
    proof -
      have "0 \<le> zlog2 m" by (induction m rule: zlog2.induct) (simp add: zlog2.simps)
      then show ?thesis using that [of "2 ^ nat (zlog2 m + 1)"] by (simp add: pow2_def)
    qed
    with IH(2) have "of_int m + 1 \<le> pow2 (zlog2 m + 1)"
      by (metis of_int_1 of_int_add of_int_le_iff of_int_less_iff zless_imp_add1_zle)
    moreover have "rat_of_int r < 2" "0 \<le> rat_of_int r" using n(2,3) by simp_all
    ultimately have "2 * pow2 (zlog2 m) \<le> of_int n" "of_int n < 2 * pow2 (zlog2 m + 1)"
      using IH(1) by (simp_all add: n(1))
    moreover have "zlog2 n = 1 + zlog2 m" using False by (simp add: zlog2.simps [of n] m_def)
    ultimately show ?thesis using z by simp
  qed
qed

lemma ilog2_bounds:
  assumes "0 < x"
  shows "pow2 (ilog2 x) \<le> x \<and> x < pow2 (ilog2 x + 1)"
proof -
  obtain n d where nd: "quotient_of x = (n, d)" by force
  then have x: "x = of_int n / of_int d" "0 < d"
    using quotient_of_div quotient_of_denom_pos by blast+
  then have n: "0 < n" using assms by (simp add: zero_less_divide_iff)
  let ?a = "zlog2 n" and ?b = "zlog2 d"
  define k where "k = ?a - ?b"
  note nb = zlog2_bounds [OF n] and db = zlog2_bounds [OF x(2)]
  have lower: "pow2 (k - 1) \<le> x"
  proof -
    have "pow2 (k - 1) * of_int d \<le> pow2 (k - 1) * pow2 (?b + 1)"
      using db by simp
    also have "\<dots> = pow2 ?a" by (simp add: k_def flip: pow2_add)
    also have "\<dots> \<le> of_int n" using nb by simp
    finally show ?thesis using x by (simp add: pos_le_divide_eq)
  qed
  have upper: "x < pow2 (k + 1)"
  proof -
    have "of_int n < pow2 (?a + 1)" using nb by simp
    also have "\<dots> = pow2 (k + 1) * pow2 ?b" by (simp add: k_def flip: pow2_add)
    also have "\<dots> \<le> pow2 (k + 1) * of_int d" using db by simp
    finally show ?thesis using x by (simp add: pos_divide_less_eq)
  qed
  show ?thesis
    using lower upper by (auto simp: ilog2_def nd k_def [symmetric] Let_def not_less)
qed

lemma ilog2_unique:
  assumes "pow2 k \<le> x" "x < pow2 (k + 1)"
  shows "ilog2 x = k"
proof -
  have "0 < x" using assms(1) pow2_pos [of k] by linarith
  from ilog2_bounds [OF this] assms have "pow2 k < pow2 (ilog2 x + 1)" "pow2 (ilog2 x) < pow2 (k + 1)"
    by linarith+
  then show ?thesis by (auto dest!: pow2_less_cancel)
qed

text \<open>Evaluation of one rounding, the exponent given: no exact rational arithmetic beyond one
  quotient is needed.\<close>

lemma rnd32_eval:
  assumes "pow2 e \<le> x" "x < pow2 (e + 1)" "- 126 \<le> e" "e < 127"
    and "of_int (round_even (x / pow2 (e - 23))) * pow2 (e - 23) = v" "\<bar>v\<bar> < pow2 128"
  shows "rnd32 x = Fin v"
proof -
  have "0 < x" using assms(1) pow2_pos [of e] by linarith
  then show ?thesis
    using assms ilog2_unique [OF assms(1,2)]
    by (auto simp: rnd32_def rnd_def Let_def abs_less_iff)
qed

lemma rat_floor_divide_numeral [simp]:
  "\<lfloor>numeral a / numeral b :: rat\<rfloor> = numeral a div numeral b"
  by (metis floor_divide_of_int_eq of_int_numeral)

lemma round_even_error: "\<bar>of_int (round_even r) - r\<bar> \<le> 1 / 2"
proof -
  have "of_int \<lfloor>r\<rfloor> \<le> r" "r < of_int \<lfloor>r\<rfloor> + 1" using floor_correct [of r] by auto
  then show ?thesis unfolding round_even_def Let_def by (simp split: if_split)
qed

lemma round_even_of_int [simp]: "round_even (of_int n) = n"
  by (simp add: round_even_def)

text \<open>One rounding changes a normal value by at most one part in \<open>2 ^ 24\<close>.\<close>

lemma rnd32_relative_error:
  assumes "pow2 (- 126) \<le> x" "x < pow2 127"
  shows "\<exists>v. rnd32 x = Fin v \<and> \<bar>v - x\<bar> * 2 ^ 24 \<le> x"
proof -
  define e where "e = ilog2 x"
  have pos: "0 < x" using assms(1) pow2_pos [of "- 126"] by linarith
  then have e: "pow2 e \<le> x" "x < pow2 (e + 1)" using ilog2_bounds by (auto simp: e_def)
  have range: "- 126 < e + 1" "e < 127"
    using assms e pow2_less_cancel [of "- 126" "e + 1"] pow2_less_cancel [of e 127] by auto
  define q where "q = e - 23"
  have q: "max (ilog2 \<bar>x\<bar> - (24 - 1)) (- 149) = q"
    using range pos by (simp add: q_def e_def [symmetric])
  define m where "m = round_even (x / pow2 q)"
  define v where "v = of_int m * pow2 q"
  have err: "\<bar>v - x\<bar> \<le> pow2 q / 2"
  proof -
    have "\<bar>of_int m - x / pow2 q\<bar> * pow2 q \<le> 1 / 2 * pow2 q"
      unfolding m_def by (rule mult_right_mono [OF round_even_error]) (simp add: less_imp_le)
    also have "\<bar>of_int m - x / pow2 q\<bar> * pow2 q = \<bar>(of_int m - x / pow2 q) * pow2 q\<bar>"
      using pow2_pos [of q] by (simp only: abs_mult abs_of_pos)
    also have "(of_int m - x / pow2 q) * pow2 q = v - x"
      by (simp add: v_def left_diff_distrib)
    finally show ?thesis by simp
  qed
  have "pow2 q * 2 ^ 24 = 2 * pow2 e"
    using pow2_add [of q 23] by (simp add: q_def pow2_def [of 23])
  then have close: "\<bar>v - x\<bar> * 2 ^ 24 \<le> x" using err e(1) by simp
  then have "v < pow2 128"
  proof -
    have "v - x \<le> x" using close pos by (simp add: abs_if split: if_splits)
    then show ?thesis
      using assms(2) pow2_add [of 127 1] by (simp add: pow2_def [of 1])
  qed
  moreover have "0 \<le> v"
  proof (rule ccontr)
    assume "\<not> 0 \<le> v"
    then have "x \<le> \<bar>v - x\<bar>" by simp
    with close pos show False by simp
  qed
  ultimately have "rnd32 x = Fin v"
    using pos q pow2_pos [of 128]
    by (auto simp: rnd32_def rnd_def Let_def m_def v_def simp del: pow2_pos)
  with close show ?thesis by blast
qed

text \<open>One rounding moves any value in range by at most one part in \<open>2 ^ 24\<close>, or, among the
  subnormal values, by less than the smallest of them; it keeps the sign.\<close>

lemma round_even_nonneg: "0 \<le> r \<Longrightarrow> 0 \<le> round_even r"
  by (simp add: round_even_def Let_def)

lemma rnd32_close:
  assumes "\<bar>x\<bar> < pow2 127"
  shows "\<exists>v. rnd32 x = Fin v \<and> \<bar>v - x\<bar> \<le> \<bar>x\<bar> / 2 ^ 24 + pow2 (- 149) \<and> 0 \<le> v * x"
proof (cases "x = 0")
  case True
  then show ?thesis by (simp add: rnd32_def rnd_def less_imp_le)
next
  case False
  define e where "e = ilog2 \<bar>x\<bar>"
  have e: "pow2 e \<le> \<bar>x\<bar>" using ilog2_bounds [of "\<bar>x\<bar>"] False by (simp add: e_def)
  define q where "q = max (e - (24 - 1)) (- 149)"
  define w where "w = of_int (round_even (\<bar>x\<bar> / pow2 q)) * pow2 q"
  have "pow2 q / 2 \<le> \<bar>x\<bar> / 2 ^ 24 + pow2 (- 149)"
  proof (cases "e - 23 \<le> - 149")
    case True
    then have "q = - 149" by (simp add: q_def)
    then show ?thesis using pow2_pos [of "- 149"] abs_ge_zero [of x] by (simp add: field_simps add_increasing)
  next
    case False
    then have q: "q = e - 23" by (simp add: q_def)
    have "pow2 q * 2 ^ 23 = pow2 e" using pow2_add [of q 23] by (simp add: q pow2_def [of 23])
    then have "pow2 q / 2 \<le> \<bar>x\<bar> / 2 ^ 24" using e by simp
    then show ?thesis using pow2_pos [of "- 149"] by linarith
  qed
  moreover have "\<bar>w - \<bar>x\<bar>\<bar> \<le> pow2 q / 2"
  proof -
    have "w - \<bar>x\<bar> = (of_int (round_even (\<bar>x\<bar> / pow2 q)) - \<bar>x\<bar> / pow2 q) * pow2 q"
      by (simp add: w_def left_diff_distrib)
    then have "\<bar>w - \<bar>x\<bar>\<bar> = \<bar>of_int (round_even (\<bar>x\<bar> / pow2 q)) - \<bar>x\<bar> / pow2 q\<bar> * pow2 q"
      using pow2_pos [of q] by (simp only: abs_mult abs_of_pos)
    also have "\<dots> \<le> 1 / 2 * pow2 q"
      by (rule mult_right_mono [OF round_even_error]) (simp add: less_imp_le)
    finally show ?thesis by simp
  qed
  ultimately have close: "\<bar>w - \<bar>x\<bar>\<bar> \<le> \<bar>x\<bar> / 2 ^ 24 + pow2 (- 149)" by linarith
  have w0: "0 \<le> w" unfolding w_def
    by (intro mult_nonneg_nonneg) (simp_all add: round_even_nonneg less_imp_le)
  have "pow2 (- 149) < 1" "(4 :: rat) < pow2 127" "pow2 128 = 2 * pow2 127" by (simp_all add: pow2_def)
  moreover have "w \<le> \<bar>x\<bar> + (\<bar>x\<bar> / 2 ^ 24 + pow2 (- 149))" using close by linarith
  moreover have "\<bar>x\<bar> / 2 ^ 24 \<le> \<bar>x\<bar> / 2" by simp
  ultimately have "w < pow2 128" using assms by linarith
  then have v: "rnd32 x = Fin (sgn x * w)"
    using False w0 unfolding rnd32_def rnd_def Let_def e_def [symmetric] q_def [symmetric] w_def [symmetric]
    by (auto simp: sgn_if)
  have "sgn x * w - x = sgn x * (w - \<bar>x\<bar>)" by (simp add: right_diff_distrib sgn_mult_abs)
  then have "\<bar>sgn x * w - x\<bar> = \<bar>w - \<bar>x\<bar>\<bar>" using False by (simp add: abs_mult)
  moreover have "0 \<le> sgn x * w * x" using w0 by (auto simp: sgn_if mult_nonneg_nonpos)
  ultimately show ?thesis using v close by auto
qed

lemma rnd32_nonneg:
  assumes "0 \<le> x" "x < pow2 127"
  shows "\<exists>v. rnd32 x = Fin v \<and> 0 \<le> v \<and> \<bar>v - x\<bar> \<le> x / 2 ^ 24 + pow2 (- 149)"
proof (cases "x = 0")
  case True
  then show ?thesis by (simp add: rnd32_def rnd_def less_imp_le)
next
  case False
  then show ?thesis using rnd32_close [of x] assms by (auto simp: zero_le_mult_iff)
qed

lemma rnd32_small:
  assumes "\<bar>x\<bar> \<le> b" "b \<le> 2 ^ 40"
  shows "\<exists>v. rnd32 x = Fin v \<and> \<bar>v\<bar> \<le> b + b / 2 ^ 24 + 1 / 2 ^ 24"
proof -
  have p: "(2 :: rat) ^ 40 < pow2 127" "pow2 (- 149) \<le> 1 / 2 ^ 24" by (simp_all add: pow2_def)
  then have "\<bar>x\<bar> < pow2 127" using assms by linarith
  then obtain v where v: "rnd32 x = Fin v" "\<bar>v - x\<bar> \<le> \<bar>x\<bar> / 2 ^ 24 + pow2 (- 149)" using rnd32_close by blast
  have "\<bar>x\<bar> / 2 ^ 24 \<le> b / 2 ^ 24" using assms(1) by (rule divide_right_mono) simp
  then have "\<bar>v\<bar> \<le> b + b / 2 ^ 24 + 1 / 2 ^ 24" using v(2) p(2) assms(1) by linarith
  with v(1) show ?thesis by blast
qed

text \<open>An integer of at most as many bits as the significand is not rounded.\<close>

lemma rnd_of_int:
  assumes "\<bar>n\<bar> < 2 ^ p" "qmin \<le> 0" "int p < emax"
  shows "rnd (int p) qmin emax (of_int n) = Fin (of_int n)"
proof (cases "n = 0")
  case True
  then show ?thesis by (simp add: rnd_def)
next
  case False
  define a :: rat where "a = \<bar>of_int n\<bar>"
  have a: "a = of_int \<bar>n\<bar>" "0 < a" using False by (simp_all add: a_def)
  have small: "a < pow2 (int p)"
    using assms(1) unfolding a(1) pow2_nat by (metis of_int_less_iff of_int_numeral of_int_power)
  have "pow2 (ilog2 a) \<le> a" using ilog2_bounds [OF a(2)] by simp
  then have e: "ilog2 a < int p" using small pow2_less_cancel [of "ilog2 a" "int p"] by simp
  define q where "q = max (ilog2 a - (int p - 1)) qmin"
  have "q \<le> 0" using e assms(2) by (simp add: q_def)
  then obtain j where j: "q = - int j" by (metis int_nat_eq minus_minus neg_0_le_iff_le nat_0_le)
  have "pow2 q * 2 ^ j = 1" using pow2_add [of q "int j"] by (simp add: j pow2_def [of 0])
  then have "a / pow2 q = of_int (\<bar>n\<bar> * 2 ^ j)"
    by (simp add: a(1) field_simps)
  then have "of_int (round_even (a / pow2 q)) * pow2 q = a"
    by (metis nonzero_divide_eq_eq pow2_nonzero round_even_of_int)
  then have v: "sgn (of_int n) * (of_int (round_even (a / pow2 q)) * pow2 q) = of_int n"
    by (simp add: a_def sgn_mult_abs)
  obtain d where d: "emax = int p + int d" using assms(3) by (metis less_imp_le zle_iff_zadd)
  have "pow2 (int p) * 1 \<le> pow2 (int p) * 2 ^ d"
    by (rule mult_left_mono) (simp_all add: less_imp_le)
  then have "pow2 (int p) \<le> pow2 emax" by (simp add: d pow2_add)
  then have "a < pow2 emax" using small by (rule less_le_trans [rotated])
  then have "of_int n < pow2 emax" "- pow2 emax < of_int n"
    using a_def by (auto simp: abs_less_iff)
  then show ?thesis
    using False v unfolding rnd_def Let_def a_def [symmetric] q_def [symmetric]
    by simp
qed

text \<open>Every integer below \<open>2 ^ 24\<close> is a \<open>float\<close>, every integer below \<open>2 ^ 53\<close> a \<open>double\<close>; \<open>2 ^ 24 + 1\<close>
  is not a \<open>float\<close>.\<close>

lemma f32_of_int_exact: "\<bar>n\<bar> < 2 ^ 24 \<Longrightarrow> f32_of_int n = Fin (of_int n)"
  using rnd_of_int [of n 24 "- 149" 128] by (simp add: f32_of_int_def rnd32_def)

lemma rnd64_of_int: "\<bar>n\<bar> < 2 ^ 53 \<Longrightarrow> rnd64 (of_int n) = Fin (of_int n)"
  using rnd_of_int [of n 53 "- 1074" 1024] by (simp add: rnd64_def)

lemma f32_rounds_above: "f32_of_int (2 ^ 24 + 1) = Fin (2 ^ 24)"
  by code_simp

end
