(* ===== verification/Morse.thy ===== *)
theory Morse
  imports Cpp_Float
begin

text \<open>
  The timing calculation of the keyer (\<open>src/keyer/morse.h\<close>, \<open>src/keyer/morse.cpp\<close>): a code style
  (speeds, weighting, dah/dit ratio and the ranges they are interpolated in) determines the
  lengths of dits, dahs and spaces in milliseconds. All of it is \<open>float\<close> arithmetic, one rounding
  per operation. \<open>code_style::calculate_timings\<close> also overwrites two fields of the style, so its
  model returns the new style beside the timings.
\<close>

section \<open>Data\<close>

record code_timings =
  dit_ms :: flt
  dah_ms :: flt
  space_between_chars_ms :: flt
  space_between_words_ms :: flt
  weighted_dit_ms :: flt
  weighted_dah_ms :: flt
  weighted_inter_element_space_ms :: flt
  paddle_switchpoint_ms :: flt

record code_style =
  impulses_between_words :: u8
  impulses_between_characters :: u8
  autospace_enabled :: bool
  dah_dit_ratio :: flt
  weighting :: flt
  extra_letterspace_percent :: flt
  keying_compensation_ms :: flt
  character_wpm :: flt
  farnsworth_wpm :: flt
  paddle_switchpoint :: flt
  speed_low :: flt
  speed_high :: flt
  dah_dit_ratio_low :: flt
  dah_dit_ratio_high :: flt
  weighting_low :: flt
  weighting_high :: flt
  extra_letterspace_percent_low :: flt
  extra_letterspace_percent_high :: flt

text \<open>The default member initialisers of \<open>struct code_style\<close>, and a value-initialised
  \<open>code_timings{}\<close>.\<close>

definition code_style_default :: code_style where
  "code_style_default =
     \<lparr>impulses_between_words = 6, impulses_between_characters = 3, autospace_enabled = True,
      dah_dit_ratio = Fin 3, weighting = Fin 50, extra_letterspace_percent = Fin 0,
      keying_compensation_ms = Fin 0, character_wpm = Fin 24, farnsworth_wpm = Fin 24,
      paddle_switchpoint = Fin 50, speed_low = Fin 20, speed_high = Fin 40,
      dah_dit_ratio_low = Fin 3, dah_dit_ratio_high = Fin 3, weighting_low = Fin 10,
      weighting_high = Fin 90, extra_letterspace_percent_low = Fin 0,
      extra_letterspace_percent_high = Fin 0\<rparr>"

definition code_timings_zero :: code_timings where
  "code_timings_zero =
     \<lparr>dit_ms = Fin 0, dah_ms = Fin 0, space_between_chars_ms = Fin 0,
      space_between_words_ms = Fin 0, weighted_dit_ms = Fin 0, weighted_dah_ms = Fin 0,
      weighted_inter_element_space_ms = Fin 0, paddle_switchpoint_ms = Fin 0\<rparr>"

section \<open>Operations\<close>

definition space_impulses_in_paris :: "code_style \<Rightarrow> flt" where
  "space_impulses_in_paris s =
     f32_of_int (4 * uint (impulses_between_characters s) + uint (impulses_between_words s))"

definition non_space_impulses_in_paris :: "code_style \<Rightarrow> flt" where
  "non_space_impulses_in_paris s =
     add32 (f32_of_int (10 + 9)) (mul32 (f32_of_int 4) (dah_dit_ratio s))"

definition map_range :: "flt \<Rightarrow> flt \<Rightarrow> flt \<Rightarrow> flt \<Rightarrow> flt \<Rightarrow> flt" where
  "map_range speed speed_min speed_max value_min value_max =
     (if fle (fabs (sub32 speed_max speed_min)) (rnd32 (1 / 1000)) then value_min
      else if fle speed speed_min then value_min
      else if fle speed_max speed then value_max
      else
        let alpha = div32 (sub32 speed speed_min) (sub32 speed_max speed_min)
        in add32 value_min (mul32 alpha (sub32 value_max value_min)))"

definition calculate_timings :: "code_style \<Rightarrow> code_style \<times> code_timings" where
  "calculate_timings s0 =
     (let s1 = s0\<lparr>dah_dit_ratio :=
                    map_range (character_wpm s0) (speed_low s0) (speed_high s0)
                      (dah_dit_ratio_low s0) (dah_dit_ratio_high s0)\<rparr>;
          s = s1\<lparr>extra_letterspace_percent :=
                    map_range (character_wpm s1) (speed_low s1) (speed_high s1)
                      (extra_letterspace_percent_low s1) (extra_letterspace_percent_high s1)\<rparr>;
          impulsesPerMinute = mul32 (character_wpm s)
             (add32 (non_space_impulses_in_paris s) (space_impulses_in_paris s));
          dit = mul32 (div32 (Fin 60) impulsesPerMinute) (Fin 1000);
          dah = mul32 dit (dah_dit_ratio s);
          on_ms_per_minute = mul32 (mul32 (non_space_impulses_in_paris s) (farnsworth_wpm s)) dit;
          off_ms_per_minute = sub32 (mul32 (Fin 60) (Fin 1000)) on_ms_per_minute;
          pause_impulse_ms = div32 off_ms_per_minute
             (mul32 (space_impulses_in_paris s) (farnsworth_wpm s));
          chars = mul32 (f32_of_int (uint (impulses_between_characters s))) pause_impulse_ms;
          words = mul32 (f32_of_int (uint (impulses_between_words s))) pause_impulse_ms;
          weight = div32 (weighting s) (Fin 50);
          wdit = add32 (mul32 dit weight) (keying_compensation_ms s);
          wdah = add32 (mul32 dah weight) (keying_compensation_ms s);
          wspace0 = div32 (mul32 dit (sub32 (Fin 100) (weighting s))) (Fin 50);
          wspace1 = sub32 wspace0 (keying_compensation_ms s);
          wspace = add32 wspace1
             (div32 (mul32 (mul32 (Fin 3) wdit) (extra_letterspace_percent s)) (Fin 100))
      in (s, \<lparr>dit_ms = dit, dah_ms = dah, space_between_chars_ms = chars,
              space_between_words_ms = words, weighted_dit_ms = wdit, weighted_dah_ms = wdah,
              weighted_inter_element_space_ms = wspace, paddle_switchpoint_ms = Fin 0\<rparr>))"

text \<open>\<open>paddle_switchpoint_ms\<close> is never assigned in the source (the local \<open>code_timings speed\<close> is
  uninitialised) and never read; the model gives it the value zero.\<close>

definition ratio_to_int :: "flt \<Rightarrow> int option" where
  "ratio_to_int ratio = to_i32 (div32 (mul32 ratio (Fin 50)) (Fin 3))"

definition ratio_from_int :: "int \<Rightarrow> flt" where
  "ratio_from_int value = mul32 (Fin 3) (div32 (f32_of_int value) (Fin 50))"

section \<open>Interpolation\<close>

lemma map_range_below:
  "fle speed speed_min \<Longrightarrow> map_range speed speed_min speed_max vmin vmax = vmin"
  by (simp add: map_range_def)

text \<open>With the default ranges the interpolated values do not depend on the speed: the dah/dit
  ratio is always 3 and the extra letter space always 0.\<close>

lemma map_range_constant:
  assumes "0 \<le> w" "w < 2 ^ 24" "add32 (Fin v) (Fin 0) = Fin v"
  shows "map_range (Fin (of_int w)) (Fin 20) (Fin 40) (Fin v) (Fin v) = Fin v"
proof (cases "20 < w \<and> w < 40")
  case True
  have d: "sub32 (Fin 40) (Fin 20) = Fin 20" by code_simp
  have n: "sub32 (Fin (of_int w)) (Fin 20) = Fin (of_int (w - 20))"
    using f32_of_int_exact [of "w - 20"] True by (simp add: fsub_def f32_of_int_def)
  have "pow2 (- 126) \<le> of_int (w - 20) / 20"
  proof -
    have "pow2 (- 126) \<le> 1 / 20" by (simp add: pow2_def)
    also have "\<dots> \<le> of_int (w - 20) / 20" using True by (simp add: divide_right_mono)
    finally show ?thesis .
  qed
  moreover have "of_int (w - 20) / 20 < pow2 127" using True by (simp add: pow2_def)
  ultimately obtain a where "rnd32 (of_int (w - 20) / 20) = Fin a"
    using rnd32_relative_error by blast
  then have "mul32 (div32 (sub32 (Fin (of_int w)) (Fin 20)) (sub32 (Fin 40) (Fin 20)))
      (sub32 (Fin v) (Fin v)) = Fin 0"
    by (simp add: d n) (simp add: fsub_def rnd32_def rnd_def)
  then show ?thesis using assms(3) by (simp add: map_range_def Let_def)
next
  case False
  have d: "sub32 (Fin 40) (Fin 20) = Fin 20" by code_simp
  have "fle (Fin (of_int w)) (Fin 20) \<or> fle (Fin 40) (Fin (of_int w))"
    using False by auto
  then show ?thesis by (auto simp: map_range_def)
qed

section \<open>Lengths\<close>

text \<open>
  (C16) The dit length of a profile with the default style at an integer speed of 1 to 255 words
  per minute, the speeds the WinKeyer interface can set, is \<open>60000 / (49 * wpm)\<close> milliseconds up
  to a relative error of three parts in \<open>2 ^ 24\<close>: PARIS counts 31 keyed and intra-character
  impulses and 18 space impulses, because a word space has 6 impulses.
\<close>

theorem dit_length_paris:
  assumes "1 \<le> w" "w \<le> 255"
  shows "\<exists>v. dit_ms (snd (calculate_timings
             (code_style_default\<lparr>character_wpm := Fin (of_int w), farnsworth_wpm := Fin (of_int w)\<rparr>)))
             = Fin v
           \<and> \<bar>v - 60000 / (49 * of_int w)\<bar> * 2 ^ 24 \<le> 3 * (60000 / (49 * of_int w))"
proof -
  define x :: rat where "x = 60 / of_int (w * 49)"
  have w: "1 \<le> (of_int w :: rat)" "(of_int w :: rat) \<le> 255" using assms by simp_all
  have lo: "60 / 12495 \<le> x" using w by (simp add: x_def field_simps)
  have hi: "x \<le> 60 / 49" using w by (simp add: x_def field_simps)
  have p: "pow2 (- 126) < 60 / 12495" "60000 < pow2 127" by (simp_all add: pow2_def)
  have x126: "pow2 (- 126) \<le> x" "x < pow2 127" using lo hi p by linarith+
  obtain a where a: "rnd32 x = Fin a" "\<bar>a - x\<bar> * 2 ^ 24 \<le> x"
    using rnd32_relative_error [of x] x126 by blast
  have b: "a - x \<le> x / 2 ^ 24" "x - a \<le> x / 2 ^ 24" using a(2) by (simp_all add: abs_if split: if_splits)
  then have "60 / 12495 \<le> a * 1000" "a * 1000 \<le> 60000" using lo hi by simp_all
  then have "pow2 (- 126) \<le> a * 1000" "a * 1000 < pow2 127" using p by linarith+
  from rnd32_relative_error [OF this]
  obtain v where v: "rnd32 (a * 1000) = Fin v" "\<bar>v - a * 1000\<bar> * 2 ^ 24 \<le> a * 1000"
    by blast
  have near: "\<bar>v - x * 1000\<bar> * 2 ^ 24 \<le> 3 * (x * 1000)"
    using b v(2) lo by (simp add: abs_if split: if_splits)
  have cs: "add32 (f32_of_int 19) (mul32 (f32_of_int 4) (Fin 3)) = Fin 31" "f32_of_int 18 = Fin 18"
    "add32 (Fin 31) (Fin 18) = Fin 49" "add32 (Fin 3) (Fin 0) = Fin 3"
    by code_simp+
  have ipm: "rnd32 (of_int w * 49) = Fin (of_int (w * 49))"
    using f32_of_int_exact [of "w * 49"] assms by (simp add: f32_of_int_def)
  have "dit_ms (snd (calculate_timings
             (code_style_default\<lparr>character_wpm := Fin (of_int w), farnsworth_wpm := Fin (of_int w)\<rparr>)))
         = Fin v"
    using cs ipm a(1) v(1) assms
    by (simp add: calculate_timings_def Let_def code_style_default_def map_range_constant
        non_space_impulses_in_paris_def space_impulses_in_paris_def x_def)
  then show ?thesis using near by (auto simp: x_def field_simps)
qed

theorem dit_length_paris_witness:
  "(1::int) \<le> 24 \<and> (24::int) \<le> 255
   \<and> (\<exists>v. dit_ms (snd (calculate_timings
             (code_style_default\<lparr>character_wpm := Fin (of_int 24), farnsworth_wpm := Fin (of_int 24)\<rparr>)))
             = Fin v
           \<and> \<bar>v - 60000 / (49 * of_int 24)\<bar> * 2 ^ 24 \<le> 3 * (60000 / (49 * of_int 24)))"
  using dit_length_paris [of 24] by simp

text \<open>The timings depend on the two interpolated fields of the style only through the ranges they
  are interpolated in.\<close>

lemma interpolation_overrides:
  "calculate_timings (s\<lparr>dah_dit_ratio := r, extra_letterspace_percent := e\<rparr>) = calculate_timings s"
  by (simp add: calculate_timings_def)

section \<open>The default timings\<close>

text \<open>The value of every operation at 24 words per minute, and the timings they give.\<close>

lemma ops_24:
  "mul32 (Fin 4) (Fin 3) = Fin 12"
  "add32 (Fin 19) (Fin 12) = Fin 31"
  "add32 (Fin 31) (Fin 18) = Fin 49"
  "mul32 (Fin 24) (Fin 49) = Fin 1176"
  "div32 (Fin 60) (Fin 1176) = Fin (13695687 / 268435456)"
  "mul32 (Fin (13695687 / 268435456)) (Fin 1000) = Fin (6687347 / 131072)"
  "mul32 (Fin (6687347 / 131072)) (Fin 3) = Fin (2507755 / 16384)"
  "mul32 (Fin 31) (Fin 24) = Fin 744"
  "mul32 (Fin 744) (Fin (6687347 / 131072)) = Fin (9717551 / 256)"
  "mul32 (Fin 60) (Fin 1000) = Fin 60000"
  "sub32 (Fin 60000) (Fin (9717551 / 256)) = Fin (5642449 / 256)"
  "mul32 (Fin 18) (Fin 24) = Fin 432"
  "div32 (Fin (5642449 / 256)) (Fin 432) = Fin (6687347 / 131072)"
  "mul32 (Fin 3) (Fin (6687347 / 131072)) = Fin (2507755 / 16384)"
  "mul32 (Fin 6) (Fin (6687347 / 131072)) = Fin (2507755 / 8192)"
  "div32 (Fin 50) (Fin 50) = Fin 1"
  "mul32 (Fin (6687347 / 131072)) (Fin 1) = Fin (6687347 / 131072)"
  "add32 (Fin (6687347 / 131072)) (Fin 0) = Fin (6687347 / 131072)"
  "mul32 (Fin (2507755 / 16384)) (Fin 1) = Fin (2507755 / 16384)"
  "add32 (Fin (2507755 / 16384)) (Fin 0) = Fin (2507755 / 16384)"
  "sub32 (Fin 100) (Fin 50) = Fin 50"
  "mul32 (Fin (6687347 / 131072)) (Fin 50) = Fin (2612245 / 1024)"
  "div32 (Fin (2612245 / 1024)) (Fin 50) = Fin (6687347 / 131072)"
  "sub32 (Fin (6687347 / 131072)) (Fin 0) = Fin (6687347 / 131072)"
  "mul32 (Fin (2507755 / 16384)) (Fin 0) = Fin 0"
  "div32 (Fin 0) (Fin 100) = Fin 0"
  by code_simp+

lemma rnd32_0: "rnd32 0 = Fin 0" and rnd32_3: "rnd32 3 = Fin 3"
  by code_simp+

lemma ints_24: "f32_of_int 19 = Fin 19" "f32_of_int 18 = Fin 18" "f32_of_int 4 = Fin 4"
  "f32_of_int 3 = Fin 3" "f32_of_int 6 = Fin 6"
  by code_simp+

definition default_timings :: code_timings where
  "default_timings =
     \<lparr>dit_ms = Fin (6687347 / 131072), dah_ms = Fin (2507755 / 16384),
      space_between_chars_ms = Fin (2507755 / 16384), space_between_words_ms = Fin (2507755 / 8192),
      weighted_dit_ms = Fin (6687347 / 131072), weighted_dah_ms = Fin (2507755 / 16384),
      weighted_inter_element_space_ms = Fin (6687347 / 131072), paddle_switchpoint_ms = Fin 0\<rparr>"

lemma calculate_default_timings: "calculate_timings code_style_default = (code_style_default, default_timings)"
proof -
  have m: "map_range (Fin 24) (Fin 20) (Fin 40) (Fin 3) (Fin 3) = Fin 3"
    "map_range (Fin 24) (Fin 20) (Fin 40) (Fin 0) (Fin 0) = Fin 0"
    using map_range_constant [of 24 3] map_range_constant [of 24 0] by (simp_all add: rnd32_0 rnd32_3)
  show ?thesis
    unfolding calculate_timings_def code_style_default_def default_timings_def Let_def
      non_space_impulses_in_paris_def space_impulses_in_paris_def
    by (simp add: m ops_24 ints_24 del: fadd.simps fmul.simps fdiv.simps)
qed

end
