(* ===== verification/Char_Patterns.thy ===== *)
theory Char_Patterns
  imports Prelude
begin

text \<open>
  \<open>src/keyer/keyer_char_patterns.{h,cpp}\<close> and the \<open>element\<close> type of
  \<open>src/keyer/keyer_states.h\<close>: the Morse code table, sending a pattern element by element and
  decoding what was sent. A C++ \<open>char\<close> is its byte; characters are only compared for equality.
\<close>

unbundle bit_operations_syntax

section \<open>The table\<close>

datatype element = El_none | El_dit | El_dah

record char_pattern =
  cp_data :: u16
  cp_bits :: u8
  cp_character :: u8

definition pat :: "u16 \<Rightarrow> u8 \<Rightarrow> char \<Rightarrow> char_pattern" where
  "pat data bits c = \<lparr>cp_data = data, cp_bits = bits, cp_character = of_char c\<rparr>"

definition char_table :: "char_pattern list" where
  "char_table =
     [pat 0b01 2 (CHR ''A''), pat 0b1000 4 (CHR ''B''), pat 0b1010 4 (CHR ''C''),
      pat 0b100 3 (CHR ''D''), pat 0b0 1 (CHR ''E''), pat 0b0010 4 (CHR ''F''),
      pat 0b110 3 (CHR ''G''), pat 0b0000 4 (CHR ''H''), pat 0b00 2 (CHR ''I''),
      pat 0b0111 4 (CHR ''J''), pat 0b101 3 (CHR ''K''), pat 0b0100 4 (CHR ''L''),
      pat 0b11 2 (CHR ''M''), pat 0b10 2 (CHR ''N''), pat 0b111 3 (CHR ''O''),
      pat 0b0110 4 (CHR ''P''), pat 0b1101 4 (CHR ''Q''), pat 0b010 3 (CHR ''R''),
      pat 0b000 3 (CHR ''S''), pat 0b1 1 (CHR ''T''), pat 0b001 3 (CHR ''U''),
      pat 0b0001 4 (CHR ''V''), pat 0b011 3 (CHR ''W''), pat 0b1001 4 (CHR ''X''),
      pat 0b1011 4 (CHR ''Y''), pat 0b1100 4 (CHR ''Z''), pat 0b11111 5 (CHR ''0''),
      pat 0b01111 5 (CHR ''1''), pat 0b00111 5 (CHR ''2''), pat 0b00011 5 (CHR ''3''),
      pat 0b00001 5 (CHR ''4''), pat 0b00000 5 (CHR ''5''), pat 0b10000 5 (CHR ''6''),
      pat 0b11000 5 (CHR ''7''), pat 0b11100 5 (CHR ''8''), pat 0b11110 5 (CHR ''9''),
      pat 0b001100 6 (CHR ''?''), pat 0b10010 5 (CHR ''/''), pat 0b110011 6 (CHR '',''),
      pat 0b010101 6 (CHR ''.''), pat 0b10001 5 (CHR ''=''), pat 0b100001 6 (CHR ''-''),
      pat 0b011110 6 (CHR 0x22), pat 0b10110 5 (CHR ''(''), pat 0b101101 6 (CHR '')''),
      pat 0b000101 6 (CHR ''$''), pat 0b01010 5 (CHR ''+''), pat 0b1000101 7 (CHR ''[''),
      pat 0b01000 5 (CHR ''{''), pat 0b10110 5 (CHR ''}'')]"

definition get_char_pattern :: "u8 \<Rightarrow> char_pattern option" where
  "get_char_pattern chr = find (\<lambda>c. cp_character c = chr) char_table"

definition decode_char :: "u8 \<Rightarrow> u8 \<Rightarrow> u8" where
  "decode_char data nr_of_bits =
     (case find (\<lambda>c. cp_data c = ucast data \<and> cp_bits c = nr_of_bits) char_table of
        Some c \<Rightarrow> cp_character c
      | None \<Rightarrow> of_char (CHR ''?''))"

section \<open>Sending a pattern\<close>

text \<open>One element of a pattern of which \<open>bit\<close> bits remain (\<open>1 << (bit - 1)\<close>), and the whole
  pattern, first element first.\<close>

definition element_at :: "u16 \<Rightarrow> nat \<Rightarrow> element" where
  "element_at data k = (if bit data k then El_dah else El_dit)"

definition pattern_elements :: "char_pattern \<Rightarrow> element list" where
  "pattern_elements p = map (element_at (cp_data p)) (rev [0..<unat (cp_bits p)])"

text \<open>The shift register the keyer accumulates what it has sent in; that the \<open>send_element\<close> state of the keyer does exactly
  this with every element is \<open>send_element_enter_shifts\<close> of the properties of the keyer.\<close>

definition shift_in :: "element \<Rightarrow> u8 \<times> u8 \<Rightarrow> u8 \<times> u8" where
  "shift_in e = (\<lambda>(data, bits). (if e = El_dit then push_bit 1 data else push_bit 1 data OR 1, bits + 1))"

section \<open>Properties of the table\<close>

lemma table_bounds:
  "list_all (\<lambda>p. 1 \<le> cp_bits p \<and> cp_bits p \<le> 7 \<and> cp_data p < 2 ^ unat (cp_bits p)) char_table"
  by (simp add: char_table_def pat_def)

lemma table_characters_distinct: "distinct (map cp_character char_table)"
  by (simp add: char_table_def pat_def)

lemma get_char_pattern_in: "get_char_pattern c = Some p \<Longrightarrow> p \<in> set char_table \<and> cp_character p = c"
  by (auto simp: get_char_pattern_def find_Some_iff)

definition decoded :: "char_pattern \<Rightarrow> u8" where
  "decoded p = (case fold shift_in (pattern_elements p) (0, 0) of (d, b) \<Rightarrow> decode_char d b)"

lemma table_roundtrip:
  "list_all (\<lambda>p. decoded p = (if cp_character p = 125 then 40 else cp_character p)) char_table"
  by code_simp

text \<open>(C18) Every character of the table is recognised again from the elements that were sent for
  it, with one exception: the prosign KN, entered as \<open>}\<close>, shares its pattern with \<open>(\<close>
  and is reported as \<open>(\<close>.\<close>

theorem send_then_decode:
  assumes "get_char_pattern c = Some p"
  shows "(case fold shift_in (pattern_elements p) (0, 0) of (d, b) \<Rightarrow> decode_char d b) =
    (if c = of_char (CHR ''}'') then of_char (CHR ''('') else c)"
  using table_roundtrip get_char_pattern_in [OF assms]
  by (auto simp: list_all_iff decoded_def)

theorem send_then_decode_witness:
  "\<exists>p. get_char_pattern (of_char (CHR ''Q'')) = Some p
     \<and> pattern_elements p = [El_dah, El_dah, El_dit, El_dah]
     \<and> (case fold shift_in (pattern_elements p) (0, 0) of (d, b) \<Rightarrow> decode_char d b) = of_char (CHR ''Q'')"
proof -
  have q: "get_char_pattern (of_char (CHR ''Q'')) = Some (pat 0b1101 4 (CHR ''Q''))"
    by (simp add: get_char_pattern_def char_table_def pat_def)
  have "pattern_elements (pat 0b1101 4 (CHR ''Q'')) = [El_dah, El_dah, El_dit, El_dah]"
    by code_simp
  with q send_then_decode [OF q] show ?thesis by simp
qed

end
