(* ===== verification/Circular_Buffer.thy ===== *)
theory Circular_Buffer
  imports Prelude
begin

text \<open>
  \<open>src/circular_buffer.h\<close>: the ring buffer behind the keyer's input queue and the thresholded
  stream built on it. The storage is a list of \<open>cb_max\<close> cells; \<open>T()\<close> is \<open>0\<close>, the value
  C++ gives to every arithmetic \<open>T\<close>. \<open>size_t\<close> is \<open>nat\<close>: the indices stay below
  \<open>cb_max\<close> and the one sum, \<open>cb_max + cb_head\<close>, is below twice that, so nothing
  wraps for any size that can be allocated.
\<close>

section \<open>The ring buffer\<close>

record 'a circular_buffer =
  cb_buf :: "'a list"
  cb_head :: nat
  cb_tail :: nat
  cb_max :: nat
  cb_is_full :: bool

text \<open>\<open>new T[size]\<close> leaves the cells indeterminate: the constructor takes them.\<close>

definition circular_buffer_new :: "'a list \<Rightarrow> 'a circular_buffer" where
  "circular_buffer_new cells =
     \<lparr>cb_buf = cells, cb_head = 0, cb_tail = 0, cb_max = length cells, cb_is_full = False\<rparr>"

definition cb_put :: "'a \<Rightarrow> 'a circular_buffer \<Rightarrow> 'a circular_buffer" where
  "cb_put item b =
     (let b1 = b\<lparr>cb_buf := (cb_buf b)[cb_head b := item]\<rparr>;
          b2 = (if cb_is_full b1 then b1\<lparr>cb_tail := (cb_tail b1 + 1) mod cb_max b1\<rparr> else b1);
          b3 = b2\<lparr>cb_head := (cb_head b2 + 1) mod cb_max b2\<rparr>
      in b3\<lparr>cb_is_full := (cb_head b3 = cb_tail b3)\<rparr>)"

definition cb_empty :: "'a circular_buffer \<Rightarrow> bool" where
  "cb_empty b \<longleftrightarrow> \<not> cb_is_full b \<and> cb_head b = cb_tail b"

definition cb_get :: "'a::zero circular_buffer \<Rightarrow> 'a \<times> 'a circular_buffer" where
  "cb_get b =
     (if cb_empty b then (0, b)
      else (cb_buf b ! cb_tail b,
            b\<lparr>cb_is_full := False, cb_tail := (cb_tail b + 1) mod cb_max b\<rparr>))"

definition cb_peek :: "'a::zero circular_buffer \<Rightarrow> 'a" where
  "cb_peek b = (if cb_empty b then 0 else cb_buf b ! cb_tail b)"

definition cb_reset :: "'a circular_buffer \<Rightarrow> 'a circular_buffer" where
  "cb_reset b = b\<lparr>cb_head := cb_tail b, cb_is_full := False\<rparr>"

definition cb_full :: "'a circular_buffer \<Rightarrow> bool" where
  "cb_full b = cb_is_full b"

definition cb_capacity :: "'a circular_buffer \<Rightarrow> nat" where
  "cb_capacity b = cb_max b"

definition cb_size :: "'a circular_buffer \<Rightarrow> nat" where
  "cb_size b =
     (if cb_is_full b then cb_max b
      else if cb_head b \<ge> cb_tail b then cb_head b - cb_tail b
      else cb_max b + cb_head b - cb_tail b)"

section \<open>Abstraction: the bounded queue\<close>

definition cb_inv :: "'a circular_buffer \<Rightarrow> bool" where
  "cb_inv b \<longleftrightarrow> 0 < cb_max b \<and> length (cb_buf b) = cb_max b
     \<and> cb_head b < cb_max b \<and> cb_tail b < cb_max b \<and> (cb_is_full b \<longrightarrow> cb_head b = cb_tail b)"

definition cb_list :: "'a circular_buffer \<Rightarrow> 'a list" where
  "cb_list b = map (\<lambda>i. cb_buf b ! ((cb_tail b + i) mod cb_max b)) [0..<cb_size b]"

lemma length_cb_list [simp]: "length (cb_list b) = cb_size b"
  by (simp add: cb_list_def)

lemma cb_size_le: "cb_inv b \<Longrightarrow> cb_size b \<le> cb_max b"
  by (auto simp: cb_inv_def cb_size_def)

lemma cb_size_full_iff: "cb_inv b \<Longrightarrow> cb_size b = cb_max b \<longleftrightarrow> cb_is_full b"
  by (auto simp: cb_inv_def cb_size_def)

lemma cb_empty_iff: "cb_inv b \<Longrightarrow> cb_empty b \<longleftrightarrow> cb_list b = []"
  by (auto simp: cb_inv_def cb_empty_def cb_list_def cb_size_def)

text \<open>The head is the cell after the last element: the cell \<open>put\<close> writes.\<close>

lemma head_is_end: "cb_inv b \<Longrightarrow> (cb_tail b + cb_size b) mod cb_max b = cb_head b"
  by (auto simp: cb_inv_def cb_size_def mod_if)

lemma cb_inv_new [inv_intros]: "cells \<noteq> [] \<Longrightarrow> cb_inv (circular_buffer_new cells)"
  by (simp add: cb_inv_def circular_buffer_new_def)

lemma cb_inv_put [inv_intros]: "cb_inv b \<Longrightarrow> cb_inv (cb_put x b)"
  by (auto simp: cb_inv_def cb_put_def Let_def)

lemma cb_inv_get [inv_intros]: "cb_inv b \<Longrightarrow> cb_inv (snd (cb_get b))"
  by (auto simp: cb_inv_def cb_get_def)

lemma cb_inv_reset [inv_intros]: "cb_inv b \<Longrightarrow> cb_inv (cb_reset b)"
  by (auto simp: cb_inv_def cb_reset_def)

lemma cb_list_new: "cb_list (circular_buffer_new cells) = []"
  by (simp add: cb_list_def cb_size_def circular_buffer_new_def)

lemma cb_list_reset: "cb_list (cb_reset b) = []"
  by (simp add: cb_list_def cb_size_def cb_reset_def)

lemma cb_put_fields:
  "cb_buf (cb_put x b) = (cb_buf b)[cb_head b := x]"
  "cb_tail (cb_put x b) = (if cb_is_full b then (cb_tail b + 1) mod cb_max b else cb_tail b)"
  "cb_head (cb_put x b) = (cb_head b + 1) mod cb_max b"
  "cb_max (cb_put x b) = cb_max b"
  "cb_is_full (cb_put x b) \<longleftrightarrow> cb_head (cb_put x b) = cb_tail (cb_put x b)"
  by (simp_all add: cb_put_def Let_def)

lemma cb_size_put:
  "cb_inv b \<Longrightarrow> cb_size (cb_put x b) = (if cb_is_full b then cb_max b else Suc (cb_size b))"
  unfolding cb_size_def cb_put_fields cb_inv_def by (auto simp: mod_if)

lemma cb_list_nth:
  "i < cb_size b \<Longrightarrow> cb_list b ! i = cb_buf b ! ((cb_tail b + i) mod cb_max b)"
  by (simp add: cb_list_def)

lemma cb_put_nth:
  assumes "cb_inv b" "k < cb_max b"
  shows "cb_buf (cb_put x b) ! ((cb_tail b + k) mod cb_max b) =
    (if k = cb_size b mod cb_max b then x else cb_buf b ! ((cb_tail b + k) mod cb_max b))"
proof -
  have "(cb_tail b + k) mod cb_max b = cb_head b \<longleftrightarrow> k = cb_size b mod cb_max b"
    using assms ring_index_eq_iff [of "cb_tail b" "cb_max b" k "cb_size b mod cb_max b"]
      head_is_end [OF assms(1)] by (simp add: cb_inv_def mod_add_right_eq)
  then show ?thesis
    using assms by (cases "(cb_tail b + k) mod cb_max b = cb_head b")
      (auto simp: cb_put_fields cb_inv_def)
qed

lemma cb_list_put_full:
  assumes "cb_inv b" "cb_is_full b"
  shows "cb_list (cb_put x b) = tl (cb_list b) @ [x]"
proof (rule nth_equalityI)
  have size: "cb_size b = cb_max b" using assms by (simp add: cb_size_full_iff)
  have pos: "0 < cb_max b" using assms by (simp add: cb_inv_def)
  show "length (cb_list (cb_put x b)) = length (tl (cb_list b) @ [x])"
    using assms pos size by (simp add: cb_size_put)
  fix i
  assume "i < length (cb_list (cb_put x b))"
  then have i: "i < cb_max b" using assms by (simp add: cb_size_put)
  have "cb_list (cb_put x b) ! i =
      cb_buf (cb_put x b) ! ((cb_tail b + (Suc i mod cb_max b)) mod cb_max b)"
    using i assms by (simp add: cb_list_nth cb_size_put cb_put_fields mod_simps)
  also have "\<dots> = (if Suc i = cb_max b then x else cb_buf b ! ((cb_tail b + Suc i) mod cb_max b))"
    using cb_put_nth [OF assms(1), of "Suc i mod cb_max b"] i pos size
    by (cases "Suc i = cb_max b") (auto simp: cb_put_fields)
  also have "\<dots> = (tl (cb_list b) @ [x]) ! i"
    using i size by (auto simp: nth_append nth_tl cb_list_nth)
  finally show "cb_list (cb_put x b) ! i = (tl (cb_list b) @ [x]) ! i" .
qed

lemma cb_list_put_free:
  assumes "cb_inv b" "\<not> cb_is_full b"
  shows "cb_list (cb_put x b) = cb_list b @ [x]"
proof (rule nth_equalityI)
  have size: "cb_size b < cb_max b"
    using assms cb_size_le [of b] cb_size_full_iff [of b] by simp
  show "length (cb_list (cb_put x b)) = length (cb_list b @ [x])"
    using assms by (simp add: cb_size_put)
  fix i
  assume "i < length (cb_list (cb_put x b))"
  then have i: "i \<le> cb_size b" using assms by (simp add: cb_size_put)
  have "cb_list (cb_put x b) ! i = cb_buf (cb_put x b) ! ((cb_tail b + i) mod cb_max b)"
    using i assms by (simp add: cb_list_nth cb_size_put) (simp add: cb_put_fields)
  also have "\<dots> = (cb_list b @ [x]) ! i"
    using cb_put_nth [OF assms(1), of i] i size by (auto simp: nth_append cb_list_nth)
  finally show "cb_list (cb_put x b) ! i = (cb_list b @ [x]) ! i" .
qed

lemma cb_list_put:
  "cb_inv b \<Longrightarrow> cb_list (cb_put x b) =
    (if length (cb_list b) = cb_max b then tl (cb_list b) else cb_list b) @ [x]"
  by (simp add: cb_list_put_full cb_list_put_free cb_size_full_iff)

lemma cb_max_kept:
  "cb_max (cb_put x b) = cb_max b" "cb_max (snd (cb_get c)) = cb_max c"
  "cb_inv d \<Longrightarrow> 0 < cb_max d"
  by (simp_all add: cb_put_fields cb_get_def cb_inv_def)

lemma cb_get_value: "cb_inv b \<Longrightarrow> fst (cb_get b) = (case cb_list b of [] \<Rightarrow> 0 | y # _ \<Rightarrow> y)"
  by (auto simp: cb_get_def cb_empty_iff cb_inv_def cb_list_def upt_conv_Cons
      split: list.splits)

lemma cb_peek_value: "cb_inv b \<Longrightarrow> cb_peek b = (case cb_list b of [] \<Rightarrow> 0 | y # _ \<Rightarrow> y)"
  by (simp add: cb_peek_def cb_get_value [symmetric]) (simp add: cb_get_def)

lemma cb_list_get:
  assumes "cb_inv b"
  shows "cb_list (snd (cb_get b)) = tl (cb_list b)"
proof (cases "cb_empty b")
  case True
  with assms show ?thesis by (simp add: cb_get_def cb_empty_iff)
next
  case False
  have size: "cb_size (snd (cb_get b)) = cb_size b - 1"
    using assms False by (auto simp: cb_get_def cb_inv_def cb_size_def cb_empty_def mod_if)
  show ?thesis
    using assms False
    by (simp add: cb_list_def size map_upt_Suc_tl)
      (auto simp: cb_get_def cb_inv_def mod_simps)
qed

section \<open>The interface its clients rely on\<close>

text \<open>A queue that holds at most \<open>cap\<close> elements and drops the oldest when a full one is
  written. The clients' facts are proved from these laws alone.\<close>

locale overwriting_queue =
  fixes enq :: "'a::zero \<Rightarrow> 'q \<Rightarrow> 'q"
    and deq :: "'q \<Rightarrow> 'a \<times> 'q"
    and clear :: "'q \<Rightarrow> 'q"
    and content :: "'q \<Rightarrow> 'a list"
    and cap :: "'q \<Rightarrow> nat"
    and invar :: "'q \<Rightarrow> bool"
  assumes content_enq: "invar q \<Longrightarrow> content (enq x q) =
      (if length (content q) = cap q then tl (content q) else content q) @ [x]"
    and deq_value: "invar q \<Longrightarrow> fst (deq q) = (case content q of [] \<Rightarrow> 0 | y # _ \<Rightarrow> y)"
    and content_deq: "invar q \<Longrightarrow> content (snd (deq q)) = tl (content q)"
    and content_clear: "invar q \<Longrightarrow> content (clear q) = []"
    and content_bound: "invar q \<Longrightarrow> length (content q) \<le> cap q"
    and cap_pos: "invar q \<Longrightarrow> 0 < cap q"
    and cap_enq: "invar q \<Longrightarrow> cap (enq x q) = cap q"
    and cap_deq: "invar q \<Longrightarrow> cap (snd (deq q)) = cap q"
    and invar_enq: "invar q \<Longrightarrow> invar (enq x q)"
    and invar_deq: "invar q \<Longrightarrow> invar (snd (deq q))"
    and invar_clear: "invar q \<Longrightarrow> invar (clear q)"
begin

primrec deq_all :: "nat \<Rightarrow> 'q \<Rightarrow> 'a list" where
  "deq_all 0 q = []"
| "deq_all (Suc n) q = fst (deq q) # deq_all n (snd (deq q))"

lemma fold_enq:
  assumes "invar q"
  shows "content (fold enq xs q) =
      drop (length (content q) + length xs - cap q) (content q @ xs)
    \<and> cap (fold enq xs q) = cap q \<and> invar (fold enq xs q)"
  using assms
proof (induction xs arbitrary: q)
  case Nil
  then show ?case using content_bound [OF Nil] by simp
next
  case (Cons x xs)
  have q': "invar (enq x q)" "cap (enq x q) = cap q"
    using Cons.prems by (simp_all add: invar_enq cap_enq)
  have "content (fold enq xs (enq x q)) =
      drop (length (content (enq x q)) + length xs - cap q) (content (enq x q) @ xs)"
    using Cons.IH [OF q'(1)] q'(2) by simp
  moreover have "\<dots> = drop (length (content q) + length (x # xs) - cap q) (content q @ x # xs)"
    using content_bound [OF Cons.prems] cap_pos [OF Cons.prems]
    by (cases "content q") (auto simp: content_enq [OF Cons.prems] Suc_diff_le drop_Cons')
  ultimately show ?case using Cons.IH [OF q'(1)] q'(2) by simp
qed

lemma deq_all_content:
  "invar q \<Longrightarrow> n \<le> length (content q) \<Longrightarrow> deq_all n q = take n (content q)"
proof (induction n arbitrary: q)
  case 0
  then show ?case by simp
next
  case (Suc n)
  then obtain y ys where "content q = y # ys" by (cases "content q") auto
  with Suc show ?case by (simp add: deq_value content_deq invar_deq)
qed

lemma fifo:
  assumes "invar q" "length (content q) + length xs \<le> cap q"
  shows "deq_all (length (content q) + length xs) (fold enq xs q) = content q @ xs"
  using fold_enq [OF assms(1), of xs] deq_all_content [of "fold enq xs q"] assms(2) by simp

end

interpretation cb: overwriting_queue cb_put cb_get cb_reset cb_list cb_capacity cb_inv
  by unfold_locales
    (simp_all add: cb_list_put cb_get_value cb_list_get cb_list_reset cb_size_le
      cb_capacity_def cb_max_kept inv_intros)

text \<open>
  (C19) Whatever is put into the ring, it holds the most recent elements in the order they came: the
  old content followed by the new elements, less its first elements in excess of the capacity.
  So a ring that does not fill up loses nothing, and one that does loses the oldest.
\<close>

theorem buffer_keeps_latest:
  fixes b :: "'a::zero circular_buffer"
  assumes "cb_inv b"
  shows "cb_list (fold cb_put xs b) =
           drop (length (cb_list b) + length xs - cb_capacity b) (cb_list b @ xs)
         \<and> cb_inv (fold cb_put xs b)"
  using cb.fold_enq [OF assms] by blast

theorem buffer_keeps_latest_witness:
  "cb_inv (circular_buffer_new [0, 0, 0 :: u8])
   \<and> cb_list (fold cb_put [1, 2, 3, 4, 5] (circular_buffer_new [0, 0, 0 :: u8])) = [3, 4, 5]"
proof -
  have i: "cb_inv (circular_buffer_new [0, 0, 0 :: u8])" by (simp add: cb_inv_new)
  show ?thesis
    using i buffer_keeps_latest [OF i, of "[1, 2, 3, 4, 5]"]
    by (simp add: cb_list_new cb_capacity_def) (simp add: circular_buffer_new_def)
qed

section \<open>The thresholded stream\<close>

record 'a buffered_stream =
  bs_stream :: "'a circular_buffer"
  bs_read_threshold :: nat
  bs_read_threshold_reached :: bool

definition buffered_stream_new :: "'a list \<Rightarrow> nat \<Rightarrow> 'a buffered_stream" where
  "buffered_stream_new cells threshold =
     \<lparr>bs_stream = circular_buffer_new cells, bs_read_threshold = threshold,
      bs_read_threshold_reached = False\<rparr>"

definition bs_put :: "'a \<Rightarrow> 'a buffered_stream \<Rightarrow> 'a buffered_stream" where
  "bs_put x s =
     (let s1 = s\<lparr>bs_stream := cb_put x (bs_stream s)\<rparr>
      in if \<not> bs_read_threshold_reached s1 \<and> cb_size (bs_stream s1) > bs_read_threshold s1
         then s1\<lparr>bs_read_threshold_reached := True\<rparr> else s1)"

definition bs_get :: "'a::zero buffered_stream \<Rightarrow> 'a \<times> 'a buffered_stream" where
  "bs_get s =
     (let (res, st) = cb_get (bs_stream s); s1 = s\<lparr>bs_stream := st\<rparr>
      in (res, if cb_empty (bs_stream s1) then s1\<lparr>bs_read_threshold_reached := False\<rparr> else s1))"

definition bs_size :: "'a buffered_stream \<Rightarrow> nat" where
  "bs_size s = cb_size (bs_stream s)"

definition bs_can_read :: "'a buffered_stream \<Rightarrow> bool" where
  "bs_can_read s \<longleftrightarrow> bs_read_threshold_reached s \<and> \<not> cb_empty (bs_stream s)"

definition bs_inv :: "'a buffered_stream \<Rightarrow> bool" where
  "bs_inv s \<longleftrightarrow> cb_inv (bs_stream s)
     \<and> (bs_read_threshold_reached s \<longrightarrow> \<not> cb_empty (bs_stream s))
     \<and> (bs_read_threshold s < cb_size (bs_stream s) \<longrightarrow> bs_read_threshold_reached s)"

lemma bs_inv_new: "cells \<noteq> [] \<Longrightarrow> bs_inv (buffered_stream_new cells n)"
  by (simp add: bs_inv_def buffered_stream_new_def cb_inv_new)
    (simp add: circular_buffer_new_def cb_size_def)

lemma cb_put_not_empty: "cb_inv b \<Longrightarrow> \<not> cb_empty (cb_put x b)"
  using cb_list_put [of b x] by (simp add: cb_empty_iff cb_inv_put)

lemma bs_inv_put: "bs_inv s \<Longrightarrow> bs_inv (bs_put x s)"
  by (auto simp: bs_inv_def bs_put_def Let_def cb_inv_put cb_put_not_empty)

lemma cb_size_get_le: "cb_inv b \<Longrightarrow> cb_size (snd (cb_get b)) \<le> cb_size b"
  using arg_cong [OF cb_list_get, of b length] by simp

lemma bs_inv_get: "bs_inv s \<Longrightarrow> bs_inv (snd (bs_get s))"
  using cb_size_get_le [of "bs_stream s"] cb_inv_get [of "bs_stream s"]
  by (auto simp: bs_inv_def bs_get_def Let_def split_beta cb_empty_def cb_size_def)

end
