(* ===== verification/Keyer_Data.thy ===== *)
theory Keyer_Data
  imports Morse Char_Patterns Circular_Buffer "HOL-Library.Monad_Syntax"
begin

text \<open>
  The data of the keyer (\<open>src/keyer/keyer.h\<close>): \<open>keyer_internal_state\<close>, the profiles, the variables
  of the static state objects, and the hardware interface. The hardware is an environment the
  operations read (one clock reading per \<open>current_ms\<close> call, one paddle sample per
  \<open>is_paddle_pressed\<close> call) and a trace of the callbacks they make. An operation that reaches
  undefined behaviour of C++ (an index out of its array, a \<open>float\<close> that does not fit the integer it
  is converted to) has no result, \<open>None\<close>.
\<close>

section \<open>Types\<close>

datatype paddle_side = Side_left | Side_right

datatype paddle_state = Paddle_none | Paddle_dit | Paddle_dah | Paddle_both

datatype mode_type = Mode_straight | Mode_iambic_a | Mode_iambic_b | Mode_tune

datatype state_type =
    St_idle | St_send_element | St_key_down | St_tune | St_inter_element_space
  | St_inter_word_space | St_play | St_autospace | St_winkeyer | St_half_dot_gap

fun get_state_name :: "state_type \<Rightarrow> string" where
  "get_state_name St_idle = ''idle''"
| "get_state_name St_send_element = ''send_element''"
| "get_state_name St_key_down = ''key_down''"
| "get_state_name St_tune = ''tune''"
| "get_state_name St_inter_element_space = ''inter_element_space''"
| "get_state_name St_inter_word_space = ''inter_word_space''"
| "get_state_name St_play = ''play''"
| "get_state_name St_autospace = ''autospace''"
| "get_state_name St_winkeyer = ''winkeyer''"
| "get_state_name St_half_dot_gap = ''half_dot_gap''"

record sidetone_settings =
  frequency :: u16
  wave_type :: u8
  level :: u8
  ramp_up_ms :: u8
  ramp_down_ms :: u8

record ptt_settings =
  lead_ms :: flt
  tail_ms :: flt
  hang_type :: u8
  reserved :: "u8 list"

record profile =
  style :: code_style
  timings :: code_timings
  sidetone :: sidetone_settings
  ptt :: ptt_settings

definition profile_default :: profile where
  "profile_default =
     \<lparr>style = code_style_default, timings = code_timings_zero,
      sidetone = \<lparr>frequency = 500, wave_type = 0, level = 70, ramp_up_ms = 3, ramp_down_ms = 3\<rparr>,
      ptt = \<lparr>lead_ms = Fin 0, tail_ms = Fin 0, hang_type = 0, reserved = [0, 0, 0]\<rparr>\<rparr>"

record keyer_internal_state =
  current_state :: "state_type option"
  mode :: mode_type
  paddles :: paddle_state
  sent_element :: element
  dit_buffered :: bool
  dah_buffered :: bool
  sent_char_data :: u8
  sent_char_bits :: u8
  is_recording :: bool
  recording_slot :: u8
  recording_index :: u16
  is_playing :: bool
  playing_slot :: u8
  memory :: "u8 list list"
  playing_char_index :: u16
  playing_data :: u16
  playing_bit :: u8
  winkeyer_buffer :: "u8 circular_buffer"
  winkeyer_enabled :: bool
  winkeyer_pending_command :: u8
  winkeyer_waiting_for_arguments :: u8
  winkeyer_arguments :: "u8 list"
  winkeyer_argument_index :: u8
  winkeyer_speed_wpm :: flt
  last_send_time :: u32
  winkeyer_remaining_buffered_arguments :: u8

definition MemorySlots :: nat where "MemorySlots = 4"

definition MemorySlotSize :: nat where "MemorySlotSize = 256"

text \<open>The object \<open>data\<close> has static storage: everything not initialised is zero.\<close>

definition keyer_internal_state_zero :: keyer_internal_state where
  "keyer_internal_state_zero =
     \<lparr>current_state = None, mode = Mode_straight, paddles = Paddle_none, sent_element = El_none,
      dit_buffered = False, dah_buffered = False, sent_char_data = 0, sent_char_bits = 0,
      is_recording = False, recording_slot = 0, recording_index = 0, is_playing = False,
      playing_slot = 0, memory = replicate MemorySlots (replicate MemorySlotSize 0),
      playing_char_index = 0, playing_data = 0, playing_bit = 0,
      winkeyer_buffer = circular_buffer_new (replicate 160 0), winkeyer_enabled = False,
      winkeyer_pending_command = 0, winkeyer_waiting_for_arguments = 0,
      winkeyer_arguments = replicate 15 0, winkeyer_argument_index = 0,
      winkeyer_speed_wpm = Fin 0, last_send_time = 0, winkeyer_remaining_buffered_arguments = 0\<rparr>"

section \<open>Hardware\<close>

text \<open>The callbacks of \<open>hw_interface\<close>.\<close>

datatype hw_event =
    Tone_on u16 | Tone_off | Dit_on | Dit_off | Dah_on | Dah_off | Key_down | Key_up
  | Char_sent u8 | Play_started u8 | Play_stopped | Record_started u8 | Record_stopped
  | Parameters_changed

text \<open>What the hardware answers: the \<open>n\<close>-th clock reading and the \<open>n\<close>-th paddle sample.\<close>

record hw_env =
  clk :: "nat \<Rightarrow> u32"
  pressed :: "nat \<Rightarrow> paddle_side \<Rightarrow> bool"

text \<open>All variables of \<open>namespace keyer\<close>: \<open>data\<close>, the profiles, the deadlines kept in the static
  state objects and their files, the two \<open>inter_char_space_played\<close> flags, the function-static
  \<open>arguments\<close> array; then the trace and the number of readings taken from the hardware.\<close>

record keyer =
  data :: keyer_internal_state
  profiles :: "profile list"
  current_profile :: u8
  send_time_to_exit :: u32
  time_to_check_paddles :: u32
  element_space_time_to_exit :: u32
  word_space_time_to_exit :: u32
  autospace_time_to_exit :: u32
  half_dot_gap_time_to_exit :: u32
  time_for_word_space :: u32
  time_to_decode :: u32
  play_inter_char_space_played :: bool
  wk_inter_char_space_played :: bool
  wk_arguments :: "u8 list"
  trace :: "hw_event list"
  reads :: nat
  polls :: nat

definition keyer_zero :: keyer where
  "keyer_zero =
     \<lparr>data = keyer_internal_state_zero, profiles = replicate 3 profile_default,
      current_profile = 0, send_time_to_exit = 0, time_to_check_paddles = 0,
      element_space_time_to_exit = 0, word_space_time_to_exit = 0, autospace_time_to_exit = 0,
      half_dot_gap_time_to_exit = 0, time_for_word_space = 0, time_to_decode = 0,
      play_inter_char_space_played = True, wk_inter_char_space_played = True,
      wk_arguments = replicate 15 0, trace = [], reads = 0, polls = 0\<rparr>"

definition emit :: "hw_event \<Rightarrow> keyer \<Rightarrow> keyer" where
  "emit e k = k\<lparr>trace := trace k @ [e]\<rparr>"

definition current_ms :: "hw_env \<Rightarrow> keyer \<Rightarrow> u32 \<times> keyer" where
  "current_ms E k = (clk E (reads k), k\<lparr>reads := reads k + 1\<rparr>)"

definition is_paddle_pressed :: "hw_env \<Rightarrow> paddle_side \<Rightarrow> keyer \<Rightarrow> bool \<times> keyer" where
  "is_paddle_pressed E side k = (pressed E (polls k) side, k\<lparr>polls := polls k + 1\<rparr>)"

end
