(* ===== verification/Keyer_Profile.thy ===== *)
theory Keyer_Profile
  imports Keyer_Data
begin

text \<open>
  The operations of \<open>src/keyer/keyer.cpp\<close> below the state machine: profiles and their setters,
  the paddles, the lengths of elements and spaces, and the message memories.
\<close>

section \<open>Profiles\<close>

definition get_current_profile :: "keyer \<Rightarrow> profile option" where
  "get_current_profile k =
     (if unat (current_profile k) < length (profiles k)
      then Some (profiles k ! unat (current_profile k)) else None)"

definition modify_profile :: "(profile \<Rightarrow> profile) \<Rightarrow> keyer \<Rightarrow> keyer option" where
  "modify_profile f k =
     do { p \<leftarrow> get_current_profile k;
          Some (k\<lparr>profiles := (profiles k)[unat (current_profile k) := f p]\<rparr>) }"

text \<open>\<open>timings = style.calculate_timings()\<close>.\<close>

definition update_timings :: "profile \<Rightarrow> profile" where
  "update_timings p =
     (case calculate_timings (style p) of (s, t) \<Rightarrow> p\<lparr>style := s, timings := t\<rparr>)"

definition profile_set_speed :: "flt \<Rightarrow> profile \<Rightarrow> profile" where
  "profile_set_speed wpm p =
     update_timings (p\<lparr>style := (style p)\<lparr>character_wpm := wpm, farnsworth_wpm := wpm\<rparr>\<rparr>)"

definition profile_set_dah_dit_ratio :: "flt \<Rightarrow> profile \<Rightarrow> profile" where
  "profile_set_dah_dit_ratio ratio p =
     update_timings (p\<lparr>style := (style p)\<lparr>dah_dit_ratio := ratio\<rparr>\<rparr>)"

definition profile_set_weighting :: "u8 \<Rightarrow> profile \<Rightarrow> profile" where
  "profile_set_weighting w p =
     update_timings (p\<lparr>style := (style p)\<lparr>weighting := f32_of_int (uint w)\<rparr>\<rparr>)"

definition profile_set_letterspace :: "u8 \<Rightarrow> profile \<Rightarrow> profile" where
  "profile_set_letterspace percent p =
     update_timings (p\<lparr>style := (style p)\<lparr>extra_letterspace_percent := f32_of_int (uint percent)\<rparr>\<rparr>)"

definition profile_set_keying_compensation :: "u8 \<Rightarrow> profile \<Rightarrow> profile" where
  "profile_set_keying_compensation ms p =
     update_timings (p\<lparr>style := (style p)\<lparr>keying_compensation_ms := f32_of_int (uint ms)\<rparr>\<rparr>)"

definition profile_get_speed :: "profile \<Rightarrow> flt" where
  "profile_get_speed p = character_wpm (style p)"

definition set_profile :: "u8 \<Rightarrow> keyer \<Rightarrow> keyer option" where
  "set_profile n k0 =
     do { k \<leftarrow> modify_profile update_timings (k0\<lparr>current_profile := n\<rparr>);
          p \<leftarrow> get_current_profile k;
          Some (data_update (winkeyer_speed_wpm_update (\<lambda>_. profile_get_speed p)) k) }"

definition next_profile :: "keyer \<Rightarrow> keyer option" where
  "next_profile k = set_profile ((current_profile k + 1) AND 1) k"

definition get_current_profile_id :: "keyer \<Rightarrow> u8" where
  "get_current_profile_id k = current_profile k"

section \<open>Setters\<close>

definition set_speed :: "flt \<Rightarrow> keyer \<Rightarrow> keyer option" where
  "set_speed wpm = modify_profile (profile_set_speed wpm)"

definition set_frequency :: "u16 \<Rightarrow> keyer \<Rightarrow> keyer option" where
  "set_frequency hz = modify_profile (sidetone_update (frequency_update (\<lambda>_. hz)))"

definition set_sidetone_wavetype :: "u8 \<Rightarrow> keyer \<Rightarrow> keyer option" where
  "set_sidetone_wavetype t = modify_profile (sidetone_update (wave_type_update (\<lambda>_. t)))"

definition set_sidetone_level :: "u8 \<Rightarrow> keyer \<Rightarrow> keyer option" where
  "set_sidetone_level l = modify_profile (sidetone_update (level_update (\<lambda>_. l)))"

definition set_sidetone_ramp_up_ms :: "u8 \<Rightarrow> keyer \<Rightarrow> keyer option" where
  "set_sidetone_ramp_up_ms ms = modify_profile (sidetone_update (ramp_up_ms_update (\<lambda>_. ms)))"

definition set_sidetone_ramp_down_ms :: "u8 \<Rightarrow> keyer \<Rightarrow> keyer option" where
  "set_sidetone_ramp_down_ms ms = modify_profile (sidetone_update (ramp_down_ms_update (\<lambda>_. ms)))"

definition set_weighting :: "u8 \<Rightarrow> keyer \<Rightarrow> keyer option" where
  "set_weighting w = modify_profile (profile_set_weighting w)"

definition set_dah_dit_ratio :: "flt \<Rightarrow> keyer \<Rightarrow> keyer option" where
  "set_dah_dit_ratio r = modify_profile (profile_set_dah_dit_ratio r)"

definition set_autospace :: "bool \<Rightarrow> keyer \<Rightarrow> keyer option" where
  "set_autospace enable = modify_profile (style_update (autospace_enabled_update (\<lambda>_. enable)))"

definition set_letterspace :: "u8 \<Rightarrow> keyer \<Rightarrow> keyer option" where
  "set_letterspace percent = modify_profile (profile_set_letterspace percent)"

definition set_keying_compensation :: "u8 \<Rightarrow> keyer \<Rightarrow> keyer option" where
  "set_keying_compensation ms = modify_profile (profile_set_keying_compensation ms)"

definition set_speed_low :: "flt \<Rightarrow> keyer \<Rightarrow> keyer option" where
  "set_speed_low wpm =
     modify_profile (\<lambda>p. update_timings (style_update (speed_low_update (\<lambda>_. wpm)) p))"

definition set_speed_high :: "flt \<Rightarrow> keyer \<Rightarrow> keyer option" where
  "set_speed_high wpm =
     modify_profile (\<lambda>p. update_timings (style_update (speed_high_update (\<lambda>_. wpm)) p))"

definition set_dah_dit_ratio_hi :: "flt \<Rightarrow> keyer \<Rightarrow> keyer option" where
  "set_dah_dit_ratio_hi r =
     modify_profile (\<lambda>p. update_timings (style_update (dah_dit_ratio_high_update (\<lambda>_. r)) p))"

definition set_dah_dit_ratio_lo :: "flt \<Rightarrow> keyer \<Rightarrow> keyer option" where
  "set_dah_dit_ratio_lo r =
     modify_profile (\<lambda>p. update_timings (style_update (dah_dit_ratio_low_update (\<lambda>_. r)) p))"

definition set_weighting_lo :: "u8 \<Rightarrow> keyer \<Rightarrow> keyer option" where
  "set_weighting_lo w =
     modify_profile (\<lambda>p. update_timings (style_update (weighting_low_update (\<lambda>_. f32_of_int (uint w))) p))"

definition set_weighting_hi :: "u8 \<Rightarrow> keyer \<Rightarrow> keyer option" where
  "set_weighting_hi w =
     modify_profile (\<lambda>p. update_timings (style_update (weighting_high_update (\<lambda>_. f32_of_int (uint w))) p))"

definition set_letterspace_lo :: "u8 \<Rightarrow> keyer \<Rightarrow> keyer option" where
  "set_letterspace_lo percent =
     modify_profile (\<lambda>p. update_timings
       (style_update (extra_letterspace_percent_low_update (\<lambda>_. f32_of_int (uint percent))) p))"

definition set_letterspace_hi :: "u8 \<Rightarrow> keyer \<Rightarrow> keyer option" where
  "set_letterspace_hi percent =
     modify_profile (\<lambda>p. update_timings
       (style_update (extra_letterspace_percent_high_update (\<lambda>_. f32_of_int (uint percent))) p))"

definition get_speed :: "keyer \<Rightarrow> flt option" where
  "get_speed k = do { p \<leftarrow> get_current_profile k; Some (character_wpm (style p)) }"

section \<open>Paddles and key\<close>

definition check_dit_paddle :: "hw_env \<Rightarrow> keyer \<Rightarrow> keyer" where
  "check_dit_paddle E k0 =
     (case is_paddle_pressed E Side_left k0 of
        (b, k) \<Rightarrow> if b then data_update (dit_buffered_update (\<lambda>_. True)) k else k)"

definition check_dah_paddle :: "hw_env \<Rightarrow> keyer \<Rightarrow> keyer" where
  "check_dah_paddle E k0 =
     (case is_paddle_pressed E Side_right k0 of
        (b, k) \<Rightarrow> if b then data_update (dah_buffered_update (\<lambda>_. True)) k else k)"

fun paddle_state_of :: "bool \<Rightarrow> bool \<Rightarrow> paddle_state" where
  "paddle_state_of False False = Paddle_none"
| "paddle_state_of True False = Paddle_dit"
| "paddle_state_of False True = Paddle_dah"
| "paddle_state_of True True = Paddle_both"

definition poll_paddles :: "hw_env \<Rightarrow> keyer \<Rightarrow> keyer" where
  "poll_paddles E k0 =
     (let k = check_dah_paddle E (check_dit_paddle E k0)
      in data_update (paddles_update
           (\<lambda>_. paddle_state_of (dit_buffered (data k)) (dah_buffered (data k)))) k)"

definition set_sidetone_and_tx :: "bool \<Rightarrow> keyer \<Rightarrow> keyer option" where
  "set_sidetone_and_tx on k =
     (if on then
        do { p \<leftarrow> get_current_profile k;
             Some (emit Key_down (emit (Tone_on (frequency (sidetone p))) k)) }
      else Some (emit Key_up (emit Tone_off k)))"

section \<open>Lengths\<close>

definition element_length_ms :: "element \<Rightarrow> keyer \<Rightarrow> u32 option" where
  "element_length_ms e k =
     do { p \<leftarrow> get_current_profile k;
          to_u32 (if winkeyer_enabled (data k)
                  then (if e = El_dit then div32 (f32_of_int 1200) (winkeyer_speed_wpm (data k))
                        else div32 (mul32 (f32_of_int 1200) (dah_dit_ratio (style p)))
                               (winkeyer_speed_wpm (data k)))
                  else (if e = El_dit then weighted_dit_ms (timings p)
                        else weighted_dah_ms (timings p))) }"

definition weighted_element_length_ms :: "element \<Rightarrow> keyer \<Rightarrow> u32 option" where
  "weighted_element_length_ms e k =
     do { p \<leftarrow> get_current_profile k;
          if winkeyer_enabled (data k)
          then do { n \<leftarrow> element_length_ms e k;
                    to_u32 (div32 (mul32 (f32_of_int (uint n)) (weighting (style p))) (Fin 50)) }
          else to_u32 (if e = El_dit then weighted_dit_ms (timings p)
                       else weighted_dah_ms (timings p)) }"

definition inter_element_space_length_ms :: "keyer \<Rightarrow> u32 option" where
  "inter_element_space_length_ms k =
     do { p \<leftarrow> get_current_profile k;
          if winkeyer_enabled (data k)
          then do { n \<leftarrow> element_length_ms El_dit k;
                    to_u32 (mul32 (f32_of_int (uint n))
                              (div32 (sub32 (f32_of_int 100) (weighting (style p))) (Fin 50))) }
          else to_u32 (weighted_inter_element_space_ms (timings p)) }"

definition inter_word_space_length_ms :: "keyer \<Rightarrow> u32 option" where
  "inter_word_space_length_ms k =
     do { p \<leftarrow> get_current_profile k;
          if winkeyer_enabled (data k)
          then do { n \<leftarrow> element_length_ms El_dit k;
                    Some (n * ucast (impulses_between_words (style p))) }
          else to_u32 (space_between_words_ms (timings p)) }"

section \<open>Memories\<close>

text \<open>A store into \<open>data.memory[slot][i]\<close> and a load from it.\<close>

definition memory_store :: "nat \<Rightarrow> nat \<Rightarrow> u8 \<Rightarrow> keyer \<Rightarrow> keyer option" where
  "memory_store slot i c k =
     (if slot < MemorySlots \<and> i < MemorySlotSize
      then Some (data_update (memory_update (\<lambda>m. m[slot := (m ! slot)[i := c]])) k) else None)"

definition memory_load :: "nat \<Rightarrow> nat \<Rightarrow> keyer \<Rightarrow> u8 option" where
  "memory_load slot i k =
     (if slot < MemorySlots \<and> i < MemorySlotSize then Some (memory (data k) ! slot ! i) else None)"

definition persist_memories :: bool where "persist_memories = True"

definition stop_recording :: "keyer \<Rightarrow> keyer option" where
  "stop_recording k0 =
     (let slot = unat (recording_slot (data k0)); i = unat (recording_index (data k0))
      in do { k \<leftarrow> memory_store slot i 0 k0;
              c \<leftarrow> (if i = 0 then None else memory_load slot (i - 1) k);
              k \<leftarrow> (if c = of_char (CHR '' '') then memory_store slot (i - 1) 0 k else Some k);
              Some (emit Record_stopped (data_update (is_recording_update (\<lambda>_. False)) k)) })"

definition add_char_to_recording_memory :: "u8 \<Rightarrow> keyer \<Rightarrow> keyer option" where
  "add_char_to_recording_memory c k0 =
     do { k \<leftarrow> memory_store (unat (recording_slot (data k0))) (unat (recording_index (data k0))) c k0;
          let k = data_update (recording_index_update (\<lambda>i. i + 1)) k;
          if unat (recording_index (data k)) < MemorySlotSize then Some k else stop_recording k }"

definition start_recording :: "u8 \<Rightarrow> keyer \<Rightarrow> keyer" where
  "start_recording slot k =
     emit (Record_started slot)
       (k\<lparr>data := (data k)\<lparr>is_recording := True, recording_slot := slot, recording_index := 0\<rparr>\<rparr>)"

definition stop_playing :: "keyer \<Rightarrow> keyer" where
  "stop_playing k = emit Play_stopped (data_update (is_playing_update (\<lambda>_. False)) k)"

text \<open>\<open>get_memory\<close> returns a pointer into the row, here the row, or \<open>nullptr\<close>; \<open>strlen\<close> of a row
  without a zero byte reads past it.\<close>

definition get_memory :: "u8 \<Rightarrow> keyer \<Rightarrow> u8 list option" where
  "get_memory slot k =
     (if unat slot < MemorySlots then Some (memory (data k) ! unat slot) else None)"

definition strlen :: "u8 list \<Rightarrow> nat option" where
  "strlen row = (let n = length (takeWhile (\<lambda>c. c \<noteq> 0) row) in if n < length row then Some n else None)"

definition count_memories :: u8 where "count_memories = of_nat MemorySlots"

definition get_memory_max_size :: u16 where "get_memory_max_size = of_nat MemorySlotSize"

definition get_memory_size :: "u8 \<Rightarrow> keyer \<Rightarrow> u16 option" where
  "get_memory_size slot k =
     (if unat slot < MemorySlots
      then map_option of_nat (strlen (memory (data k) ! unat slot)) else Some 0)"

text \<open>The copying loop of \<open>set_memory\<close>; the end of the list is the zero byte ending \<open>content\<close>.\<close>

fun set_memory_loop :: "nat \<Rightarrow> u8 list \<Rightarrow> u8 list \<Rightarrow> u8 list" where
  "set_memory_loop i row [] = row"
| "set_memory_loop i row (c # content) =
     (if i < MemorySlotSize - 1 \<and> c \<noteq> 0 then set_memory_loop (i + 1) (row[i := c]) content else row)"

definition set_memory :: "u8 \<Rightarrow> u8 list \<Rightarrow> keyer \<Rightarrow> keyer" where
  "set_memory slot content k =
     (if unat slot < MemorySlots
      then data_update (memory_update
             (\<lambda>m. m[unat slot := set_memory_loop 0 (m ! unat slot) content])) k
      else k)"

definition keyer_is_recording :: "keyer \<Rightarrow> bool" where
  "keyer_is_recording k = is_recording (data k)"

definition keyer_is_playing :: "keyer \<Rightarrow> bool" where
  "keyer_is_playing k = is_playing (data k)"

section \<open>Sidetone level\<close>

text \<open>Computed in \<open>double\<close> and rounded to \<open>float\<close> at the end; \<open>exp\<close> of the C library is an argument.\<close>

fun to_f32 :: "flt \<Rightarrow> flt" where
  "to_f32 (Fin x) = rnd32 x"
| "to_f32 x = x"

definition audio_level_from_percentage :: "(flt \<Rightarrow> flt) \<Rightarrow> u8 \<Rightarrow> flt" where
  "audio_level_from_percentage c_exp percentage =
     (let a = rnd64 (1 / 1000); b = rnd64 (69077 / 10000)
      in if percentage = 0 then Fin 0
         else to_f32 (fmul rnd64 a (c_exp (fdiv rnd64 (fmul rnd64 b (Fin (of_int (uint percentage)))) (Fin 100)))))"

section \<open>Persistence\<close>

text \<open>The functions that should save and load profiles, memories and settings report success and do
  nothing; their reference arguments are handed back as they were.\<close>

definition save_profile :: "profile \<Rightarrow> u32 \<Rightarrow> bool \<times> u32" where
  "save_profile p address = (True, address)"

definition save_memory :: "u8 list \<Rightarrow> u32 \<Rightarrow> bool \<times> u32" where
  "save_memory m address = (True, address)"

definition load_profile :: "profile \<Rightarrow> u32 \<Rightarrow> bool \<times> profile \<times> u32" where
  "load_profile p address = (True, p, address)"

definition load_memory :: "u8 list \<Rightarrow> u32 \<Rightarrow> bool \<times> u8 list \<times> u32" where
  "load_memory m address = (True, m, address)"

definition save_settings :: bool where "save_settings = True"

definition load_settings :: "keyer \<Rightarrow> bool \<times> keyer" where
  "load_settings k = (True, k)"

definition save_state :: "keyer \<Rightarrow> keyer" where "save_state k = k"

definition load_state :: "keyer \<Rightarrow> keyer" where "load_state k = k"

definition default_state :: "keyer \<Rightarrow> keyer" where "default_state k = k"

end
