(* ===== verification/Keyer_Machine.thy ===== *)
theory Keyer_Machine
  imports Keyer_Profile
begin

text \<open>
  The state machine of the keyer: the \<open>enter\<close>, \<open>exit\<close> and \<open>update\<close> methods of the ten states
  (\<open>src/keyer/keyer_state_*.cpp\<close>), \<open>switch_to\<close>, \<open>update\<close>, \<open>init\<close> and the byte interface
  \<open>winkeyer_data\<close> (\<open>src/keyer/keyer.cpp\<close>). The update of a state returns the next state.
\<close>

section \<open>Commands\<close>

definition winkey_commands_parameter_count :: "u8 list" where
  "winkey_commands_parameter_count =
     [1, 1, 1, 1, 2, 3, 1, 0, 0, 1, 0, 1, 1, 1, 1, 15,
      1, 1, 1, 0, 1, 0, 1, 1,
      1, 1, 1, 2, 1, 1, 0, 0]"

definition is_winkeyer_command :: "u8 \<Rightarrow> bool" where
  "is_winkeyer_command c \<longleftrightarrow> c \<le> 0x1F"

definition is_winkeyer_buffered_command :: "u8 \<Rightarrow> bool" where
  "is_winkeyer_buffered_command c \<longleftrightarrow> c \<le> 0x1F \<and> c \<ge> 0x18"

definition parameter_count :: "u8 \<Rightarrow> u8" where
  "parameter_count c = winkey_commands_parameter_count ! unat c"

section \<open>States\<close>

subsection \<open>Sending an element\<close>

definition send_element_enter :: "hw_env \<Rightarrow> keyer \<Rightarrow> keyer option" where
  "send_element_enter E k0 =
     do { k \<leftarrow> set_sidetone_and_tx True k0;
          let (now, k) = current_ms E k;
          len \<leftarrow> weighted_element_length_ms (sent_element (data k)) k;
          let k = k\<lparr>send_time_to_exit := now + len\<rparr>;
          let (now, k) = current_ms E k;
          _ \<leftarrow> weighted_element_length_ms El_dit k;
          let k = k\<lparr>time_to_check_paddles := now\<rparr>;
          let k = k\<lparr>data := (data k)\<lparr>sent_char_data := push_bit 1 (sent_char_data (data k)),
                                     sent_char_bits := sent_char_bits (data k) + 1\<rparr>\<rparr>;
          Some (if sent_element (data k) = El_dit
                then emit Dit_on (k\<lparr>data := (data k)\<lparr>dit_buffered := False\<rparr>\<rparr>)
                else emit Dah_on (k\<lparr>data := (data k)\<lparr>sent_char_data := sent_char_data (data k) OR 1,
                                                    dah_buffered := False\<rparr>\<rparr>)) }"

text \<open>\<open>time_to_check_paddles\<close> is \<open>current_ms() + length * 0.0 / 50.0f\<close> in \<open>double\<close>, which holds
  every 32-bit integer: the reading itself, once the length has been computed.\<close>

definition send_element_exit :: "hw_env \<Rightarrow> keyer \<Rightarrow> keyer option" where
  "send_element_exit E k0 =
     do { let (now, k) = current_ms E k0;
          let k = data_update (last_send_time_update (\<lambda>_. now)) k;
          k \<leftarrow> set_sidetone_and_tx False k;
          Some (if sent_element (data k) = El_dit then emit Dit_off k else emit Dah_off k) }"

definition send_element_update :: "hw_env \<Rightarrow> u32 \<Rightarrow> keyer \<Rightarrow> (state_type \<times> keyer) option" where
  "send_element_update E now_ms k0 =
     (let k = (if now_ms \<ge> time_to_check_paddles k0
               then (if sent_element (data k0) = El_dit then check_dah_paddle E k0
                     else check_dit_paddle E k0)
               else k0)
      in Some (if now_ms \<ge> send_time_to_exit k then St_inter_element_space else St_send_element, k))"

subsection \<open>Spaces\<close>

definition inter_element_space_enter :: "hw_env \<Rightarrow> keyer \<Rightarrow> keyer option" where
  "inter_element_space_enter E k0 =
     do { let (now, k) = current_ms E k0;
          len \<leftarrow> inter_element_space_length_ms k;
          Some (k\<lparr>element_space_time_to_exit := now + len\<rparr>) }"

definition inter_element_space_update :: "hw_env \<Rightarrow> u32 \<Rightarrow> keyer \<Rightarrow> (state_type \<times> keyer) option" where
  "inter_element_space_update E now_ms k0 =
     (let k = (if sent_element (data k0) = El_dit then check_dah_paddle E k0 else check_dit_paddle E k0)
      in if now_ms \<ge> element_space_time_to_exit k then
           if winkeyer_enabled (data k) then Some (St_winkeyer, k)
           else if is_playing (data k) then Some (St_play, k)
           else do { let k = poll_paddles E k;
                     p \<leftarrow> get_current_profile k;
                     Some (if dit_buffered (data k) \<or> dah_buffered (data k)
                              \<or> \<not> autospace_enabled (style p)
                           then St_idle else St_autospace, k) }
         else Some (St_inter_element_space, k))"

text \<open>\<open>current_ms() + float - float\<close> is computed in \<open>float\<close>, left to right.\<close>

definition autospace_enter :: "hw_env \<Rightarrow> keyer \<Rightarrow> keyer option" where
  "autospace_enter E k0 =
     do { p \<leftarrow> get_current_profile k0;
          let (now, k) = current_ms E k0;
          t \<leftarrow> to_u32 (sub32 (add32 (f32_of_int (uint now)) (space_between_chars_ms (timings p)))
                              (weighted_inter_element_space_ms (timings p)));
          Some (k\<lparr>autospace_time_to_exit := t\<rparr>) }"

definition after_space :: "keyer \<Rightarrow> state_type" where
  "after_space k =
     (if is_playing (data k) then St_play
      else if winkeyer_enabled (data k) then St_winkeyer else St_idle)"

definition autospace_update :: "hw_env \<Rightarrow> u32 \<Rightarrow> keyer \<Rightarrow> (state_type \<times> keyer) option" where
  "autospace_update E now_ms k =
     Some (if now_ms \<ge> autospace_time_to_exit k then after_space k else St_autospace, k)"

definition half_dot_gap_enter :: "hw_env \<Rightarrow> keyer \<Rightarrow> keyer option" where
  "half_dot_gap_enter E k0 =
     do { let (now, k) = current_ms E k0;
          len \<leftarrow> weighted_element_length_ms El_dit k;
          Some (k\<lparr>half_dot_gap_time_to_exit := now + len div 2\<rparr>) }"

definition half_dot_gap_update :: "hw_env \<Rightarrow> u32 \<Rightarrow> keyer \<Rightarrow> (state_type \<times> keyer) option" where
  "half_dot_gap_update E elapsed_ms k0 =
     (let (now, k) = current_ms E k0
      in Some (if now \<ge> half_dot_gap_time_to_exit k then after_space k else St_half_dot_gap, k))"

definition inter_word_space_enter :: "hw_env \<Rightarrow> keyer \<Rightarrow> keyer option" where
  "inter_word_space_enter E k =
     do { len \<leftarrow> inter_word_space_length_ms k;
          Some (emit (Char_sent (of_char (CHR '' '')))
                  (k\<lparr>word_space_time_to_exit := last_send_time (data k) + len\<rparr>)) }"

definition inter_word_space_update :: "hw_env \<Rightarrow> u32 \<Rightarrow> keyer \<Rightarrow> (state_type \<times> keyer) option" where
  "inter_word_space_update E elapsed_ms k0 =
     (let (now, k) = current_ms E (poll_paddles E k0)
      in if now \<ge> word_space_time_to_exit k
         then let k = data_update (last_send_time_update (\<lambda>_. now)) k
              in Some (if winkeyer_enabled (data k) then St_winkeyer else St_play, k)
         else Some (St_inter_word_space, k))"

subsection \<open>Idle\<close>

fun opposite_element :: "element \<Rightarrow> element" where
  "opposite_element El_none = El_none"
| "opposite_element El_dah = El_dit"
| "opposite_element El_dit = El_dah"

text \<open>The literals \<open>1.5f\<close> and \<open>1.05f\<close>.\<close>

definition idle_enter :: "hw_env \<Rightarrow> keyer \<Rightarrow> keyer option" where
  "idle_enter E k =
     do { p \<leftarrow> get_current_profile k;
          let last = f32_of_int (uint (last_send_time (data k)));
          w \<leftarrow> to_u32 (sub32 (add32 last (space_between_words_ms (timings p)))
                              (mul32 (weighted_inter_element_space_ms (timings p)) (Fin (3 / 2))));
          d \<leftarrow> to_u32 (add32 last
                              (mul32 (weighted_inter_element_space_ms (timings p)) (rnd32 (105 / 100))));
          Some (k\<lparr>time_for_word_space := w, time_to_decode := d\<rparr>) }"

definition report_char :: "u8 \<Rightarrow> keyer \<Rightarrow> keyer option" where
  "report_char c k0 =
     (let k = emit (Char_sent c) k0
      in if is_recording (data k) then add_char_to_recording_memory c k else Some k)"

definition idle_update :: "hw_env \<Rightarrow> u32 \<Rightarrow> keyer \<Rightarrow> (state_type \<times> keyer) option" where
  "idle_update E now_ms k0 =
     (let k = poll_paddles E k0; d = data k
      in if dit_buffered d \<and> dah_buffered d then
           Some (St_send_element,
                 data_update (sent_element_update
                   (\<lambda>e. if e = El_none then El_dit else opposite_element e)) k)
         else if dit_buffered d \<or> dah_buffered d then
           Some (St_send_element,
                 data_update (sent_element_update
                   (\<lambda>_. if dit_buffered d then El_dit else El_dah)) k)
         else if winkeyer_enabled d \<or> \<not> cb_empty (winkeyer_buffer d) then Some (St_winkeyer, k)
         else
           do { k \<leftarrow> (if 0 < sent_char_bits d \<and> now_ms \<ge> time_to_decode k
                      then report_char (decode_char (sent_char_data d) (sent_char_bits d))
                             (k\<lparr>data := d\<lparr>sent_char_data := 0, sent_char_bits := 0\<rparr>\<rparr>)
                      else Some k);
                let (now, k) = current_ms E k;
                k \<leftarrow> (if now > time_for_word_space k \<and> sent_element (data k) \<noteq> El_none
                      then report_char (of_char (CHR '' ''))
                             (data_update (sent_element_update (\<lambda>_. El_none)) k)
                      else Some k);
                Some (St_idle, k) })"

subsection \<open>Playing a memory\<close>

definition fetch_next_playing_char :: "keyer \<Rightarrow> (u8 \<times> keyer) option" where
  "fetch_next_playing_char k =
     do { c \<leftarrow> memory_load (unat (playing_slot (data k))) (unat (playing_char_index (data k))) k;
          Some (c, data_update (playing_char_index_update (\<lambda>i. i + 1)) k) }"

text \<open>The common tail of the \<open>play\<close> and \<open>winkeyer\<close> states: the next bit of the pattern, most
  significant first; a shift by -1 or by 32 or more is undefined.\<close>

definition send_next_bit :: "keyer \<Rightarrow> (state_type \<times> keyer) option" where
  "send_next_bit k =
     (if playing_bit (data k) = 0 \<or> playing_bit (data k) > 32 then None
      else let b = playing_bit (data k) - 1
           in Some (St_send_element,
                    k\<lparr>data := (data k)\<lparr>playing_bit := b,
                                     sent_element := element_at (playing_data (data k)) (unat b)\<rparr>\<rparr>))"

definition load_pattern :: "char_pattern \<Rightarrow> keyer \<Rightarrow> keyer" where
  "load_pattern p k = k\<lparr>data := (data k)\<lparr>playing_data := cp_data p, playing_bit := cp_bits p\<rparr>\<rparr>"

definition play_update :: "hw_env \<Rightarrow> u32 \<Rightarrow> keyer \<Rightarrow> (state_type \<times> keyer) option" where
  "play_update E elapsed_ms k =
     (if playing_bit (data k) = 0 then
        if \<not> play_inter_char_space_played k
        then Some (St_autospace, k\<lparr>play_inter_char_space_played := True\<rparr>)
        else do { (c, k) \<leftarrow> fetch_next_playing_char k;
                  if c = 0 then Some (St_idle, stop_playing k)
                  else (case get_char_pattern c of
                          None \<Rightarrow> Some (St_inter_word_space, k)
                        | Some p \<Rightarrow>
                            send_next_bit (load_pattern p k\<lparr>play_inter_char_space_played := False\<rparr>)) }
      else send_next_bit k)"

subsection \<open>The WinKeyer buffer\<close>

definition winkeyer_enter :: "hw_env \<Rightarrow> keyer \<Rightarrow> keyer option" where
  "winkeyer_enter E k = Some (data_update (winkeyer_enabled_update (\<lambda>_. True)) k)"

text \<open>\<open>arguments[i] = winkeyer_buffer.get()\<close> for \<open>i\<close> below the parameter count.\<close>

fun fetch_arguments :: "nat \<Rightarrow> nat \<Rightarrow> keyer \<Rightarrow> keyer" where
  "fetch_arguments i 0 k = k"
| "fetch_arguments i (Suc n) k =
     (case cb_get (winkeyer_buffer (data k)) of
        (x, b) \<Rightarrow> fetch_arguments (i + 1) n
                    (data_update (winkeyer_buffer_update (\<lambda>_. b))
                       (k\<lparr>wk_arguments := (wk_arguments k)[i := x]\<rparr>)))"

definition buffered_command :: "u8 \<Rightarrow> keyer \<Rightarrow> keyer" where
  "buffered_command c k0 =
     (let k = fetch_arguments 0 (unat (parameter_count c)) k0
      in if c = 0x1C
         then data_update (winkeyer_speed_wpm_update (\<lambda>_. f32_of_int (uint (wk_arguments k ! 0)))) k
         else if c = 0x0A then data_update (winkeyer_buffer_update cb_reset) k
         else k)"

definition winkeyer_update :: "hw_env \<Rightarrow> u32 \<Rightarrow> keyer \<Rightarrow> (state_type \<times> keyer) option" where
  "winkeyer_update E elapsed_ms k0 =
     (let k = poll_paddles E k0 in
      if paddles (data k) \<noteq> Paddle_none then
        Some (St_idle, k\<lparr>data := (data k)\<lparr>winkeyer_enabled := False,
                                         winkeyer_buffer := cb_reset (winkeyer_buffer (data k))\<rparr>\<rparr>)
      else if playing_bit (data k) = 0 then
        if \<not> wk_inter_char_space_played k
        then Some (St_autospace, k\<lparr>wk_inter_char_space_played := True\<rparr>)
        else if cb_empty (winkeyer_buffer (data k)) then Some (St_winkeyer, k)
        else
          let c = cb_peek (winkeyer_buffer (data k)) in
          if is_winkeyer_command c \<and> cb_size (winkeyer_buffer (data k)) \<le> unat (parameter_count c)
          then Some (St_winkeyer, k)
          else
            let k = data_update (winkeyer_buffer_update (\<lambda>b. snd (cb_get b))) k in
            if is_winkeyer_command c then Some (St_winkeyer, buffered_command c k)
            else if c = of_char (CHR ''|'') then Some (St_half_dot_gap, k)
            else (case get_char_pattern c of
                    None \<Rightarrow> Some (St_inter_word_space, k)
                  | Some p \<Rightarrow> send_next_bit (load_pattern p k\<lparr>wk_inter_char_space_played := False\<rparr>))
      else send_next_bit k)"

section \<open>The machine\<close>

text \<open>The virtual calls on a state object; \<open>key_down\<close> and \<open>tune\<close> only return to \<open>idle\<close>.\<close>

fun state_enter :: "hw_env \<Rightarrow> state_type \<Rightarrow> keyer \<Rightarrow> keyer option" where
  "state_enter E St_idle k = idle_enter E k"
| "state_enter E St_send_element k = send_element_enter E k"
| "state_enter E St_inter_element_space k = inter_element_space_enter E k"
| "state_enter E St_inter_word_space k = inter_word_space_enter E k"
| "state_enter E St_autospace k = autospace_enter E k"
| "state_enter E St_winkeyer k = winkeyer_enter E k"
| "state_enter E St_half_dot_gap k = half_dot_gap_enter E k"
| "state_enter E St_play k = Some k"
| "state_enter E St_key_down k = Some k"
| "state_enter E St_tune k = Some k"

fun state_exit :: "hw_env \<Rightarrow> state_type \<Rightarrow> keyer \<Rightarrow> keyer option" where
  "state_exit E s k = (if s = St_send_element then send_element_exit E k else Some k)"

fun state_update :: "hw_env \<Rightarrow> state_type \<Rightarrow> u32 \<Rightarrow> keyer \<Rightarrow> (state_type \<times> keyer) option" where
  "state_update E St_idle now k = idle_update E now k"
| "state_update E St_send_element now k = send_element_update E now k"
| "state_update E St_inter_element_space now k = inter_element_space_update E now k"
| "state_update E St_inter_word_space now k = inter_word_space_update E now k"
| "state_update E St_autospace now k = autospace_update E now k"
| "state_update E St_winkeyer now k = winkeyer_update E now k"
| "state_update E St_half_dot_gap now k = half_dot_gap_update E now k"
| "state_update E St_play now k = play_update E now k"
| "state_update E St_key_down now k = Some (St_idle, k)"
| "state_update E St_tune now k = Some (St_idle, k)"

definition switch_to :: "hw_env \<Rightarrow> state_type \<Rightarrow> keyer \<Rightarrow> keyer option" where
  "switch_to E next k0 =
     (if current_state (data k0) = Some next then Some k0
      else do { k \<leftarrow> (case current_state (data k0) of
                       None \<Rightarrow> Some k0
                     | Some s \<Rightarrow> state_exit E s k0);
                state_enter E next (data_update (current_state_update (\<lambda>_. Some next)) k) })"

fun update_loop :: "hw_env \<Rightarrow> nat \<Rightarrow> keyer \<Rightarrow> keyer option" where
  "update_loop E 0 k = Some k"
| "update_loop E (Suc n) k0 =
     (case current_state (data k0) of
        None \<Rightarrow> Some k0
      | Some s \<Rightarrow>
          do { let (now, k) = current_ms E k0;
               (next, k) \<leftarrow> state_update E s now k;
               if Some next = current_state (data k) then Some k
               else do { k \<leftarrow> switch_to E next k; update_loop E n k } })"

definition update :: "hw_env \<Rightarrow> keyer \<Rightarrow> keyer option" where
  "update E k = update_loop E 16 k"

definition init :: "hw_env \<Rightarrow> keyer \<Rightarrow> keyer option" where
  "init E k0 =
     do { p \<leftarrow> get_current_profile k0;
          let k = k0\<lparr>data := (data k0)\<lparr>winkeyer_speed_wpm := profile_get_speed p,
                 winkeyer_enabled := False, winkeyer_waiting_for_arguments := 0,
                 mode := Mode_iambic_a, paddles := Paddle_none, sent_element := El_none,
                 dit_buffered := False, dah_buffered := False, sent_char_bits := 0,
                 sent_char_data := 0, is_recording := False, recording_slot := 0,
                 is_playing := False, playing_slot := 0\<rparr>\<rparr>;
          let (_, k) = load_settings k;
          k \<leftarrow> set_profile 0 k;
          switch_to E St_idle k }"

definition start_playing :: "hw_env \<Rightarrow> u8 \<Rightarrow> keyer \<Rightarrow> keyer option" where
  "start_playing E slot k0 =
     do { k \<leftarrow> switch_to E St_play
                 (k0\<lparr>data := (data k0)\<lparr>is_playing := True, playing_slot := slot,
                                      playing_char_index := 0, playing_bit := 0\<rparr>\<rparr>);
          Some (emit (Play_started slot) k) }"

section \<open>The byte interface\<close>

text \<open>The \<open>switch\<close> over a complete immediate command.\<close>

definition execute_command :: "keyer \<Rightarrow> keyer option" where
  "execute_command k =
     (let a = winkeyer_arguments (data k) ! 0; c = winkeyer_pending_command (data k)
      in if c = 0x02 then
           do { k \<leftarrow> set_speed (f32_of_int (uint a))
                       (data_update (winkeyer_speed_wpm_update (\<lambda>_. f32_of_int (uint a))) k);
                Some (emit Parameters_changed k) }
         else if c = 0x03 then modify_profile (profile_set_weighting a) k
         else if c = 0x0A then Some (data_update (winkeyer_buffer_update cb_reset) k)
         else if c = 0x0B then Some (emit (if a = 1 then Key_down else Key_up) k)
         else Some k)"

definition buffer_byte :: "u8 \<Rightarrow> keyer \<Rightarrow> keyer" where
  "buffer_byte c k =
     k\<lparr>data := (data k)\<lparr>winkeyer_buffer := cb_put c (winkeyer_buffer (data k)),
         winkeyer_remaining_buffered_arguments :=
           (if 0 < winkeyer_remaining_buffered_arguments (data k)
            then winkeyer_remaining_buffered_arguments (data k) - 1
            else if is_winkeyer_command c \<and> is_winkeyer_buffered_command c
            then parameter_count c else 0)\<rparr>\<rparr>"

definition winkeyer_data :: "u8 \<Rightarrow> keyer \<Rightarrow> keyer option" where
  "winkeyer_data c k0 =
     (let d = data k0 in
      if 0 < winkeyer_waiting_for_arguments d then
        if unat (winkeyer_argument_index d) < length (winkeyer_arguments d) then
          let k = k0\<lparr>data := d\<lparr>winkeyer_arguments :=
                                 (winkeyer_arguments d)[unat (winkeyer_argument_index d) := c],
                               winkeyer_argument_index := winkeyer_argument_index d + 1,
                               winkeyer_waiting_for_arguments := winkeyer_waiting_for_arguments d - 1\<rparr>\<rparr>
          in if winkeyer_waiting_for_arguments (data k) = 0 then execute_command k else Some k
        else None
      else if winkeyer_remaining_buffered_arguments d = 0
              \<and> is_winkeyer_command c \<and> \<not> is_winkeyer_buffered_command c then
        let k = k0\<lparr>data := d\<lparr>winkeyer_pending_command := c,
                             winkeyer_waiting_for_arguments := parameter_count c,
                             winkeyer_argument_index := 0\<rparr>\<rparr>
        in if winkeyer_waiting_for_arguments (data k) = 0 then execute_command k else Some k
      else Some (buffer_byte c k0))"

end
