(* ===== verification/Keyer_Start.thy ===== *)
theory Keyer_Start
  imports Keyer_Machine
begin

text \<open>
  The start of the keyer, evaluated: \<open>init\<close> on the zero-initialised state, one byte from the
  client and one tick. The values the properties of the keyer are instantiated with.
\<close>

section \<open>Initialisation\<close>

definition init_keyer :: keyer where
  "init_keyer = keyer_zero\<lparr>
     data := keyer_internal_state_zero\<lparr>current_state := Some St_idle, mode := Mode_iambic_a,
               winkeyer_speed_wpm := Fin 24\<rparr>,
     profiles := [profile_default\<lparr>timings := default_timings\<rparr>, profile_default, profile_default],
     time_for_word_space := 229, time_to_decode := 53\<rparr>"

lemma idle_ops_24:
  "add32 (Fin 0) (Fin (2507755 / 8192)) = Fin (2507755 / 8192)"
  "mul32 (Fin (6687347 / 131072)) (Fin (3 / 2)) = Fin (2507755 / 32768)"
  "sub32 (Fin (2507755 / 8192)) (Fin (2507755 / 32768)) = Fin (7523265 / 32768)"
  "rnd32 (105 / 100) = Fin (4404019 / 4194304)"
  "rnd32 (21 / 20) = Fin (4404019 / 4194304)"
  "mul32 (Fin (6687347 / 131072)) (Fin (4404019 / 4194304)) = Fin (3510857 / 65536)"
  "add32 (Fin 0) (Fin (3510857 / 65536)) = Fin (3510857 / 65536)"
  "to_u32 (Fin (7523265 / 32768)) = Some 229"
  "to_u32 (Fin (3510857 / 65536)) = Some 53"
  "f32_of_int 0 = Fin 0"
  by code_simp+

lemma replicate_3: "replicate 3 x = [x, x, x]"
  by (simp add: numeral_3_eq_3)

lemma init_value: "init E keyer_zero = Some init_keyer"
  by (simp add: init_def load_settings_def keyer_zero_def get_current_profile_def set_profile_def modify_profile_def
      update_timings_def profile_default_def calculate_default_timings switch_to_def idle_enter_def
      keyer_internal_state_zero_def profile_get_speed_def idle_ops_24 default_timings_def
      init_keyer_def replicate_3 code_style_default_def [symmetric] Let_def
      del: fadd.simps fmul.simps fdiv.simps) (simp add: code_style_default_def)

section \<open>The first tick after a letter\<close>

lemma update_loop_numeral:
  "update_loop E (numeral v) k0 =
     (case current_state (data k0) of
        None \<Rightarrow> Some k0
      | Some s \<Rightarrow>
          do { let (now, k) = current_ms E k0;
               (next, k) \<leftarrow> state_update E s now k;
               if Some next = current_state (data k) then Some k
               else do { k \<leftarrow> switch_to E next k; update_loop E (pred_numeral v) k } })"
  by (simp add: numeral_eq_Suc)

definition still_env :: hw_env where
  "still_env = \<lparr>clk = (\<lambda>_. 0), pressed = (\<lambda>_ _. False)\<rparr>"

lemma send_ops_24:
  "f32_of_int 1200 = Fin 1200" "div32 (Fin 1200) (Fin 24) = Fin 50" "to_u32 (Fin 50) = Some 50"
  "f32_of_int 50 = Fin 50" "mul32 (Fin 50) (Fin 50) = Fin 2500" "div32 (Fin 2500) (Fin 50) = Fin 50"
  by code_simp+

definition demo_keyer :: keyer where
  "demo_keyer = init_keyer\<lparr>
     data := (data init_keyer)\<lparr>current_state := Some St_send_element, winkeyer_enabled := True,
        winkeyer_buffer := snd (cb_get (cb_put 65 (winkeyer_buffer (data init_keyer)))),
        playing_data := 1, playing_bit := 1, sent_element := El_dit, sent_char_bits := 1\<rparr>,
     send_time_to_exit := 50, wk_inter_char_space_played := False, reads := 5, polls := 5,
     trace := [Tone_on 500, Key_down, Dit_on]\<rparr>"

lemma demo_byte: "winkeyer_data 65 init_keyer = Some (buffer_byte 65 init_keyer)"
  by (simp add: winkeyer_data_def init_keyer_def keyer_internal_state_zero_def Let_def is_winkeyer_command_def)

lemma demo_update: "update still_env (buffer_byte 65 init_keyer) = Some demo_keyer"
proof -
  have A: "get_char_pattern 65 = Some (pat 1 2 (CHR ''A''))"
    by (simp add: get_char_pattern_def char_table_def pat_def)
  have b: "\<not> cb_empty (cb_put 65 (circular_buffer_new (replicate 160 (0::u8))))"
    "cb_peek (cb_put 65 (circular_buffer_new (replicate 160 (0::u8)))) = 65"
    by (simp_all add: cb_empty_def cb_put_def circular_buffer_new_def cb_peek_def Let_def)
  show ?thesis
    by (simp add: update_def init_keyer_def keyer_internal_state_zero_def Let_def buffer_byte_def
        idle_update_def poll_paddles_def check_dit_paddle_def check_dah_paddle_def
        is_paddle_pressed_def current_ms_def still_env_def keyer_zero_def b A switch_to_def
        winkeyer_enter_def winkeyer_update_def is_winkeyer_command_def load_pattern_def pat_def
        send_next_bit_def element_at_def send_element_enter_def set_sidetone_and_tx_def
        get_current_profile_def profile_default_def code_style_default_def emit_def
        weighted_element_length_ms_def element_length_ms_def send_ops_24 send_element_update_def demo_keyer_def
        bit_1_iff update_loop_numeral
        del: fadd.simps fmul.simps fdiv.simps) 
qed

end
