(* ===== verification/Keyer_Key_Line.thy ===== *)
theory Keyer_Key_Line
  imports Keyer_Start
begin

text \<open>
  The key line over the life of the keyer: the state as the hardware sees it, the runs of the
  keyer, and the invariant that the transmitter is keyed in the \<open>send_element\<close> state and in no
  other.
\<close>

section \<open>The key line\<close>

fun key_event :: "hw_event \<Rightarrow> bool \<Rightarrow> bool" where
  "key_event Key_down _ = True"
| "key_event Key_up _ = False"
| "key_event _ b = b"

definition key_line :: "hw_event list \<Rightarrow> bool" where
  "key_line es = fold key_event es False"

lemma key_line_Nil [simp]: "\<not> key_line []"
  by (simp add: key_line_def)

lemma key_line_append [simp]: "key_line (es @ fs) = fold key_event fs (key_line es)"
  by (simp add: key_line_def)

lemma trace_emit [simp]: "trace (emit e k) = trace k @ [e]"
  by (simp add: emit_def)

lemma data_emit [simp]: "data (emit e k) = data k"
  by (simp add: emit_def)

definition key_ok :: "keyer \<Rightarrow> bool" where
  "key_ok k \<longleftrightarrow> (key_line (trace k) \<longleftrightarrow> current_state (data k) = Some St_send_element)"

text \<open>Operations that neither change the state nor move the key.\<close>

definition quiet :: "keyer \<Rightarrow> keyer \<Rightarrow> bool" where
  "quiet k k' \<longleftrightarrow>
     current_state (data k') = current_state (data k) \<and> key_line (trace k') = key_line (trace k)"

lemma quiet_refl [simp, intro]: "quiet k k"
  by (simp add: quiet_def)

lemma quiet_trans: "quiet a b \<Longrightarrow> quiet b c \<Longrightarrow> quiet a c"
  by (simp add: quiet_def)

lemma quiet_key_ok: "quiet k k' \<Longrightarrow> key_ok k \<Longrightarrow> key_ok k'"
  by (simp add: quiet_def key_ok_def)

lemmas hw_defs = current_ms_def is_paddle_pressed_def

lemma quiet_modify_profile: "modify_profile f k = Some k' \<Longrightarrow> quiet k k'"
  by (auto simp: modify_profile_def quiet_def bind_eq_Some_conv)

lemma quiet_check_dit: "quiet k (check_dit_paddle E k)"
  by (simp add: quiet_def check_dit_paddle_def hw_defs)

lemma quiet_check_dah: "quiet k (check_dah_paddle E k)"
  by (simp add: quiet_def check_dah_paddle_def hw_defs)

lemma quiet_poll: "quiet k (poll_paddles E k)"
  by (simp add: quiet_def poll_paddles_def Let_def check_dit_paddle_def check_dah_paddle_def hw_defs)

lemma quiet_memory_store: "memory_store s i c k = Some k' \<Longrightarrow> quiet k k'"
  by (auto simp: memory_store_def quiet_def split: if_splits)

lemma quiet_stop_recording: "stop_recording k = Some k' \<Longrightarrow> quiet k k'"
  by (auto simp: stop_recording_def Let_def bind_eq_Some_conv quiet_def memory_store_def
      split: if_splits)

lemma quiet_add_char: "add_char_to_recording_memory c k = Some k' \<Longrightarrow> quiet k k'"
  by (auto simp: add_char_to_recording_memory_def Let_def bind_eq_Some_conv split: if_splits
      dest!: quiet_memory_store quiet_stop_recording) (auto simp: quiet_def)

lemma quiet_report_char: "report_char c k = Some k' \<Longrightarrow> quiet k k'"
  by (auto simp: report_char_def Let_def split: if_splits dest!: quiet_add_char) (auto simp: quiet_def)

lemma quiet_send_next_bit: "send_next_bit k = Some (s, k') \<Longrightarrow> quiet k k'"
  by (auto simp: send_next_bit_def Let_def quiet_def split: if_splits)

lemma fetch_arguments_frame [simp]:
  "current_state (data (fetch_arguments i n k)) = current_state (data k)"
  "trace (fetch_arguments i n k) = trace k"
  by (induction i n k rule: fetch_arguments.induct) (auto split: prod.splits)

lemma buffered_command_frame [simp]:
  "current_state (data (buffered_command c k)) = current_state (data k)"
  "trace (buffered_command c k) = trace k"
  by (simp_all add: buffered_command_def Let_def)

lemma poll_paddles_frame [simp]:
  "current_state (data (poll_paddles E k)) = current_state (data k)"
  "trace (poll_paddles E k) = trace k"
  by (simp_all add: poll_paddles_def Let_def check_dit_paddle_def check_dah_paddle_def hw_defs)

lemma quiet_idle_update:
  assumes "idle_update E now k = Some (s, k')"
  shows "quiet k k'"
proof -
  have q: "quiet k (poll_paddles E k)" by (rule quiet_poll)
  show ?thesis
    using assms q
    by (auto simp: idle_update_def Let_def bind_eq_Some_conv current_ms_def split: if_splits prod.splits
        dest!: quiet_report_char) (auto simp: quiet_def)
qed

lemma quiet_winkeyer_update:
  "winkeyer_update E now k = Some (s, k') \<Longrightarrow> quiet k k'"
  by (auto simp: winkeyer_update_def Let_def split: if_splits option.splits dest!: quiet_send_next_bit)
    (auto simp: quiet_def load_pattern_def)

lemma quiet_play_update:
  "play_update E now k = Some (s, k') \<Longrightarrow> quiet k k'"
  by (auto simp: play_update_def fetch_next_playing_char_def bind_eq_Some_conv stop_playing_def
      split: if_splits option.splits dest!: quiet_send_next_bit)
    (auto simp: quiet_def load_pattern_def)

lemma quiet_inter_element_space_update:
  "inter_element_space_update E now k = Some (s, k') \<Longrightarrow> quiet k k'"
  using quiet_check_dit [of k E] quiet_check_dah [of k E]
  by (auto simp: inter_element_space_update_def Let_def bind_eq_Some_conv quiet_def split: if_splits)

lemma state_update_quiet:
  assumes "state_update E t now k = Some (s, k')"
  shows "quiet k k'"
  using assms
proof (cases t)
  case St_send_element
  then show ?thesis
    using assms quiet_check_dit [of k E] quiet_check_dah [of k E]
    by (auto simp: send_element_update_def Let_def)
next
  case St_inter_word_space
  then show ?thesis
    using assms by (auto simp: inter_word_space_update_def Let_def current_ms_def quiet_def split: if_splits)
qed (auto simp: autospace_update_def half_dot_gap_update_def current_ms_def quiet_def
    dest: quiet_idle_update quiet_winkeyer_update quiet_play_update quiet_inter_element_space_update
    simp del: poll_paddles_frame)

text \<open>Entering the \<open>send_element\<close> state keys the transmitter, leaving it releases the key; no
  other state touches it.\<close>

lemma send_element_enter_key:
  assumes "send_element_enter E k = Some k'"
  shows "key_line (trace k')" "current_state (data k') = current_state (data k)"
  using assms
  by (simp_all add: send_element_enter_def set_sidetone_and_tx_def bind_eq_Some_conv Let_def
      current_ms_def split: if_splits) auto

lemma other_enter_quiet:
  assumes "state_enter E s k = Some k'" "s \<noteq> St_send_element"
  shows "quiet k k'"
  using assms
  by (cases s) (auto simp: idle_enter_def inter_element_space_enter_def inter_word_space_enter_def
      autospace_enter_def winkeyer_enter_def half_dot_gap_enter_def bind_eq_Some_conv Let_def
      current_ms_def quiet_def)

lemma state_enter_key:
  assumes "state_enter E s k = Some k'" "\<not> key_line (trace k)"
  shows "(key_line (trace k') \<longleftrightarrow> s = St_send_element) \<and> current_state (data k') = current_state (data k)"
proof (cases "s = St_send_element")
  case True
  then show ?thesis using assms send_element_enter_key by simp
next
  case False
  then show ?thesis using other_enter_quiet [OF assms(1)] assms(2) by (simp add: quiet_def)
qed

lemma state_exit_key:
  assumes "state_exit E s k = Some k'" "key_line (trace k) \<longleftrightarrow> s = St_send_element"
  shows "\<not> key_line (trace k')"
  using assms
  by (auto simp: send_element_exit_def set_sidetone_and_tx_def current_ms_def bind_eq_Some_conv Let_def
      split: if_splits)

lemma switch_to_key:
  assumes "switch_to E s k = Some k'" "key_ok k"
  shows "key_ok k' \<and> current_state (data k') = Some s"
proof (cases "current_state (data k) = Some s")
  case True
  then show ?thesis using assms by (simp add: switch_to_def)
next
  case False
  then obtain k1 where k1: "(case current_state (data k) of None \<Rightarrow> Some k | Some t \<Rightarrow> state_exit E t k) = Some k1"
    and e: "state_enter E s (data_update (current_state_update (\<lambda>_. Some s)) k1) = Some k'"
    using assms(1) by (auto simp: switch_to_def bind_eq_Some_conv)
  have "\<not> key_line (trace k1)"
    using k1 assms(2) by (auto simp: key_ok_def dest: state_exit_key split: option.splits simp del: state_exit.simps)
  then show ?thesis using state_enter_key [OF e] by (simp add: key_ok_def)
qed

lemma update_loop_key_ok:
  "update_loop E n k = Some k' \<Longrightarrow> key_ok k \<Longrightarrow> key_ok k'"
proof (induction n arbitrary: k)
  case (Suc n)
  have q: "key_ok k1" if "state_update E s now (k\<lparr>reads := m\<rparr>) = Some (t, k1)" for s now m t k1
    using state_update_quiet [OF that] Suc.prems(2) by (auto simp: quiet_def key_ok_def)
  show ?case
    using Suc.prems Suc.IH
    by (auto simp: bind_eq_Some_conv current_ms_def split: option.splits if_splits
        dest!: q switch_to_key)
qed simp

section \<open>Runs of the keyer\<close>

text \<open>The entry points, in any order: ticks, bytes, the memory functions and the setters. A byte
  that completes the immediate keying command moves the key outside the state machine and is left
  out.\<close>

definition completes_key_command :: "keyer \<Rightarrow> bool" where
  "completes_key_command k \<longleftrightarrow>
     winkeyer_waiting_for_arguments (data k) = 1 \<and> winkeyer_pending_command (data k) = 0x0B"

inductive keyer_run :: "hw_env \<Rightarrow> keyer \<Rightarrow> bool" for E where
  run_init: "init E keyer_zero = Some k \<Longrightarrow> keyer_run E k"
| run_update: "keyer_run E k \<Longrightarrow> update E k = Some k' \<Longrightarrow> keyer_run E k'"
| run_byte: "keyer_run E k \<Longrightarrow> \<not> completes_key_command k \<Longrightarrow> winkeyer_data c k = Some k' \<Longrightarrow> keyer_run E k'"
| run_play: "keyer_run E k \<Longrightarrow> start_playing E slot k = Some k' \<Longrightarrow> keyer_run E k'"
| run_record: "keyer_run E k \<Longrightarrow> keyer_run E (start_recording slot k)"
| run_stop_record: "keyer_run E k \<Longrightarrow> stop_recording k = Some k' \<Longrightarrow> keyer_run E k'"
| run_stop_play: "keyer_run E k \<Longrightarrow> keyer_run E (stop_playing k)"
| run_setter: "keyer_run E k \<Longrightarrow> modify_profile f k = Some k' \<Longrightarrow> keyer_run E k'"
| run_profile: "keyer_run E k \<Longrightarrow> set_profile n k = Some k' \<Longrightarrow> keyer_run E k'"

lemma set_profile_quiet: "set_profile n k = Some k' \<Longrightarrow> quiet k k'"
  by (auto simp: set_profile_def modify_profile_def bind_eq_Some_conv quiet_def)

lemma execute_command_quiet:
  "execute_command k = Some k' \<Longrightarrow> winkeyer_pending_command (data k) \<noteq> 0x0B \<Longrightarrow> quiet k k'"
  by (auto simp: execute_command_def Let_def set_speed_def modify_profile_def bind_eq_Some_conv
      quiet_def split: if_splits)

lemma parameter_count_key: "parameter_count 0x0B = 1"
  by (simp add: parameter_count_def winkey_commands_parameter_count_def)

lemma winkeyer_data_quiet:
  assumes "winkeyer_data c k = Some k'" "\<not> completes_key_command k"
  shows "quiet k k'"
proof -
  have one: "w = 1" if "w - 1 = 0" for w :: u8 using that by simp
  show ?thesis
    using assms parameter_count_key
    by (auto simp: winkeyer_data_def Let_def completes_key_command_def buffer_byte_def
        split: if_splits dest!: execute_command_quiet one) (auto simp: quiet_def)
qed

lemma init_key_ok:
  assumes "init E keyer_zero = Some k"
  shows "key_ok k"
proof -
  obtain k1 where s: "switch_to E St_idle k1 = Some k" and k1: "current_state (data k1) = None" "trace k1 = []"
    using assms
    by (auto simp: init_def load_settings_def bind_eq_Some_conv Let_def keyer_zero_def keyer_internal_state_zero_def
        set_profile_def modify_profile_def)
  then have "key_ok k1" by (simp add: key_ok_def)
  with s show ?thesis by (simp add: switch_to_key)
qed

lemma start_playing_key_ok:
  assumes "start_playing E slot k = Some k'" "key_ok k"
  shows "key_ok k'"
  using assms
  by (auto simp: start_playing_def bind_eq_Some_conv key_ok_def dest!: switch_to_key)

text \<open>
  (C13) At every moment of a run of the keyer that uses no immediate keying command, the
  transmitter is keyed exactly while the machine is in the \<open>send_element\<close> state: every key-down is
  followed by its key-up when the state is left, by whatever transition, and no state leaves the
  key down behind it.
\<close>

theorem key_follows_state:
  assumes "keyer_run E k"
  shows "key_line (trace k) \<longleftrightarrow> current_state (data k) = Some St_send_element"
proof -
  from assms have "key_ok k"
  proof induction
    case (run_record k slot)
    then show ?case by (simp add: key_ok_def start_recording_def)
  next
    case (run_stop_play k)
    then show ?case by (simp add: key_ok_def stop_playing_def)
  qed (auto intro: init_key_ok start_playing_key_ok quiet_key_ok [OF winkeyer_data_quiet]
      quiet_key_ok [OF quiet_stop_recording] quiet_key_ok [OF quiet_modify_profile]
      quiet_key_ok [OF set_profile_quiet] update_loop_key_ok simp: update_def)
  then show ?thesis by (simp add: key_ok_def)
qed

theorem key_follows_state_witness:
  "\<exists>k. keyer_run still_env k \<and> key_line (trace k) \<and> current_state (data k) = Some St_send_element"
proof -
  have "keyer_run still_env init_keyer" by (rule run_init [OF init_value])
  then have "keyer_run still_env (buffer_byte 65 init_keyer)"
    by (rule run_byte [OF _ _ demo_byte])
      (simp add: completes_key_command_def init_keyer_def keyer_internal_state_zero_def)
  then have r: "keyer_run still_env demo_keyer" by (rule run_update [OF _ demo_update])
  have "current_state (data demo_keyer) = Some St_send_element" by (simp add: demo_keyer_def)
  then show ?thesis using r key_follows_state [OF r] by blast
qed

end
