(* ===== verification/Keyer_Text.thy ===== *)
theory Keyer_Text
  imports Keyer_Key_Line
begin

text \<open>
  Sending text: what the keyer has sent and what it has still to send. The elements sent so far,
  followed by the rest of the pattern being sent and the patterns of the characters in the buffer,
  are the same sequence before and after every tick; so nothing is lost, repeated or reordered.
\<close>

section \<open>Sent and pending elements\<close>

fun element_of_event :: "hw_event \<Rightarrow> element list" where
  "element_of_event Dit_on = [El_dit]"
| "element_of_event Dah_on = [El_dah]"
| "element_of_event _ = []"

definition elements_of :: "hw_event list \<Rightarrow> element list" where
  "elements_of es = concat (map element_of_event es)"

lemma elements_of_append [simp]: "elements_of (es @ fs) = elements_of es @ elements_of fs"
  by (simp add: elements_of_def)

lemma elements_of_Cons [simp]: "elements_of (e # es) = element_of_event e @ elements_of es"
  by (simp add: elements_of_def)

lemma elements_of_Nil [simp]: "elements_of [] = []"
  by (simp add: elements_of_def)

definition char_elements :: "u8 \<Rightarrow> element list" where
  "char_elements c = (case get_char_pattern c of None \<Rightarrow> [] | Some p \<Rightarrow> pattern_elements p)"

definition remaining :: "keyer_internal_state \<Rightarrow> element list" where
  "remaining d = map (element_at (playing_data d)) (rev [0..<unat (playing_bit d)])"

definition pending :: "keyer_internal_state \<Rightarrow> element list" where
  "pending d = remaining d @ concat (map char_elements (cb_list (winkeyer_buffer d)))"

text \<open>Text mode: no paddle is touched, no memory is playing, and the buffer holds characters
  only, no commands.\<close>

definition text_ok :: "keyer_internal_state \<Rightarrow> bool" where
  "text_ok d \<longleftrightarrow>
     \<not> dit_buffered d \<and> \<not> dah_buffered d \<and> \<not> is_playing d \<and> playing_bit d \<le> 32
     \<and> cb_inv (winkeyer_buffer d) \<and> list_all (\<lambda>c. 0x20 \<le> c) (cb_list (winkeyer_buffer d))"

definition state_ok :: "state_type \<Rightarrow> keyer_internal_state \<Rightarrow> bool" where
  "state_ok s d \<longleftrightarrow>
     s \<noteq> St_play \<and> (s = St_inter_word_space \<longrightarrow> winkeyer_enabled d)"

definition text_mode :: "keyer \<Rightarrow> bool" where
  "text_mode k \<longleftrightarrow>
     text_ok (data k)
     \<and> (case current_state (data k) of
          None \<Rightarrow> True
        | Some s \<Rightarrow> state_ok s (data k) \<and> (s = St_winkeyer \<longrightarrow> winkeyer_enabled (data k)))"

definition untouched :: "hw_env \<Rightarrow> bool" where
  "untouched E \<longleftrightarrow> (\<forall>n side. \<not> pressed E n side)"

text \<open>The fields text mode depends on.\<close>

definition same_text :: "keyer_internal_state \<Rightarrow> keyer_internal_state \<Rightarrow> bool" where
  "same_text d d' \<longleftrightarrow>
     dit_buffered d' = dit_buffered d \<and> dah_buffered d' = dah_buffered d
     \<and> is_playing d' = is_playing d \<and> playing_bit d' = playing_bit d
     \<and> playing_data d' = playing_data d \<and> winkeyer_buffer d' = winkeyer_buffer d
     \<and> (winkeyer_enabled d \<longrightarrow> winkeyer_enabled d') \<and> current_state d' = current_state d"

lemma same_text_refl [simp]: "same_text d d"
  by (simp add: same_text_def)

lemma same_text_pending: "same_text d d' \<Longrightarrow> pending d' = pending d"
  by (simp add: same_text_def pending_def remaining_def)

lemma same_text_ok: "same_text d d' \<Longrightarrow> text_ok d \<Longrightarrow> text_ok d'"
  by (simp add: same_text_def text_ok_def)

lemma same_text_state: "same_text d d' \<Longrightarrow> state_ok s d \<Longrightarrow> state_ok s d'"
  by (auto simp: same_text_def state_ok_def)

section \<open>One update of a state\<close>

lemma check_dit_untouched: "untouched E \<Longrightarrow> data (check_dit_paddle E k) = data k"
  by (simp add: untouched_def check_dit_paddle_def is_paddle_pressed_def)

lemma check_dah_untouched: "untouched E \<Longrightarrow> data (check_dah_paddle E k) = data k"
  by (simp add: untouched_def check_dah_paddle_def is_paddle_pressed_def)

lemma check_frame [simp]:
  "trace (check_dit_paddle E k) = trace k" "trace (check_dah_paddle E k) = trace k"
  by (simp_all add: check_dit_paddle_def check_dah_paddle_def is_paddle_pressed_def)

lemma poll_untouched:
  assumes "untouched E" "text_ok (data k)"
  shows "data (poll_paddles E k) = (data k)\<lparr>paddles := Paddle_none\<rparr>"
  using assms
  by (simp add: poll_paddles_def Let_def check_dit_untouched check_dah_untouched text_ok_def)

lemma poll_same: "same_text d (d\<lparr>paddles := p\<rparr>)"
  by (simp add: same_text_def)

lemma memory_store_same: "memory_store s i c k = Some k' \<Longrightarrow> same_text (data k) (data k') \<and> trace k' = trace k"
  by (auto simp: memory_store_def same_text_def split: if_splits)

lemma same_text_trans: "same_text a b \<Longrightarrow> same_text b c \<Longrightarrow> same_text a c"
  by (simp add: same_text_def)

lemma stop_recording_same:
  "stop_recording k = Some k' \<Longrightarrow> same_text (data k) (data k') \<and> elements_of (trace k') = elements_of (trace k)"
  by (auto simp: stop_recording_def Let_def bind_eq_Some_conv memory_store_def same_text_def split: if_splits)

lemma add_char_same:
  "add_char_to_recording_memory c k = Some k'
   \<Longrightarrow> same_text (data k) (data k') \<and> elements_of (trace k') = elements_of (trace k)"
  by (auto simp: add_char_to_recording_memory_def Let_def bind_eq_Some_conv split: if_splits
      dest!: memory_store_same stop_recording_same) (auto simp: same_text_def)

lemma report_char_same:
  "report_char c k = Some k'
   \<Longrightarrow> same_text (data k) (data k') \<and> elements_of (trace k') = elements_of (trace k)"
  by (auto simp: report_char_def Let_def split: if_splits dest!: add_char_same)

text \<open>What an update of a state does in text mode: it takes the first pending element to send it,
  or leaves the pending elements alone.\<close>

definition takes_or_keeps :: "state_type \<Rightarrow> keyer \<Rightarrow> state_type \<Rightarrow> keyer \<Rightarrow> bool" where
  "takes_or_keeps s k n k' \<longleftrightarrow>
     text_ok (data k') \<and> state_ok n (data k') \<and> elements_of (trace k') = elements_of (trace k)
     \<and> current_state (data k') = current_state (data k)
     \<and> (winkeyer_enabled (data k) \<longrightarrow> winkeyer_enabled (data k'))
     \<and> (if n = St_send_element \<and> s \<noteq> St_send_element
        then sent_element (data k') \<noteq> El_none
             \<and> pending (data k) = sent_element (data k') # pending (data k')
        else pending (data k') = pending (data k))"

lemma keeps:
  assumes "same_text (data k) (data k')" "elements_of (trace k') = elements_of (trace k)"
    "text_ok (data k)" "state_ok n (data k')" "n = St_send_element \<longrightarrow> s = St_send_element"
  shows "takes_or_keeps s k n k'"
  using assms same_text_pending [OF assms(1)] same_text_ok [OF assms(1)]
  by (auto simp: takes_or_keeps_def same_text_def)

lemma send_next_bit_takes:
  assumes "send_next_bit k = Some (n, k')" "text_ok (data k)"
  shows "n = St_send_element \<and> trace k' = trace k \<and> text_ok (data k') \<and> sent_element (data k') \<noteq> El_none
    \<and> current_state (data k') = current_state (data k)
    \<and> winkeyer_enabled (data k') = winkeyer_enabled (data k)
    \<and> pending (data k) = sent_element (data k') # pending (data k')"
proof -
  let ?b = "playing_bit (data k)"
  have b: "?b \<noteq> 0" and k': "n = St_send_element"
    "k' = k\<lparr>data := (data k)\<lparr>playing_bit := ?b - 1,
        sent_element := element_at (playing_data (data k)) (unat (?b - 1))\<rparr>\<rparr>"
    using assms(1) by (auto simp: send_next_bit_def Let_def split: if_splits)
  have u: "unat ?b = Suc (unat (?b - 1))" using b by (simp add: unat_minus_one unat_gt_0)
  then have "?b - 1 \<le> 32" using assms(2) by (simp add: text_ok_def word_le_nat_alt)
  then show ?thesis
    using k' u assms(2) by (simp add: text_ok_def pending_def remaining_def element_at_def)
qed

lemma pattern_loaded:
  assumes "get_char_pattern c = Some p"
  shows "remaining ((data k)\<lparr>playing_data := cp_data p, playing_bit := cp_bits p\<rparr>) = char_elements c"
    and "0 < cp_bits p" "cp_bits p \<le> 32"
proof -
  have "p \<in> set char_table" using get_char_pattern_in [OF assms] by simp
  then have "1 \<le> cp_bits p" "cp_bits p \<le> 7" using table_bounds by (auto simp: list_all_iff)
  then show "0 < cp_bits p" "cp_bits p \<le> 32" by unat_arith+
  show "remaining ((data k)\<lparr>playing_data := cp_data p, playing_bit := cp_bits p\<rparr>) = char_elements c"
    using assms by (simp add: remaining_def char_elements_def pattern_elements_def)
qed

lemma bar_has_no_elements: "char_elements (of_char (CHR ''|'')) = []"
  by (simp add: char_elements_def get_char_pattern_def char_table_def pat_def)

lemma winkeyer_update_step:
  assumes "winkeyer_update E now k = Some (n, k')" "untouched E" "text_ok (data k)" "winkeyer_enabled (data k)"
  shows "takes_or_keeps St_winkeyer k n k'"
proof -
  define k1 where "k1 = poll_paddles E k"
  have d1: "data k1 = (data k)\<lparr>paddles := Paddle_none\<rparr>" and t1: "trace k1 = trace k"
    using poll_untouched [OF assms(2,3)] by (simp_all add: k1_def)
  have ok1: "text_ok (data k1)" using d1 same_text_ok [OF poll_same assms(3)] by simp
  have pn: "paddles (data k1) = Paddle_none" by (simp add: d1)
  let ?B = "winkeyer_buffer (data k1)"
  have same: "takes_or_keeps St_winkeyer k n k'"
    if "data k' = data k1" "trace k' = trace k1" "n \<in> {St_winkeyer, St_autospace}"
    using that assms(3) by (intro keeps) (auto simp: d1 t1 poll_same state_ok_def)
  have bit: "takes_or_keeps St_winkeyer k n k'"
    if "send_next_bit k2 = Some (n, k')" "text_ok (data k2)" "trace k2 = trace k"
      "pending (data k2) = pending (data k)" "current_state (data k2) = current_state (data k)"
      "winkeyer_enabled (data k2)" for k2
    using send_next_bit_takes [OF that(1,2)] that(3-6) by (simp add: takes_or_keeps_def state_ok_def)
  show ?thesis
  proof (cases "playing_bit (data k1) = 0 \<and> wk_inter_char_space_played k1 \<and> \<not> cb_empty ?B")
    case False
    then show ?thesis
      using assms(1,4) same bit [of k1] ok1 d1 t1 pn same_text_pending [OF poll_same]
      by (auto simp: winkeyer_update_def Let_def k1_def [symmetric] split: if_splits)
  next
    case True
    have inv: "cb_inv ?B" using ok1 by (simp add: text_ok_def)
    obtain c cs where B: "cb_list ?B = c # cs"
      using True cb_empty_iff [OF inv] by (cases "cb_list ?B") auto
    have peek: "cb_peek ?B = c" using cb_peek_value [OF inv] B by simp
    have "0x20 \<le> c" using ok1 B by (simp add: text_ok_def)
    then have cmd: "\<not> is_winkeyer_command c" unfolding is_winkeyer_command_def by unat_arith
    define k2 where "k2 = data_update (winkeyer_buffer_update (\<lambda>b. snd (cb_get b))) k1"
    have rest: "cb_list (snd (cb_get ?B)) = cs" using cb_list_get [OF inv] B by simp
    have r0: "remaining (data k1) = []" using True by (simp add: remaining_def)
    have ok2: "text_ok (data k2)"
      using ok1 B rest by (simp add: k2_def text_ok_def cb_inv_get)
    have pend: "pending (data k) = char_elements c @ pending (data k2)"
      using r0 B rest
      by (simp add: d1 k2_def pending_def remaining_def)
    have r2: "pending (data k2) = concat (map char_elements cs)"
      using r0 rest by (simp add: k2_def pending_def remaining_def)
    show ?thesis
    proof (cases "get_char_pattern c")
      case None
      then have "data k' = data k2" "trace k' = trace k2" "n \<in> {St_half_dot_gap, St_inter_word_space}"
        using assms(1) True peek cmd pn
        by (auto simp: winkeyer_update_def Let_def k1_def [symmetric] k2_def [symmetric] split: if_splits)
      then show ?thesis
        using None pend ok2 t1 d1 assms(4)
        by (auto simp: takes_or_keeps_def state_ok_def char_elements_def k2_def)
    next
      case (Some p)
      then have "c \<noteq> of_char (CHR ''|'')"
        by (auto simp: get_char_pattern_def char_table_def pat_def)
      then have s: "send_next_bit (load_pattern p k2\<lparr>wk_inter_char_space_played := False\<rparr>) = Some (n, k')"
        using assms(1) True peek cmd pn Some
        by (simp add: winkeyer_update_def Let_def k1_def [symmetric] k2_def [symmetric] split: if_splits)
      show ?thesis
        using pattern_loaded [OF Some] ok2 pend r2 rest t1 d1 assms(4)
        by (intro bit [OF s])
          (auto simp: load_pattern_def text_ok_def pending_def remaining_def k2_def)
    qed
  qed
qed

lemma idle_update_step:
  assumes "idle_update E now k = Some (n, k')" "untouched E" "text_ok (data k)"
  shows "takes_or_keeps St_idle k n k'"
proof -
  define k1 where "k1 = poll_paddles E k"
  have d1: "data k1 = (data k)\<lparr>paddles := Paddle_none\<rparr>" and t1: "trace k1 = trace k"
    using poll_untouched [OF assms(2,3)] by (simp_all add: k1_def)
  have nb: "\<not> dit_buffered (data k1)" "\<not> dah_buffered (data k1)"
    using assms(3) by (simp_all add: d1 text_ok_def)
  have "same_text (data k1) (data k') \<and> elements_of (trace k') = elements_of (trace k1) \<and> n \<in> {St_idle, St_winkeyer}"
    using assms(1) nb
    by (auto simp: idle_update_def Let_def k1_def [symmetric] bind_eq_Some_conv current_ms_def
        split: if_splits prod.splits dest!: report_char_same) (auto simp: same_text_def)
  moreover have "same_text (data k) (data k1)" by (simp add: d1 poll_same)
  ultimately show ?thesis
    using assms(3) t1 by (intro keeps) (auto simp: state_ok_def intro: same_text_trans)
qed

lemma state_update_step:
  assumes "state_update E s now k = Some (n, k')" "untouched E" "text_ok (data k)" "state_ok s (data k)"
    and "s = St_winkeyer \<longrightarrow> winkeyer_enabled (data k)"
  shows "takes_or_keeps s k n k'"
proof (cases s)
  case St_send_element
  then show ?thesis
    using assms
    by (intro keeps) (auto simp: send_element_update_def Let_def check_dit_untouched check_dah_untouched
        state_ok_def split: if_splits)
next
  case St_inter_element_space
  then show ?thesis
    using assms poll_untouched [OF assms(2)]
    by (intro keeps) (auto simp: inter_element_space_update_def Let_def check_dit_untouched
        check_dah_untouched state_ok_def bind_eq_Some_conv poll_same text_ok_def split: if_splits)
next
  case St_inter_word_space
  then show ?thesis
    using assms poll_untouched [OF assms(2,3)]
    by (intro keeps) (auto simp: inter_word_space_update_def Let_def current_ms_def same_text_def
        state_ok_def split: if_splits)
next
  case St_idle
  then show ?thesis using assms idle_update_step by simp
next
  case St_winkeyer
  then show ?thesis using assms winkeyer_update_step by simp
next
  case St_play
  then show ?thesis using assms(4) by (simp add: state_ok_def)
qed (use assms in \<open>auto intro!: keeps simp: autospace_update_def half_dot_gap_update_def current_ms_def
      after_space_def state_ok_def text_ok_def split: if_splits\<close>)

section \<open>Ticks\<close>

lemma state_exit_same:
  "state_exit E s k = Some k'
   \<Longrightarrow> same_text (data k) (data k') \<and> elements_of (trace k') = elements_of (trace k)
      \<and> sent_element (data k') = sent_element (data k)"
  by (auto simp: send_element_exit_def set_sidetone_and_tx_def current_ms_def bind_eq_Some_conv Let_def
      same_text_def split: if_splits)

lemma send_element_enter_emits:
  assumes "send_element_enter E k = Some k'" "sent_element (data k) \<noteq> El_none" "text_ok (data k)"
  shows "text_ok (data k') \<and> pending (data k') = pending (data k)
    \<and> current_state (data k') = current_state (data k)
    \<and> elements_of (trace k') = elements_of (trace k) @ [sent_element (data k)]"
  using assms
  by (cases "sent_element (data k)")
    (auto simp: send_element_enter_def set_sidetone_and_tx_def current_ms_def bind_eq_Some_conv Let_def
      text_ok_def pending_def remaining_def split: if_splits)

lemma other_enter_same:
  assumes "state_enter E s k = Some k'" "s \<noteq> St_send_element"
  shows "same_text (data k) (data k') \<and> elements_of (trace k') = elements_of (trace k)
    \<and> (s = St_winkeyer \<longrightarrow> winkeyer_enabled (data k'))"
  using assms
  by (cases s) (auto simp: idle_enter_def inter_element_space_enter_def inter_word_space_enter_def
      autospace_enter_def winkeyer_enter_def half_dot_gap_enter_def bind_eq_Some_conv Let_def
      current_ms_def same_text_def)

lemma text_fields_current_state [simp]:
  "text_ok (d\<lparr>current_state := c\<rparr>) = text_ok d" "pending (d\<lparr>current_state := c\<rparr>) = pending d"
  "state_ok s (d\<lparr>current_state := c\<rparr>) = state_ok s d"
  by (simp_all add: text_ok_def pending_def remaining_def state_ok_def)

lemma switch_to_step:
  assumes "switch_to E n k = Some k'" "current_state (data k) = Some s" "n \<noteq> s"
    and "text_ok (data k)" "state_ok n (data k)" "n = St_send_element \<longrightarrow> sent_element (data k) \<noteq> El_none"
  shows "text_mode k' \<and> pending (data k') = pending (data k)
    \<and> elements_of (trace k') =
        elements_of (trace k) @ (if n = St_send_element then [sent_element (data k)] else [])"
proof -
  obtain k1 where e: "state_exit E s k = Some k1"
    and n: "state_enter E n (data_update (current_state_update (\<lambda>_. Some n)) k1) = Some k'"
    using assms(1-3) by (auto simp: switch_to_def bind_eq_Some_conv simp del: state_exit.simps)
  note x = state_exit_same [OF e]
  have ok: "text_ok (data k1)" "state_ok n (data k1)" "pending (data k1) = pending (data k)"
    using x assms(4,5) same_text_ok same_text_state same_text_pending by blast+
  show ?thesis
  proof (cases "n = St_send_element")
    case True
    then show ?thesis
      using send_element_enter_emits [of E "data_update (current_state_update (\<lambda>_. Some n)) k1" k'] n ok x assms(6)
      by (simp add: text_mode_def state_ok_def)
  next
    case False
    note y = other_enter_same [OF n False]
    define d where "d = (data k1)\<lparr>current_state := Some n\<rparr>"
    have d: "same_text d (data k')" using y by (simp add: d_def)
    have "text_ok (data k')" "state_ok n (data k')" "pending (data k') = pending (data k)"
      using same_text_ok [OF d] same_text_state [OF d] same_text_pending [OF d] ok by (simp_all add: d_def)
    moreover have "current_state (data k') = Some n" using d by (simp add: same_text_def d_def)
    ultimately show ?thesis using y x False by (simp add: text_mode_def)
  qed
qed

lemma update_loop_conserves:
  "update_loop E n k = Some k' \<Longrightarrow> untouched E \<Longrightarrow> text_mode k
   \<Longrightarrow> text_mode k' \<and> elements_of (trace k') @ pending (data k') = elements_of (trace k) @ pending (data k)"
proof (induction n arbitrary: k)
  case (Suc n)
  show ?case
  proof (cases "current_state (data k)")
    case None
    then show ?thesis using Suc.prems by simp
  next
    case (Some s)
    define k0 where "k0 = snd (current_ms E k)"
    have k0: "data k0 = data k" "trace k0 = trace k" by (simp_all add: k0_def current_ms_def)
    have st: "text_ok (data k0)" "state_ok s (data k0)" "s = St_winkeyer \<longrightarrow> winkeyer_enabled (data k0)"
      using Suc.prems(3) Some by (simp_all add: text_mode_def k0)
    obtain m k1 where u: "state_update E s (clk E (reads k)) k0 = Some (m, k1)"
      and rest: "(if Some m = current_state (data k1) then Some k1
                  else Option.bind (switch_to E m k1) (update_loop E n)) = Some k'"
      using Suc.prems(1) Some by (auto simp: bind_eq_Some_conv current_ms_def k0_def split: if_splits)
    note t = state_update_step [OF u Suc.prems(2) st, unfolded takes_or_keeps_def k0]
    show ?thesis
    proof (cases "m = s")
      case True
      then show ?thesis using t rest st Some Suc.prems(3) u
        by (auto simp: text_mode_def)
    next
      case False
      then obtain k2 where k2: "switch_to E m k1 = Some k2" "update_loop E n k2 = Some k'"
        using rest t Some by (auto simp: bind_eq_Some_conv)
      have "text_mode k2 \<and> elements_of (trace k2) @ pending (data k2) = elements_of (trace k) @ pending (data k)"
        using switch_to_step [OF k2(1), of s] t False Some by (auto split: if_splits)
      then show ?thesis using Suc.IH [OF k2(2) Suc.prems(2)] by simp
    qed
  qed
qed simp

section \<open>Runs\<close>

text \<open>Ticks of the keyer thread and characters of the client, interleaved in any order: \<open>cs\<close> are
  the characters put into the buffer on the way, none of them into a full buffer or as the argument of
  a command.\<close>

inductive text_run :: "hw_env \<Rightarrow> keyer \<Rightarrow> u8 list \<Rightarrow> keyer \<Rightarrow> bool" for E k where
  text_start: "text_run E k [] k"
| text_tick: "text_run E k cs k1 \<Longrightarrow> update E k1 = Some k2 \<Longrightarrow> text_run E k cs k2"
| text_byte: "text_run E k cs k1 \<Longrightarrow> 0x20 \<le> c \<Longrightarrow> \<not> cb_full (winkeyer_buffer (data k1))
     \<Longrightarrow> winkeyer_waiting_for_arguments (data k1) = 0 \<Longrightarrow> winkeyer_data c k1 = Some k2
     \<Longrightarrow> text_run E k (cs @ [c]) k2"

lemma text_byte_pending:
  assumes "winkeyer_data c k = Some k'" "winkeyer_waiting_for_arguments (data k) = 0" "0x20 \<le> c"
    "\<not> cb_full (winkeyer_buffer (data k))" "text_mode k"
  shows "text_mode k' \<and> pending (data k') = pending (data k) @ char_elements c \<and> trace k' = trace k"
proof -
  have "\<not> is_winkeyer_command c" using assms(3) unfolding is_winkeyer_command_def by unat_arith
  then have "k' = buffer_byte c k" using assms(1,2) by (auto simp: winkeyer_data_def Let_def)
  then show ?thesis
    using assms(3,4,5)
    by (auto simp: text_mode_def text_ok_def state_ok_def buffer_byte_def pending_def remaining_def
        cb_full_def cb_list_put_free cb_inv_put split: option.splits)
qed

text \<open>
  (C12) In text mode, over any interleaving of ticks and characters, the elements sent so far
  followed by the elements still to be sent are what they were at the start followed by the Morse
  patterns of the characters received, in order: no element is lost, duplicated or reordered, and a
  character without a pattern contributes none.
\<close>

theorem text_sent_in_order:
  assumes "text_run E k cs k'" "untouched E" "text_mode k"
  shows "elements_of (trace k') @ pending (data k') =
    elements_of (trace k) @ pending (data k) @ concat (map char_elements cs)"
proof -
  from assms(1) have "text_mode k' \<and> elements_of (trace k') @ pending (data k') =
    elements_of (trace k) @ pending (data k) @ concat (map char_elements cs)"
  proof induction
    case (text_tick cs k1 k2)
    then show ?case using update_loop_conserves [OF _ assms(2)] by (auto simp: update_def)
  next
    case (text_byte cs k1 c k2)
    then show ?case using text_byte_pending [of c k1 k2] by simp
  qed (use assms(3) in simp)
  then show ?thesis by simp
qed

theorem text_sent_in_order_witness:
  "\<exists>k'. text_run still_env init_keyer [65] k' \<and> untouched still_env \<and> text_mode init_keyer
     \<and> elements_of (trace k') @ pending (data k') = [El_dit, El_dah]
     \<and> elements_of (trace k') = [El_dit]"
proof -
  have b: "data init_keyer = keyer_internal_state_zero\<lparr>current_state := Some St_idle, mode := Mode_iambic_a,
               winkeyer_speed_wpm := Fin 24\<rparr>" "trace init_keyer = []"
    by (simp_all add: init_keyer_def keyer_zero_def)
  have l: "cb_list (circular_buffer_new (replicate 160 (0::u8))) = []" by (rule cb_list_new)
  have m: "text_mode init_keyer"
    by (simp add: b text_mode_def text_ok_def state_ok_def keyer_internal_state_zero_def l cb_inv_new)
  have "text_run still_env init_keyer ([] @ [65]) (buffer_byte 65 init_keyer)"
    by (rule text_byte [OF text_start _ _ _ demo_byte])
      (simp_all add: b keyer_internal_state_zero_def cb_full_def circular_buffer_new_def)
  then have r: "text_run still_env init_keyer [65] demo_keyer" using text_tick [OF _ demo_update] by simp
  have u: "untouched still_env" by (simp add: untouched_def still_env_def)
  have a: "char_elements 65 = [El_dit, El_dah]" by code_simp
  have "pending (data init_keyer) = []"
    by (simp add: b pending_def remaining_def keyer_internal_state_zero_def l)
  then have "elements_of (trace demo_keyer) @ pending (data demo_keyer) = [El_dit, El_dah]"
    using text_sent_in_order [OF r u m] b(2) a by simp
  moreover have "elements_of (trace demo_keyer) = [El_dit]" by (simp add: demo_keyer_def)
  ultimately show ?thesis using r u m by blast
qed

end
