(* ===== verification/String_Util.thy ===== *)
theory String_Util
  imports Prelude
begin

text \<open>
  \<open>src/string_util.h\<close> on \<open>string\<close> (lists of 8-bit characters), and the two functions of the
  C++ library the sources parse and print numbers with: \<open>std::stoi\<close> and \<open>std::to_string\<close>.
  \<open>std::string::npos\<close> is \<open>None\<close>. A loop of the header that does not end for every argument
  is a \<^theory_text>\<open>partial_function\<close>, with the proof that it returns for the arguments used.
\<close>

section \<open>Trimming and searching\<close>

definition whitespace :: string where
  "whitespace = [CHR 0x09, CHR 0x0A, CHR 0x0B, CHR 0x0C, CHR 0x0D, CHR '' '']"

definition ltrim :: "string \<Rightarrow> string \<Rightarrow> string" where
  "ltrim str chars = dropWhile (\<lambda>c. c \<in> set chars) str"

definition rtrim :: "string \<Rightarrow> string \<Rightarrow> string" where
  "rtrim str chars = rev (dropWhile (\<lambda>c. c \<in> set chars) (rev str))"

definition trim :: "string \<Rightarrow> string" where
  "trim str = ltrim (rtrim str whitespace) whitespace"

definition starts_with :: "string \<Rightarrow> string \<Rightarrow> bool" where
  "starts_with haystack needle = (take (length needle) haystack = needle)"

text \<open>\<open>std::string::find\<close>: the first occurrence, searched from a position.\<close>

fun find_sub :: "string \<Rightarrow> string \<Rightarrow> nat option" where
  "find_sub needle hay =
     (if starts_with hay needle then Some 0
      else case hay of [] \<Rightarrow> None | _ # t \<Rightarrow> map_option Suc (find_sub needle t))"

declare find_sub.simps [simp del]

definition str_find :: "string \<Rightarrow> string \<Rightarrow> nat \<Rightarrow> nat option" where
  "str_find str needle pos =
     (if pos \<le> length str then map_option ((+) pos) (find_sub needle (drop pos str)) else None)"

definition string_contains :: "string \<Rightarrow> string \<Rightarrow> bool" where
  "string_contains haystack needle = (find_sub needle haystack \<noteq> None)"

lemma find_sub_Some:
  "find_sub needle hay = Some i \<Longrightarrow>
     hay = take i hay @ needle @ drop (i + length needle) hay \<and> i + length needle \<le> length hay"
proof (induction needle hay arbitrary: i rule: find_sub.induct)
  case (1 needle hay)
  show ?case
  proof (cases "starts_with hay needle")
    case True
    then have "i = 0" "take (length needle) hay = needle"
      using "1.prems" by (simp_all add: find_sub.simps [of needle hay] starts_with_def)
    then show ?thesis
      using append_take_drop_id [of "length needle" hay] length_take [of "length needle" hay]
      by (auto simp del: append_take_drop_id length_take)
  next
    case False
    with "1.prems" obtain c t j where "hay = c # t" "find_sub needle t = Some j" "i = Suc j"
      by (auto simp: find_sub.simps [of needle hay] split: list.splits)
    with "1.IH" [OF False, of c t j] show ?thesis by simp
  qed
qed

lemma find_sub_None: "find_sub needle hay = None \<Longrightarrow> hay \<noteq> xs @ needle @ ys"
proof (induction needle hay arbitrary: xs rule: find_sub.induct)
  case (1 needle hay)
  then have no: "\<not> starts_with hay needle"
    by (auto simp: find_sub.simps [of needle hay] split: if_splits)
  show ?case
  proof (cases xs)
    case Nil
    with no show ?thesis by (auto simp: starts_with_def)
  next
    case (Cons x xs')
    with 1 no show ?thesis
      by (auto simp: find_sub.simps [of needle hay] split: list.splits)
  qed
qed

lemma string_contains_iff:
  "string_contains hay needle \<longleftrightarrow> (\<exists>xs ys. hay = xs @ needle @ ys)"
proof (cases "find_sub needle hay")
  case None
  then show ?thesis using find_sub_None by (auto simp: string_contains_def)
next
  case (Some i)
  then show ?thesis using find_sub_Some [OF Some] by (auto simp: string_contains_def)
qed

text \<open>The occurrence that is found is the first one: nothing before it contains the needle.\<close>

lemma find_sub_first:
  "find_sub needle hay = Some i \<Longrightarrow> hay = xs @ needle @ ys \<Longrightarrow> i \<le> length xs"
proof (induction needle hay arbitrary: i xs rule: find_sub.induct)
  case (1 needle hay)
  show ?case
  proof (cases "starts_with hay needle")
    case True
    then show ?thesis using "1.prems"(1) by (simp add: find_sub.simps [of needle hay])
  next
    case False
    with "1.prems"(1) obtain c t j where t: "hay = c # t" "find_sub needle t = Some j" "i = Suc j"
      by (auto simp: find_sub.simps [of needle hay] split: list.splits)
    moreover from False "1.prems"(2) t(1) obtain xs' where "xs = c # xs'" "t = xs' @ needle @ ys"
      by (cases xs) (auto simp: starts_with_def)
    ultimately show ?thesis using "1.IH" [OF False, of c t j xs'] by simp
  qed
qed

lemma before_first: "find_sub d u = Some j \<Longrightarrow> d \<noteq> [] \<Longrightarrow> \<not> string_contains (take j u) d"
proof
  assume f: "find_sub d u = Some j" "d \<noteq> []" and "string_contains (take j u) d"
  then obtain xs ys where c: "take j u = xs @ d @ ys" by (auto simp: string_contains_iff)
  then have "u = xs @ d @ ys @ drop j u" by (metis append.assoc append_take_drop_id)
  then have "j \<le> length xs" using find_sub_first [OF f(1)] by metis
  moreover have "length xs + length d \<le> j" using arg_cong [OF c, of length] by simp
  ultimately show False using f(2) by (cases d) auto
qed

section \<open>Replacing and splitting\<close>

text \<open>\<open>replace_all\<close> searches from behind the text it has just inserted; the rest it has not
  looked at gets shorter by the length of \<open>from\<close>.\<close>

function replace_loop :: "string \<Rightarrow> string \<Rightarrow> string \<Rightarrow> nat \<Rightarrow> string" where
  "replace_loop pat to str start_pos =
     (if pat = [] then str
      else case str_find str pat start_pos of
             None \<Rightarrow> str
           | Some p \<Rightarrow> replace_loop pat to (take p str @ to @ drop (p + length pat) str)
                         (p + length to))"
  by pat_completeness auto
termination
proof (relation "measure (\<lambda>(pat, to, str, start_pos). length str - start_pos)", goal_cases)
  case (2 pat to str start_pos p)
  then obtain j where "p = start_pos + j" "find_sub pat (drop start_pos str) = Some j"
    "start_pos \<le> length str"
    by (auto simp: str_find_def split: if_splits)
  with find_sub_Some [of pat "drop start_pos str" j] 2(1) show ?case
    by (cases pat) auto
qed simp

definition replace_all :: "string \<Rightarrow> string \<Rightarrow> string \<Rightarrow> string" where
  "replace_all str pat to = (if pat = [] then str else replace_loop pat to str 0)"

text \<open>With an empty delimiter the loop of \<open>split_string\<close> would not end.\<close>

partial_function (option) split_loop ::
    "string \<Rightarrow> string \<Rightarrow> nat \<Rightarrow> string list \<Rightarrow> string list option" where
  "split_loop input delimiter pos acc =
     (case str_find input delimiter pos of
        None \<Rightarrow> Some (acc @ [drop pos input])
      | Some nxt \<Rightarrow> split_loop input delimiter (nxt + length delimiter)
                       (acc @ [take (nxt - pos) (drop pos input)]))"

declare split_loop.simps [code]

definition split_string :: "string \<Rightarrow> string \<Rightarrow> string list option" where
  "split_string input delimiter = split_loop input delimiter 0 []"

text \<open>Joining with the delimiter, the inverse of splitting.\<close>

fun join :: "string \<Rightarrow> string list \<Rightarrow> string" where
  "join d [] = []"
| "join d [x] = x"
| "join d (x # xs) = x @ d @ join d xs"

lemma join_Cons: "xs \<noteq> [] \<Longrightarrow> join d (x # xs) = x @ d @ join d xs"
  by (cases xs) simp_all

lemma split_loop_correct:
  assumes "d \<noteq> []" "pos \<le> length s"
  shows "\<exists>ps. split_loop s d pos acc = Some (acc @ ps) \<and> ps \<noteq> [] \<and> join d ps = drop pos s
    \<and> (\<forall>p \<in> set ps. \<not> string_contains p d)"
  using assms(2)
proof (induction "length s - pos" arbitrary: pos acc rule: less_induct)
  case less
  show ?case
  proof (cases "find_sub d (drop pos s)")
    case None
    then show ?thesis
      using less.prems by (subst split_loop.simps) (simp add: str_find_def string_contains_def)
  next
    case (Some j)
    let ?nxt = "pos + j"
    from find_sub_Some [OF Some] have j: "drop pos s = take j (drop pos s) @ d @ drop (?nxt + length d) s"
      and bound: "?nxt + length d \<le> length s"
      using less.prems by (auto simp: add.commute add.left_commute)
    moreover have "length s - (?nxt + length d) < length s - pos"
      using bound assms(1) by (cases d) auto
    ultimately obtain ps where
      "split_loop s d (?nxt + length d) (acc @ [take j (drop pos s)]) = Some (acc @ [take j (drop pos s)] @ ps)"
      "ps \<noteq> []" "join d ps = drop (?nxt + length d) s" "\<forall>p \<in> set ps. \<not> string_contains p d"
      using less.hyps [of "?nxt + length d" "acc @ [take j (drop pos s)]"] by auto
    then show ?thesis
      using Some less.prems j before_first [OF Some assms(1)]
      by (subst split_loop.simps) (auto simp: str_find_def join_Cons intro!: exI [of _ "take j (drop pos s) # ps"])
  qed
qed

section \<open>Numbers\<close>

definition is_space :: "char \<Rightarrow> bool" where
  "is_space c \<longleftrightarrow> c \<in> set whitespace"

definition is_digit :: "char \<Rightarrow> bool" where
  "is_digit c \<longleftrightarrow> 48 \<le> (of_char c :: nat) \<and> (of_char c :: nat) \<le> 57"

definition digit_value :: "char \<Rightarrow> nat" where
  "digit_value c = of_char c - 48"

definition digits_value :: "string \<Rightarrow> nat" where
  "digits_value ds = foldl (\<lambda>n c. 10 * n + digit_value c) 0 ds"

text \<open>\<open>std::stoi\<close>: leading white space, an optional sign, decimal digits, the rest ignored;
  \<open>std::invalid_argument\<close> without a digit, \<open>std::out_of_range\<close> beyond 32-bit \<open>int\<close>.\<close>

definition stoi :: "string \<Rightarrow> int result" where
  "stoi s =
     (let s1 = dropWhile is_space s;
          neg = (s1 \<noteq> [] \<and> hd s1 = CHR ''-'');
          s2 = (if s1 \<noteq> [] \<and> (hd s1 = CHR ''-'' \<or> hd s1 = CHR ''+'') then tl s1 else s1);
          ds = takeWhile is_digit s2;
          v = (if neg then - int (digits_value ds) else int (digits_value ds))
      in if ds = [] then Inl Invalid_argument
         else if v < - (2 ^ 31) \<or> v \<ge> 2 ^ 31 then Inl Out_of_range
         else Inr v)"

fun string_of_nat :: "nat \<Rightarrow> string" where
  "string_of_nat n =
     (if n < 10 then [char_of (48 + n)] else string_of_nat (n div 10) @ [char_of (48 + n mod 10)])"

declare string_of_nat.simps [simp del]

definition to_string :: "int \<Rightarrow> string" where
  "to_string i = (if i < 0 then CHR ''-'' # string_of_nat (nat (- i)) else string_of_nat (nat i))"

lemma digit_char: "n < 10 \<Longrightarrow> is_digit (char_of (48 + n)) \<and> digit_value (char_of (48 + n)) = n"
  by (simp add: is_digit_def digit_value_def)

lemma string_of_nat_digits: "list_all is_digit (string_of_nat n) \<and> string_of_nat n \<noteq> []"
proof (induction n rule: string_of_nat.induct)
  case (1 n)
  then show ?case by (auto simp: string_of_nat.simps [of n] digit_char)
qed

lemma digits_value_snoc: "digits_value (ds @ [c]) = 10 * digits_value ds + digit_value c"
  by (simp add: digits_value_def)

lemma digits_value_string_of_nat: "digits_value (string_of_nat n) = n"
proof (induction n rule: string_of_nat.induct)
  case (1 n)
  show ?case
  proof (cases "n < 10")
    case True
    then show ?thesis
      by (subst string_of_nat.simps) (simp add: digits_value_def digit_char)
  next
    case False
    with 1 show ?thesis
      by (subst string_of_nat.simps) (simp add: digits_value_snoc digit_char)
  qed
qed

lemma digit_not_sign:
  "is_digit c \<Longrightarrow> c \<noteq> CHR ''-'' \<and> c \<noteq> CHR ''+'' \<and> \<not> is_space c"
  by (auto simp: is_digit_def is_space_def whitespace_def)

lemma stoi_digits:
  assumes "list_all is_digit ds" "ds \<noteq> []" "digits_value ds < 2 ^ 31"
  shows "stoi ds = Inr (int (digits_value ds))" "stoi (CHR ''-'' # ds) = Inr (- int (digits_value ds))"
proof -
  obtain c cs where ds: "ds = c # cs" "is_digit c" using assms(1,2) by (cases ds) auto
  have take: "takeWhile is_digit cs = cs"
    using assms(1) ds(1) by (simp add: list_all_iff)
  have "int (digits_value ds) < 2 ^ 31" using assms(3) by simp
  then show "stoi ds = Inr (int (digits_value ds))"
    "stoi (CHR ''-'' # ds) = Inr (- int (digits_value ds))"
    using digit_not_sign [OF ds(2)] assms(2) ds
    by (auto simp: take stoi_def Let_def is_space_def whitespace_def)
qed

lemma stoi_to_string_nat: "n < 2 ^ 31 \<Longrightarrow> stoi (string_of_nat n) = Inr (int n)"
  using stoi_digits(1) [of "string_of_nat n"] string_of_nat_digits [of n]
  by (simp add: digits_value_string_of_nat)

section \<open>Formatting\<close>

text \<open>\<open>format\<close> over \<open>vsnprintf\<close>, which is given the size of the buffer, the format and the arguments, and
  answers with its return value and the characters it stored before the final zero. The second call, as compiled
  for C++20, writes into a string of zeros of the length the first one reported.\<close>

definition format :: "(nat \<Rightarrow> string \<Rightarrow> 'a \<Rightarrow> int \<times> string) \<Rightarrow> string \<Rightarrow> 'a \<Rightarrow> string" where
  "format vsnprintf fmt args =
     (let (r, buf) = vsnprintf 256 fmt args in
      if r < 0 then []
      else let len = nat r in
           if len < 256 then take len buf
           else let stored = snd (vsnprintf (len + 1) fmt args)
                in take len (stored @ replicate (len - length stored) (CHR 0x00)))"

text \<open>The output is complete whatever its length, because the second buffer is sized by the first answer.\<close>

lemma format_complete:
  assumes "\<forall>size. vsnprintf size fmt args = (int (length out), take (size - 1) out)"
  shows "format vsnprintf fmt args = out"
  using assms by (simp add: format_def Let_def)

lemma format_conversion_error:
  "fst (vsnprintf 256 fmt args) < 0 \<Longrightarrow> format vsnprintf fmt args = []"
  by (auto simp: format_def split: prod.splits)

text \<open>(C20) \<open>split_string\<close> returns for every non-empty delimiter and cuts at the delimiters and nowhere else: there is at least one
  piece, joining the pieces with the delimiter gives the text back, and no piece contains the delimiter.\<close>

theorem split_string_join:
  assumes "delimiter \<noteq> []"
  shows "\<exists>ps. split_string input delimiter = Some ps \<and> ps \<noteq> [] \<and> join delimiter ps = input
    \<and> (\<forall>p \<in> set ps. \<not> string_contains p delimiter)"
  using split_loop_correct [OF assms, of 0 input "[]"] by (simp add: split_string_def)

theorem split_string_join_witness:
  "\<exists>ps. split_string ''M PKTUSB -1'' '' '' = Some ps \<and> join '' '' ps = ''M PKTUSB -1'' \<and> (\<forall>p \<in> set ps. \<not> string_contains p '' '')"
  using split_string_join [of "'' ''" "''M PKTUSB -1''"] by auto

text \<open>Numbers survive the text protocols: \<open>std::stoi\<close> reads back what
  \<open>std::to_string\<close> printed, for every 32-bit \<open>int\<close> whose magnitude is an \<open>int\<close> too.\<close>

lemma stoi_to_string:
  assumes "- (2 ^ 31) < i" and "i < 2 ^ 31"
  shows "stoi (to_string i) = Inr i"
proof (cases "i < 0")
  case True
  with assms have "nat (- i) < 2 ^ 31" by simp
  with True show ?thesis
    using stoi_digits(2) [of "string_of_nat (nat (- i))"] string_of_nat_digits [of "nat (- i)"]
    by (simp add: to_string_def digits_value_string_of_nat)
next
  case False
  with assms have "nat i < 2 ^ 31" by simp
  with False show ?thesis by (simp add: to_string_def stoi_to_string_nat)
qed

end
