(* ===== verification/Cw_Daemon.thy ===== *)
theory Cw_Daemon
  imports String_Util
begin

text \<open>
  \<open>src/cw_daemon.cpp\<close>: translation of a cwdaemon datagram into WinKeyer bytes. The message is a
  list of bytes; the code reads it through a \<open>const char*\<close>, so bytes are compared as signed
  characters and a read behind the last byte is undefined behaviour. \<open>std::stoi\<close> may throw;
  nothing in this file or its caller catches it.
\<close>

section \<open>Definitions\<close>

definition toupper :: "u8 \<Rightarrow> u8" where
  "toupper c = (if 97 \<le> c \<and> c \<le> 122 then c - 32 else c)"

text \<open>\<open>*ptr > 0\<close> for a signed \<open>char\<close>.\<close>

definition char_pos :: "u8 \<Rightarrow> bool" where
  "char_pos c \<longleftrightarrow> 0 < sint c"

text \<open>The loop over the text: the bytes from \<open>ptr\<close> on, the speed and the pending half-gap flag.\<close>

function text_loop :: "u8 list \<Rightarrow> u8 \<Rightarrow> bool \<Rightarrow> u8 list \<Rightarrow> (u8 list \<times> u8) result" where
  "text_loop ptr speed is_gap acc =
     (case ptr of
        [] \<Rightarrow> Inl Undefined_behaviour
      | c # rest \<Rightarrow>
          if \<not> char_pos c then Inr (acc, speed)
          else if c = 45 then
            (let times = length (takeWhile (\<lambda>x. x = 45) ptr);
                 speed' = speed - of_nat (2 * times)
             in text_loop (dropWhile (\<lambda>x. x = 45) ptr) speed' is_gap (acc @ [0x1C, speed']))
          else if c = 43 then
            (let times = length (takeWhile (\<lambda>x. x = 43) ptr);
                 speed' = speed + of_nat (2 * times)
             in text_loop (dropWhile (\<lambda>x. x = 43) ptr) speed' is_gap (acc @ [0x1C, speed']))
          else if c = 126 then text_loop rest speed True acc
          else if 32 \<le> c then
            text_loop rest speed False
              (acc @ [toupper c] @ (if is_gap then [124, 124, 124, 124] else []))
          else text_loop rest speed is_gap acc)"
  by pat_completeness auto
termination
  by (relation "measure (\<lambda>(ptr, _). length ptr)")
    (auto simp: less_Suc_eq_le length_dropWhile_le)

declare text_loop.simps [simp del]

text \<open>The C string that starts at \<open>&buffer[2]\<close>; without a terminator the parser runs off the
  buffer.\<close>

definition c_string :: "u8 list \<Rightarrow> string result" where
  "c_string bs =
     (if 0 \<in> set bs then Inr (map (\<lambda>b. char_of (unat b)) (takeWhile (\<lambda>b. b \<noteq> 0) bs))
      else Inl Undefined_behaviour)"

definition stoi_at :: "u8 list \<Rightarrow> int result" where
  "stoi_at bs = bind_result (c_string bs) stoi"

text \<open>\<open>50 + std::stoi(...)\<close> is computed in \<open>int\<close> and stored in an \<open>unsigned char\<close>.\<close>

definition weight_of :: "int \<Rightarrow> u8 result" where
  "weight_of n =
     (if 50 + n \<ge> 2 ^ 31 then Inl Undefined_behaviour
      else let weight = of_int (50 + n) :: u8;
               weight' = (if weight < 10 then 10 else weight)
           in Inr (if weight' > 90 then 90 else weight'))"

definition escape_command :: "u8 list \<Rightarrow> u8 \<Rightarrow> u8 list result" where
  "escape_command buffer initial_speed =
     (case buffer of
        _ # cmd # args \<Rightarrow>
          if cmd = 50 then
            bind_result (stoi_at args) (\<lambda>n. Inr [0x02, of_int n])
          else if cmd = 52 then Inr [0x0A]
          else if cmd = 55 then
            bind_result (stoi_at args) (\<lambda>n. bind_result (weight_of n) (\<lambda>w. Inr [0x03, w]))
          else if cmd = 99 then
            bind_result (stoi_at args) (\<lambda>n. Inr [0x0B, 1, of_int n])
          else if cmd = 117 then
            bind_result (stoi_at args) (\<lambda>n. Inr [0x02, initial_speed + of_int n])
          else if cmd = 100 then
            bind_result (stoi_at args) (\<lambda>n. Inr [0x02, initial_speed - of_int n])
          else Inr []
      | _ \<Rightarrow> Inl Undefined_behaviour)"

definition to_winkeyer :: "u8 list \<Rightarrow> u8 \<Rightarrow> u8 list result" where
  "to_winkeyer input initial_speed =
     (if input = [] then Inl Undefined_behaviour
      else bind_result
        (if hd input \<noteq> 27 then text_loop input initial_speed False []
         else bind_result (escape_command input initial_speed) (\<lambda>out. Inr (out, initial_speed)))
        (\<lambda>(out, current_speed).
           Inr (if current_speed \<noteq> initial_speed then out @ [0x1C, initial_speed] else out)))"

definition is_tuning_command :: "u8 list \<Rightarrow> bool" where
  "is_tuning_command message \<longleftrightarrow> length message > 2 \<and> message ! 0 = 0x0B \<and> message ! 1 = 1"

section \<open>The shape of a translated text\<close>

lemma char_pos_0 [simp]: "\<not> char_pos 0"
  by (simp add: char_pos_def)

text \<open>Reading a WinKeyer stream: the speed in force after it, and the characters it sends.
  \<open>0x1C v\<close> sets the speed.\<close>

fun net_speed :: "u8 \<Rightarrow> u8 list \<Rightarrow> u8" where
  "net_speed v [] = v"
| "net_speed v [c] = v"
| "net_speed v (c # d # cs) = (if c = 0x1C then net_speed d cs else net_speed v (d # cs))"

inductive text_stream :: "u8 list \<Rightarrow> bool" where
  ts_Nil: "text_stream []"
| ts_char: "text_stream xs \<Longrightarrow> 32 \<le> c \<Longrightarrow> text_stream (xs @ [c])"
| ts_speed: "text_stream xs \<Longrightarrow> text_stream (xs @ [0x1C, v])"

lemma net_speed_snoc:
  assumes "text_stream xs"
  shows "net_speed v (xs @ ys) = net_speed (net_speed v xs) ys"
  using assms
proof (induction arbitrary: v ys rule: text_stream.induct)
  case (ts_char xs c)
  then have "c \<noteq> 0x1C" by auto
  then show ?case
    using ts_char.IH [of v "c # ys"] ts_char.IH [of v "[c]"] by (cases ys) simp_all
next
  case (ts_speed xs d)
  then show ?case
    using ts_speed.IH [of v "0x1C # d # ys"] ts_speed.IH [of v "[0x1C, d]"] by simp
qed simp

lemma gap_stream: "text_stream xs \<Longrightarrow> 32 \<le> c \<Longrightarrow> text_stream (xs @ [c, 124, 124, 124, 124])"
  using ts_char [of "xs @ [c, 124, 124, 124]" 124] ts_char [of "xs @ [c, 124, 124]" 124]
    ts_char [of "xs @ [c, 124]" 124] ts_char [of "xs @ [c]" 124] ts_char [of xs c] by simp

lemma toupper_ge: "32 \<le> c \<Longrightarrow> 32 \<le> toupper c"
  by (auto simp: toupper_def word_le_nat_alt unat_sub)

lemma text_loop_stream:
  assumes "text_loop ptr speed gap acc = Inr (out, s')" "text_stream acc" "net_speed v acc = speed"
  shows "text_stream out \<and> net_speed v out = s'"
  using assms
proof (induction ptr speed gap acc rule: text_loop.induct)
  case (1 ptr speed gap acc)
  show ?case
  proof (cases ptr)
    case Nil
    with "1.prems"(1) show ?thesis by (simp add: text_loop.simps [of "[]"])
  next
    case (Cons c rest)
    have printable: "text_stream (acc @ [toupper c] @ (if gap then [124, 124, 124, 124] else []))"
      "net_speed v (acc @ [toupper c] @ (if gap then [124, 124, 124, 124] else [])) = speed"
      if "32 \<le> c"
      using toupper_ge [OF that] "1.prems"(2,3) gap_stream [of acc "toupper c"] ts_char
      by (auto simp: net_speed_snoc)
    have speed: "text_stream (acc @ [0x1C, d])" "net_speed v (acc @ [0x1C, d]) = d" for d
      using "1.prems"(2) by (auto simp: net_speed_snoc intro: ts_speed)
    show ?thesis
      using "1.prems" "1.IH" Cons printable speed
      by (auto simp: text_loop.simps [of "c # rest"] Let_def split: if_splits)
  qed
qed

lemma zero_after_run: "0 \<in> set (xs :: u8 list) \<Longrightarrow> d \<noteq> 0 \<Longrightarrow> 0 \<in> set (dropWhile (\<lambda>x. x = d) xs)"
  by (induction xs) auto

lemma text_loop_returns: "0 \<in> set ptr \<Longrightarrow> \<exists>r. text_loop ptr speed gap acc = Inr r"
proof (induction ptr speed gap acc rule: text_loop.induct)
  case (1 ptr speed gap acc)
  show ?case
  proof (cases ptr)
    case Nil
    with "1.prems" show ?thesis by simp
  next
    case (Cons c rest)
    have later: "char_pos c \<Longrightarrow> 0 \<in> set rest"
      using "1.prems" Cons by (auto simp: char_pos_def)
    show ?thesis
      using "1.IH" "1.prems" Cons later zero_after_run [of ptr 45] zero_after_run [of ptr 43]
      by (auto simp: text_loop.simps [of "c # rest"] Let_def)
  qed
qed

section \<open>What the translation guarantees\<close>

lemma text_stream_not_tuning: "text_stream xs \<Longrightarrow> \<not> is_tuning_command xs"
proof -
  assume "text_stream xs"
  then have "xs = [] \<or> hd xs = 0x1C \<or> 32 \<le> hd xs"
    by induction (auto simp: hd_append)
  then show ?thesis by (cases xs) (auto simp: is_tuning_command_def)
qed

lemma text_translation:
  assumes "0 \<in> set input" and "hd input \<noteq> 27"
  shows "\<exists>out. to_winkeyer input speed = Inr out \<and> text_stream out \<and> net_speed speed out = speed"
proof -
  obtain out s' where loop: "text_loop input speed False [] = Inr (out, s')"
    using text_loop_returns [OF assms(1)] by fastforce
  have stream: "text_stream out" "net_speed speed out = s'"
    using text_loop_stream [OF loop ts_Nil] by simp_all
  let ?out = "if s' \<noteq> speed then out @ [0x1C, speed] else out"
  have "text_stream ?out" "net_speed speed ?out = speed"
    using stream by (auto simp: net_speed_snoc intro: ts_speed)
  then show ?thesis
    using loop assms by (cases input) (auto simp: to_winkeyer_def)
qed

text \<open>(C17) Every terminated text message is translated: the loop returns, the result is a stream of
  printable characters and buffered speed changes, it is never taken for a tuning command, and
  however many \<open>+\<close> and \<open>-\<close> it contains the speed in force after it is the speed before it.\<close>

theorem text_restores_speed:
  assumes "0 \<in> set input" and "hd input \<noteq> 27"
  shows "\<exists>out. to_winkeyer input speed = Inr out \<and> text_stream out \<and> net_speed speed out = speed
    \<and> \<not> is_tuning_command out"
  using text_translation [OF assms] text_stream_not_tuning by blast

theorem text_restores_speed_witness:
  "\<exists>out. to_winkeyer [67, 43, 43, 113, 45, 0] 24 = Inr out \<and> net_speed 24 out = 24"
  using text_restores_speed [of "[67, 43, 43, 113, 45, 0]" 24] by auto

text \<open>Text without speed and gap signs is sent as it is, in capitals, up to the terminator.\<close>

theorem plain_text_sent:
  assumes "\<forall>c \<in> set msg. 32 \<le> c \<and> c < 126 \<and> c \<noteq> 45 \<and> c \<noteq> 43"
  shows "to_winkeyer (msg @ [0]) speed = Inr (map toupper msg)"
proof -
  have loop: "text_loop (msg @ [0]) speed False acc = Inr (acc @ map toupper msg, speed)" for acc
    using assms
  proof (induction msg arbitrary: acc)
    case Nil
    show ?case by (simp add: text_loop.simps [of "[0]"] char_pos_def)
  next
    case (Cons c cs)
    then have "32 \<le> c" "c < 126" by simp_all
    then have "char_pos c"
      by (simp add: char_pos_def sint_uint signed_take_bit_int_eq_self word_le_def word_less_def)
    with Cons show ?case by (auto simp: text_loop.simps [of "c # cs @ [0]"])
  qed
  have "hd (msg @ [0]) \<noteq> 27" using assms by (cases msg) auto
  then show ?thesis using loop [of "[]"] by (simp add: to_winkeyer_def)
qed

theorem plain_text_sent_witness:
  "to_winkeyer [99, 113, 32, 0] 24 = Inr [67, 81, 32]"
  using plain_text_sent [of "[99, 113, 32]" 24] by (simp add: toupper_def)

text \<open>Only an \<open>ESC c\<close> message becomes a tuning command: exactly then the output is the
  immediate key-down followed by the number of seconds, which the server pops.\<close>

theorem tuning_only_from_escape_c:
  assumes "to_winkeyer input speed = Inr out" and "is_tuning_command out" and "0 \<in> set input"
  shows "\<exists>args n. input = 27 # 99 # args \<and> stoi_at args = Inr n \<and> out = [0x0B, 1, of_int n]"
proof -
  have esc: "hd input = 27"
    using assms text_translation [of input speed] text_stream_not_tuning by fastforce
  with assms(1,3) obtain cmd args where input: "input = 27 # cmd # args"
    by (cases input; cases "tl input")
      (auto simp: to_winkeyer_def escape_command_def bind_result_Inr_iff)
  with assms(1,2) show ?thesis
    by (auto simp: to_winkeyer_def escape_command_def bind_result_Inr_iff is_tuning_command_def
        split: if_splits)
qed

theorem tuning_only_from_escape_c_witness:
  "\<exists>args n. [27, 99, 53, 0 :: u8] = 27 # 99 # args \<and> stoi_at args = Inr n"
proof -
  have "to_winkeyer [27, 99, 53, 0] 24 = Inr [0x0B, 1, 5]"
    by code_simp
  from tuning_only_from_escape_c [OF this] show ?thesis by (auto simp: is_tuning_command_def)
qed

text \<open>A weight within cwdaemon's range of -50 to 50 is clamped to 10..90, as meant; below that
  range the value has already wrapped when it is compared, so -51 gives the heaviest weight
  instead of the lightest.\<close>

theorem weight_clamped:
  "(- 50 \<le> n \<and> n \<le> 50 \<longrightarrow> weight_of n = Inr (of_int (max 10 (min 90 (50 + n)))))
    \<and> weight_of (- 51) = Inr 90"
proof (intro conjI impI)
  assume n: "- 50 \<le> n \<and> n \<le> 50"
  define w where "w = 50 + n"
  have w: "0 \<le> w" "w \<le> 100" using n by (simp_all add: w_def)
  then have "uint (of_int w :: u8) = w" by (simp add: uint_word_of_int)
  then have "(of_int w :: u8) < 10 \<longleftrightarrow> w < 10" "(90 :: u8) < of_int w \<longleftrightarrow> 90 < w"
    by (simp_all add: word_less_def)
  with w show "weight_of n = Inr (of_int (max 10 (min 90 (50 + n))))"
    by (auto simp: weight_of_def Let_def w_def [symmetric] max_def min_def)
qed (simp add: weight_of_def Let_def)

theorem weight_clamped_witness: "weight_of 20 = Inr 70"
  using weight_clamped [of 20] by simp

text \<open>A command whose number is missing makes the translation throw. The thread that calls it
  has no handler, so one such datagram ends the daemon.\<close>

theorem escape_without_number_throws:
  "to_winkeyer [27, 50, 0] speed = Inl Invalid_argument
    \<and> to_winkeyer [27, 55, 0] speed = Inl Invalid_argument
    \<and> to_winkeyer [27, 99, 0] speed = Inl Invalid_argument
    \<and> to_winkeyer [27, 117, 0] speed = Inl Invalid_argument
    \<and> to_winkeyer [27, 100, 0] speed = Inl Invalid_argument"
  by (simp add: to_winkeyer_def escape_command_def stoi_at_def c_string_def stoi_def)

end
