(* ===== verification/Cpp_Text.thy ===== *)
theory Cpp_Text
  imports Cpp_Float String_Util
begin

text \<open>
  The conversions between numbers and text of the C++ standard library the sources use:
  \<open>std::to_string(double)\<close> and the \<open>printf\<close> conversions \<open>%lf\<close>, \<open>%llx\<close>, and \<open>std::stod\<close> and
  \<open>std::stof\<close> on the subject sequences of \<open>strtod\<close>.
\<close>

section \<open>Printing\<close>

text \<open>\<open>%f\<close>: six decimals of the exact value, rounded to nearest, ties to even.\<close>

definition pad_left :: "nat \<Rightarrow> string \<Rightarrow> string" where
  "pad_left n s = replicate (n - length s) (CHR ''0'') @ s"

definition fixed6 :: "rat \<Rightarrow> string" where
  "fixed6 x =
     (let m = nat (round_even (\<bar>x\<bar> * 1000000))
      in (if x < 0 then ''-'' else '''') @ string_of_nat (m div 1000000) @ ''.''
         @ pad_left 6 (string_of_nat (m mod 1000000)))"

fun to_string_double :: "flt \<Rightarrow> string" where
  "to_string_double (Fin x) = fixed6 x"
| "to_string_double PInf = ''inf''"
| "to_string_double NInf = ''-inf''"
| "to_string_double NaN = ''nan''"

definition hex_digit :: "nat \<Rightarrow> char" where
  "hex_digit d = (if d < 10 then char_of (48 + d) else char_of (87 + d))"

fun hex_of_nat :: "nat \<Rightarrow> string" where
  "hex_of_nat n =
     (if n < 16 then [hex_digit n] else hex_of_nat (n div 16) @ [hex_digit (n mod 16)])"

declare hex_of_nat.simps [simp del]

section \<open>Parsing\<close>

text \<open>A scanned number: its value and whether any character was consumed. The decimal point of the
  C locale, an optional exponent; hexadecimal with a binary exponent; \<open>inf\<close> and \<open>nan\<close> in any
  case.\<close>

definition lower :: "char \<Rightarrow> char" where
  "lower c = (if 65 \<le> (of_char c :: nat) \<and> (of_char c :: nat) \<le> 90
              then char_of ((of_char c :: nat) + 32) else c)"

definition is_xdigit :: "char \<Rightarrow> bool" where
  "is_xdigit c \<longleftrightarrow> is_digit c \<or> (97 \<le> (of_char (lower c) :: nat) \<and> (of_char (lower c) :: nat) \<le> 102)"

definition xdigit_value :: "char \<Rightarrow> nat" where
  "xdigit_value c = (if is_digit c then digit_value c else of_char (lower c) - 87)"

definition base_value :: "nat \<Rightarrow> string \<Rightarrow> nat" where
  "base_value b ds = foldl (\<lambda>n c. b * n + xdigit_value c) 0 ds"

text \<open>An exponent \<open>e\<close>, an optional sign and at least one digit, or none.\<close>

definition scan_exponent :: "char \<Rightarrow> string \<Rightarrow> int" where
  "scan_exponent mark s =
     (if s = [] \<or> lower (hd s) \<noteq> mark then 0
      else let s1 = tl s;
               neg = (s1 \<noteq> [] \<and> hd s1 = CHR ''-'');
               s2 = (if s1 \<noteq> [] \<and> (hd s1 = CHR ''-'' \<or> hd s1 = CHR ''+'') then tl s1 else s1);
               v = int (digits_value (takeWhile is_digit s2))
           in if neg then - v else v)"

definition scan_mantissa :: "(char \<Rightarrow> bool) \<Rightarrow> string \<Rightarrow> string \<times> string \<times> string" where
  "scan_mantissa dig s =
     (let ip = takeWhile dig s; r = dropWhile dig s
      in if r \<noteq> [] \<and> hd r = CHR ''.''
         then (ip, takeWhile dig (tl r), dropWhile dig (tl r)) else (ip, [], r))"

definition scan_unsigned :: "string \<Rightarrow> flt option" where
  "scan_unsigned s =
     (if take 3 (map lower s) = ''inf'' then Some PInf
      else if take 3 (map lower s) = ''nan'' then Some NaN
      else if take 2 (map lower s) = ''0x'' \<and> (case scan_mantissa is_xdigit (drop 2 s) of (ip, fp, _) \<Rightarrow> ip @ fp \<noteq> [])
      then (case scan_mantissa is_xdigit (drop 2 s) of
              (ip, fp, r) \<Rightarrow>
                Some (Fin (of_nat (base_value 16 (ip @ fp))
                           * pow2 (scan_exponent (CHR ''p'') r - 4 * int (length fp)))))
      else (case scan_mantissa is_digit s of
              (ip, fp, r) \<Rightarrow>
                if ip @ fp = [] then None
                else Some (Fin (let e = scan_exponent (CHR ''e'') r - int (length fp)
                                in of_nat (digits_value (ip @ fp))
                                   * (if 0 \<le> e then 10 ^ nat e else 1 / 10 ^ nat (- e))))))"

text \<open>\<open>std::stod\<close> and \<open>std::stof\<close>: the exact value is rounded once; overflow, and underflow to an
  inexact subnormal or zero, is \<open>ERANGE\<close> and so \<open>std::out_of_range\<close>. \<open>tiny\<close> is the least normal value.\<close>

definition sto_float :: "(rat \<Rightarrow> flt) \<Rightarrow> rat \<Rightarrow> string \<Rightarrow> flt result" where
  "sto_float r tiny s =
     (let s1 = dropWhile is_space s;
          neg = (s1 \<noteq> [] \<and> hd s1 = CHR ''-'');
          s2 = (if s1 \<noteq> [] \<and> (hd s1 = CHR ''-'' \<or> hd s1 = CHR ''+'') then tl s1 else s1)
      in case scan_unsigned s2 of
           None \<Rightarrow> Inl Invalid_argument
         | Some (Fin x) \<Rightarrow>
             (case r (if neg then - x else x) of
                Fin v \<Rightarrow> if \<bar>v\<bar> < tiny \<and> \<bar>v\<bar> \<noteq> x then Inl Out_of_range else Inr (Fin v)
              | _ \<Rightarrow> Inl Out_of_range)
         | Some v \<Rightarrow> Inr (if neg then fneg v else v))"

definition stod :: "string \<Rightarrow> flt result" where
  "stod = sto_float rnd64 (pow2 (- 1022))"

definition stof :: "string \<Rightarrow> flt result" where
  "stof = sto_float rnd32 (pow2 (- 126))"

end
