(* ===== verification/Udp_Server.thy ===== *)
theory Udp_Server
  imports Cpp_Text
begin

text \<open>
  \<open>src/udp_server.{h,cpp}\<close> and \<open>src/timer.{h,cpp}\<close>: the datagram socket of the CW daemon and its
  millisecond clock. The answers of the operating system are arguments.
\<close>

section \<open>Timer\<close>

text \<open>\<open>duration_cast<milliseconds>\<close> of a nanosecond difference truncates towards zero; the 64-bit
  count is returned as \<open>uint32_t\<close>.\<close>

definition ellapsed_ms :: "int \<Rightarrow> int \<Rightarrow> u32" where
  "ellapsed_ms start now =
     (let d = now - start in of_int (if 0 \<le> d then d div 1000000 else - ((- d) div 1000000)))"

section \<open>Socket\<close>

record udp_server =
  sockfd :: int
  buffer :: "u8 list"
  message :: "u8 list"

definition BUFFER_BYTES :: nat where "BUFFER_BYTES = 1024"

text \<open>The results of \<open>socket\<close>, \<open>setsockopt\<close> and \<open>bind\<close>; the buffer is not initialised.\<close>

definition udp_server_new :: "int \<Rightarrow> int \<Rightarrow> int \<Rightarrow> u8 list \<Rightarrow> udp_server result" where
  "udp_server_new sock opt bound garbage =
     (if sock < 0 then Inl (Runtime_error ''socket creation failed'')
      else if opt < 0 then Inl (Runtime_error ''failed to set read timeout'')
      else if bound < 0 then Inl (Runtime_error ''bind failed'')
      else Inr \<lparr>sockfd = sock, buffer = garbage, message = []\<rparr>)"

text \<open>\<open>recvfrom\<close> with a size of 1024: an error (the time limit included) or a datagram cut to 1024
  bytes.\<close>

datatype recvfrom_result = Recvfrom_error | Recvfrom_bytes "u8 list"

definition blank :: "u8 \<Rightarrow> bool" where
  "blank c \<longleftrightarrow> c = 10 \<or> c = 13 \<or> c = 32"

fun trim_length :: "u8 list \<Rightarrow> nat \<Rightarrow> nat" where
  "trim_length buf 0 = 0"
| "trim_length buf (Suc n) = (if 1 < Suc n \<and> blank (buf ! n) then trim_length buf n else Suc n)"

definition receive :: "recvfrom_result \<Rightarrow> udp_server \<Rightarrow> (bool \<times> udp_server) result" where
  "receive r s =
     (case r of
        Recvfrom_error \<Rightarrow> Inr (False, s)
      | Recvfrom_bytes bs \<Rightarrow>
          let buf = bs @ drop (length bs) (buffer s) in
          if bs = [] then Inr (False, s\<lparr>buffer := buf\<rparr>)
          else
            let n = trim_length buf (length bs) in
            if n < BUFFER_BYTES
            then Inr (True, s\<lparr>buffer := buf[n := 0], message := take (n + 1) (buf[n := 0])\<rparr>)
            else Inl Undefined_behaviour)"

definition last_message :: "udp_server \<Rightarrow> u8 list" where
  "last_message s = message s"

text \<open>The destructor: the descriptors it closes.\<close>

definition udp_server_destroy :: "udp_server \<Rightarrow> int list" where
  "udp_server_destroy s = (if sockfd s > 0 then [sockfd s] else [])"

text \<open>The log line: printable characters as they are, the others in upper-case hexadecimal, the final
  zero left out.\<close>

definition isprint :: "u8 \<Rightarrow> bool" where
  "isprint c \<longleftrightarrow> 32 \<le> c \<and> c \<le> 126"

definition upper_hex :: "nat \<Rightarrow> string" where
  "upper_hex n = (let d = (\<lambda>x. if x < 10 then char_of (48 + x) else char_of (55 + x)) in [d (n div 16), d (n mod 16)])"

definition msg_for_log :: "u8 list \<Rightarrow> string" where
  "msg_for_log m =
     concat (map (\<lambda>c. if isprint c then [char_of (unat c)] else ''(0x'' @ upper_hex (unat c) @ '')'') (butlast m))"

section \<open>What a datagram becomes\<close>

lemma trim_length_le: "trim_length buf n \<le> n"
  by (induction buf n rule: trim_length.induct) auto

lemma trim_length_pos: "0 < n \<Longrightarrow> 0 < trim_length buf n"
  by (induction buf n rule: trim_length.induct) auto

lemma trim_length_blanks: "trim_length buf n \<le> i \<Longrightarrow> i < n \<Longrightarrow> blank (buf ! i)"
proof (induction buf n arbitrary: i rule: trim_length.induct)
  case (2 buf n)
  then show ?case by (cases "i = n") (auto split: if_splits)
qed simp

lemma trim_length_stop: "1 < trim_length buf n \<Longrightarrow> \<not> blank (buf ! (trim_length buf n - 1))"
  by (induction buf n rule: trim_length.induct) (auto split: if_splits)

lemma datagram_message:
  assumes "bs \<noteq> []" "length bs < 1024" "length (buffer s) = 1024"
  shows "\<exists>n s'. receive (Recvfrom_bytes bs) s = Inr (True, s') \<and> 0 < n \<and> n \<le> length bs
     \<and> last_message s' = take n bs @ [0] \<and> list_all blank (drop n bs)
     \<and> (1 < n \<longrightarrow> \<not> blank (bs ! (n - 1))) \<and> length (buffer s') = 1024"
proof -
  define buf where "buf = bs @ drop (length bs) (buffer s)"
  define n where "n = trim_length buf (length bs)"
  have n: "0 < n" "n \<le> length bs" "n < 1024" "n < length buf"
    using assms trim_length_pos [of "length bs" buf] trim_length_le [of buf "length bs"]
    by (auto simp: n_def buf_def)
  have pre: "buf ! i = bs ! i" if "i < length bs" for i using that by (simp add: buf_def nth_append)
  have "receive (Recvfrom_bytes bs) s = Inr (True, s\<lparr>buffer := buf[n := 0], message := take (n + 1) (buf[n := 0])\<rparr>)"
    using assms(1) n(3) by (simp add: receive_def Let_def BUFFER_BYTES_def flip: buf_def n_def)
  moreover have "take (n + 1) (buf[n := 0]) = take n bs @ [0]"
    using n by (simp add: take_Suc_conv_app_nth) (simp add: buf_def)
  moreover have "list_all blank (drop n bs)"
    using trim_length_blanks [of buf "length bs"] pre
    by (auto simp: list_all_length n_def [symmetric])
  moreover have "1 < n \<longrightarrow> \<not> blank (bs ! (n - 1))"
    using trim_length_stop [of buf "length bs"] pre [of "n - 1"] n by (auto simp: n_def [symmetric])
  ultimately show ?thesis
    using n assms(2,3) by (intro exI [of _ n]) (auto simp: last_message_def buf_def)
qed

text \<open>
  A datagram of 1 to 1023 bytes becomes a zero-terminated message: its bytes without the
  trailing spaces, carriage returns and line feeds, of which at least the first byte is kept,
  followed by one zero. The buffer keeps its size.
\<close>

theorem datagram_trimmed_and_terminated:
  assumes "bs \<noteq> []" "length bs < 1024" "length (buffer s) = 1024"
  shows "\<exists>n s'. receive (Recvfrom_bytes bs) s = Inr (True, s') \<and> 0 < n \<and> n \<le> length bs
     \<and> last_message s' = take n bs @ [0] \<and> list_all blank (drop n bs)
     \<and> (1 < n \<longrightarrow> \<not> blank (bs ! (n - 1))) \<and> length (buffer s') = 1024"
  using assms by (rule datagram_message)

theorem datagram_trimmed_and_terminated_witness:
  "\<exists>n s'. receive (Recvfrom_bytes [67, 81, 32, 10]) \<lparr>sockfd = 3, buffer = replicate 1024 0, message = []\<rparr> = Inr (True, s')
     \<and> 0 < n \<and> last_message s' = take n [67, 81, 32, 10] @ [0]"
  using datagram_trimmed_and_terminated [of "[67, 81, 32, 10]" "\<lparr>sockfd = 3, buffer = replicate 1024 0, message = []\<rparr>"]
  by auto

text \<open>
  A datagram of 1024 or more bytes whose 1024th byte is not blank makes \<open>receive\<close> store the
  terminator into byte 1024 of a buffer of 1024 bytes, undefined behaviour.
\<close>

theorem full_datagram_overruns_buffer:
  assumes "length bs = 1024" "\<not> blank (bs ! 1023)"
  shows "receive (Recvfrom_bytes bs) s = Inl Undefined_behaviour"
proof -
  have "trim_length (bs @ xs) (Suc m) = Suc m" if "m < length bs" "\<not> blank (bs ! m)" for xs m
    using that by (simp add: nth_append)
  from this [of 1023] assms have "trim_length (bs @ xs) 1024 = 1024" for xs by simp
  then show ?thesis using assms by (auto simp: receive_def Let_def BUFFER_BYTES_def)
qed

theorem full_datagram_overruns_buffer_witness:
  "receive (Recvfrom_bytes (replicate 1024 65)) \<lparr>sockfd = 3, buffer = replicate 1024 0, message = []\<rparr> = Inl Undefined_behaviour"
  by (rule full_datagram_overruns_buffer) (simp_all add: blank_def)

end
