(* ===== verification/Cwdaemon_Server.thy ===== *)
theory Cwdaemon_Server
  imports Keyer_Text Cw_Daemon Udp_Server
begin

text \<open>
  \<open>src/cwdaemon_server.{h,cpp}\<close>: the two threads of the CW daemon around the keyer. The client
  thread turns datagrams into WinKeyer bytes and times the tuning carrier; the keyer thread ticks the
  keyer and watches the serial port. \<open>key_interface\<close> is the hardware of the keyer: its clock is the
  timer, its paddles are never pressed, and its key is the DTR line.
\<close>

section \<open>The serial port\<close>

text \<open>\<open>fd\<close> as the system calls see it: the line can be driven when the descriptor is open. \<open>dtr\<close> is the
  state of the line.\<close>

record key_interface =
  iface_fd :: int
  fd_was_valid :: bool
  dtr :: bool

definition key_interface_new :: key_interface where
  "key_interface_new = \<lparr>iface_fd = -1, fd_was_valid = False, dtr = False\<rparr>"

definition connected :: "key_interface \<Rightarrow> bool" where
  "connected i = fd_was_valid i"

definition iface_open_port :: "int \<Rightarrow> key_interface \<Rightarrow> bool \<times> key_interface" where
  "iface_open_port opened i =
     (if opened < 0 then (False, i\<lparr>iface_fd := opened\<rparr>)
      else (True, i\<lparr>iface_fd := opened, dtr := False\<rparr>))"

definition iface_is_paddle_pressed :: "paddle_side \<Rightarrow> bool" where
  "iface_is_paddle_pressed side = False"

definition on_key_down :: "key_interface \<Rightarrow> key_interface" where
  "on_key_down i = (if 0 \<le> iface_fd i then i\<lparr>dtr := True\<rparr> else i)"

definition on_key_up :: "key_interface \<Rightarrow> key_interface" where
  "on_key_up i = (if 0 \<le> iface_fd i then i\<lparr>dtr := False\<rparr> else i)"

definition iface_update :: "bool \<Rightarrow> int \<Rightarrow> key_interface \<Rightarrow> key_interface" where
  "iface_update tty opened i =
     (let i1 = (if tty then i else snd (iface_open_port opened i)) in i1\<lparr>fd_was_valid := tty\<rparr>)"

text \<open>The callbacks the keyer makes, applied to the port; the others are empty in
  \<open>hw_interface\<close>.\<close>

fun iface_event :: "hw_event \<Rightarrow> key_interface \<Rightarrow> key_interface" where
  "iface_event Key_down i = on_key_down i"
| "iface_event Key_up i = on_key_up i"
| "iface_event _ i = i"

text \<open>What the callbacks of one keyer operation, the part it adds to the trace, do to the port.\<close>

definition drive :: "keyer \<Rightarrow> keyer \<Rightarrow> key_interface \<Rightarrow> key_interface" where
  "drive k k' i = fold iface_event (drop (length (trace k)) (trace k')) i"

text \<open>The hardware environment: the timer readings, and paddles that are never pressed.\<close>

definition iface_env :: "(nat \<Rightarrow> u32) \<Rightarrow> hw_env" where
  "iface_env clock = \<lparr>clk = clock, pressed = (\<lambda>_ side. iface_is_paddle_pressed side)\<rparr>"

section \<open>The client thread\<close>

record client_state =
  wk :: keyer
  is_tuning :: bool
  tune_end_time :: u32

text \<open>\<open>static_cast<unsigned char>\<close> of the speed.\<close>

definition to_u8 :: "flt \<Rightarrow> u8 option" where
  "to_u8 a =
     (case a of
        Fin x \<Rightarrow> if 0 \<le> trunc_rat x \<and> trunc_rat x < 256 then Some (of_int (trunc_rat x)) else None
      | _ \<Rightarrow> None)"

definition undefined_if_none :: "'a option \<Rightarrow> 'a result" where
  "undefined_if_none m = (case m of None \<Rightarrow> Inl Undefined_behaviour | Some x \<Rightarrow> Inr x)"

fun feed :: "u8 list \<Rightarrow> keyer \<Rightarrow> keyer option" where
  "feed [] k = Some k"
| "feed (c # cs) k = Option.bind (winkeyer_data c k) (feed cs)"

definition is_abort_send_cmd :: "u8 list \<Rightarrow> bool" where
  "is_abort_send_cmd m \<longleftrightarrow> length m > 1 \<and> m ! 0 = 27 \<and> m ! 1 = 52"

definition is_exit_cmd :: "u8 list \<Rightarrow> bool" where
  "is_exit_cmd m \<longleftrightarrow> length m > 1 \<and> m ! 0 = 27 \<and> m ! 1 = 53"

definition stop_tuning :: "client_state \<Rightarrow> client_state result" where
  "stop_tuning s =
     bind_result (undefined_if_none (feed [0x0B, 0x00] (wk s))) (\<lambda>k. Inr (s\<lparr>wk := k, is_tuning := False\<rparr>))"

text \<open>What a message does to the loop.\<close>

datatype loop_action = Fall_through | Continue | Break

text \<open>A message: \<open>now\<close> is the clock reading of a tuning command.\<close>

definition handle_message :: "u32 \<Rightarrow> u8 list \<Rightarrow> client_state \<Rightarrow> (loop_action \<times> client_state) result" where
  "handle_message now m s =
     bind_result (undefined_if_none (Option.bind (get_speed (wk s)) to_u8)) (\<lambda>speed.
       if is_exit_cmd m then Inr (Break, s)
       else if is_tuning s \<and> is_abort_send_cmd m
       then bind_result (stop_tuning s) (\<lambda>s'. Inr (Continue, s'))
       else bind_result (to_winkeyer m speed) (\<lambda>wk_data.
         let (s1, bytes) =
               (if is_tuning_command wk_data
                then (s\<lparr>is_tuning := True, tune_end_time := now + 1000 * ucast (last wk_data)\<rparr>, butlast wk_data)
                else (s, wk_data))
         in bind_result (undefined_if_none (feed bytes (wk s1))) (\<lambda>k. Inr (Fall_through, s1\<lparr>wk := k\<rparr>))))"

definition check_tune_time :: "u32 \<Rightarrow> client_state \<Rightarrow> client_state result" where
  "check_tune_time now s = (if is_tuning s \<and> now > tune_end_time s then stop_tuning s else Inr s)"

text \<open>One iteration of \<open>client_worker\<close>: a message or none, and the clock readings; whether the loop
  goes on.\<close>

definition client_iteration :: "u8 list option \<Rightarrow> u32 \<Rightarrow> u32 \<Rightarrow> client_state \<Rightarrow> (bool \<times> client_state) result" where
  "client_iteration received now1 now2 s =
     bind_result (case received of None \<Rightarrow> Inr (Fall_through, s) | Some m \<Rightarrow> handle_message now1 m s) (\<lambda>(a, s1).
       case a of
         Break \<Rightarrow> Inr (False, s1)
       | Continue \<Rightarrow> Inr (True, s1)
       | Fall_through \<Rightarrow> bind_result (check_tune_time now2 s1) (\<lambda>s2. Inr (True, s2)))"

section \<open>The keyer thread\<close>

record keyer_thread =
  kt_keyer :: keyer
  kt_iface :: key_interface
  iface_check_divider :: nat

text \<open>One iteration of \<open>keyer_worker\<close>: the keyer is ticked, its callbacks drive the port, and every
  hundredth time the port is checked.\<close>

definition keyer_iteration :: "hw_env \<Rightarrow> bool \<Rightarrow> int \<Rightarrow> keyer_thread \<Rightarrow> keyer_thread option" where
  "keyer_iteration E tty opened t =
     Option.bind (update E (kt_keyer t)) (\<lambda>k.
       let i = drive (kt_keyer t) k (kt_iface t);
           d = iface_check_divider t + 1
       in Some (if d \<ge> 100 then \<lparr>kt_keyer = k, kt_iface = iface_update tty opened i, iface_check_divider = 0\<rparr>
                else \<lparr>kt_keyer = k, kt_iface = i, iface_check_divider = d\<rparr>))"

text \<open>The constructor; \<open>initial_wpm\<close> is an \<open>int\<close> passed as \<open>uint8_t\<close>.\<close>

definition cwdaemon_server_new :: "hw_env \<Rightarrow> int \<Rightarrow> keyer option" where
  "cwdaemon_server_new E initial_wpm =
     Option.bind (init E keyer_zero) (feed [0x02, of_int initial_wpm])"

section \<open>The two threads\<close>

text \<open>\<open>keyer::update\<close> and \<open>keyer::winkeyer_data\<close> hold the mutex of the keyer, so the threads
  interleave between a tick and a byte of a message; the callbacks run inside the operation. The
  keyer thread begins by opening the port.\<close>

inductive daemon_run :: "hw_env \<Rightarrow> keyer_thread \<Rightarrow> bool" for E where
  daemon_new: "cwdaemon_server_new E wpm = Some k \<Longrightarrow>
    daemon_run E \<lparr>kt_keyer = k, kt_iface = key_interface_new, iface_check_divider = 0\<rparr>"
| daemon_open: "daemon_run E t \<Longrightarrow> daemon_run E (t\<lparr>kt_iface := iface_update tty opened (kt_iface t)\<rparr>)"
| daemon_tick: "daemon_run E t \<Longrightarrow> keyer_iteration E tty opened t = Some t' \<Longrightarrow> daemon_run E t'"
| daemon_byte: "daemon_run E t \<Longrightarrow> winkeyer_data c (kt_keyer t) = Some k \<Longrightarrow>
    daemon_run E (t\<lparr>kt_keyer := k, kt_iface := drive (kt_keyer t) k (kt_iface t)\<rparr>)"

end
