(* ===== verification/Keyer_Properties.thy ===== *)
theory Keyer_Properties
  imports Keyer_Text
begin

text \<open>
  Properties of single operations of the keyer: the byte parser stays within its argument array,
  the element lengths, the deadlines, and the message memories.
\<close>

section \<open>The byte parser\<close>

text \<open>The invariant of the parser and of the profile table.\<close>

definition parser_inv :: "keyer \<Rightarrow> bool" where
  "parser_inv k \<longleftrightarrow>
     length (profiles k) = 3 \<and> unat (current_profile k) < 3
     \<and> length (winkeyer_arguments (data k)) = 15
     \<and> (0 < winkeyer_waiting_for_arguments (data k) \<longrightarrow>
          unat (winkeyer_waiting_for_arguments (data k)) + unat (winkeyer_argument_index (data k)) \<le> 15)"

lemma parameter_count_bound: "c \<le> 0x1F \<Longrightarrow> unat (parameter_count c) \<le> 15"
proof -
  assume "c \<le> 0x1F"
  then have "unat c < length winkey_commands_parameter_count"
    by (simp add: word_le_nat_alt winkey_commands_parameter_count_def)
  then have "parameter_count c \<in> set winkey_commands_parameter_count"
    by (simp add: parameter_count_def)
  then show ?thesis by (auto simp: winkey_commands_parameter_count_def)
qed

lemma modify_profile_total:
  assumes "length (profiles k) = 3" "unat (current_profile k) < 3"
  shows "\<exists>k'. modify_profile f k = Some k' \<and> data k' = data k
    \<and> length (profiles k') = 3 \<and> current_profile k' = current_profile k"
  using assms by (simp add: modify_profile_def get_current_profile_def)

lemma execute_command_total:
  assumes "length (profiles k) = 3" "unat (current_profile k) < 3"
  shows "\<exists>k'. execute_command k = Some k' \<and> length (profiles k') = 3
    \<and> current_profile k' = current_profile k
    \<and> winkeyer_arguments (data k') = winkeyer_arguments (data k)
    \<and> winkeyer_argument_index (data k') = winkeyer_argument_index (data k)
    \<and> winkeyer_waiting_for_arguments (data k') = winkeyer_waiting_for_arguments (data k)"
  using assms
  by (auto simp: execute_command_def Let_def set_speed_def modify_profile_def get_current_profile_def emit_def)

lemma winkeyer_data_defined:
  assumes "parser_inv k"
  shows "\<exists>k'. winkeyer_data c k = Some k' \<and> parser_inv k'"
proof -
  let ?d = "data k"
  have prof: "length (profiles k) = 3" "unat (current_profile k) < 3"
    and len: "length (winkeyer_arguments ?d) = 15" using assms by (simp_all add: parser_inv_def)
  consider (arg) "0 < winkeyer_waiting_for_arguments ?d"
    | (cmd) "winkeyer_waiting_for_arguments ?d = 0" "winkeyer_remaining_buffered_arguments ?d = 0
         \<and> is_winkeyer_command c \<and> \<not> is_winkeyer_buffered_command c"
    | (plain) "winkeyer_waiting_for_arguments ?d = 0" "\<not> (winkeyer_remaining_buffered_arguments ?d = 0
         \<and> is_winkeyer_command c \<and> \<not> is_winkeyer_buffered_command c)"
    using word_neq_0_conv by blast
  then show ?thesis
  proof cases
    case arg
    let ?w = "winkeyer_waiting_for_arguments ?d" and ?i = "winkeyer_argument_index ?d"
    have b: "unat ?w + unat ?i \<le> 15" using arg assms by (simp add: parser_inv_def)
    have w: "unat (?w - 1) = unat ?w - 1" "0 < unat ?w" using arg by (simp_all add: unat_minus_one unat_gt_0 word_neq_0_conv)
    have i: "unat (?i + 1) = unat ?i + 1" using b w(2) by (intro unat_add_lem [THEN iffD1, THEN trans]) simp_all
    define k1 where "k1 = k\<lparr>data := ?d\<lparr>winkeyer_arguments := (winkeyer_arguments ?d)[unat ?i := c],
       winkeyer_argument_index := ?i + 1, winkeyer_waiting_for_arguments := ?w - 1\<rparr>\<rparr>"
    have k1: "length (profiles k1) = 3" "unat (current_profile k1) < 3" using prof by (simp_all add: k1_def)
    have "winkeyer_data c k = (if ?w - 1 = 0 then execute_command k1 else Some k1)"
      using arg b w(2) len by (simp add: winkeyer_data_def Let_def k1_def)
    then show ?thesis
      using execute_command_total [OF k1] b w i len prof by (auto simp: parser_inv_def k1_def)
  next
    case cmd
    define k1 where "k1 = k\<lparr>data := ?d\<lparr>winkeyer_pending_command := c,
       winkeyer_waiting_for_arguments := parameter_count c, winkeyer_argument_index := 0\<rparr>\<rparr>"
    have k1: "length (profiles k1) = 3" "unat (current_profile k1) < 3" using prof by (simp_all add: k1_def)
    have "winkeyer_data c k = (if parameter_count c = 0 then execute_command k1 else Some k1)"
      using cmd by (simp add: winkeyer_data_def Let_def k1_def)
    then show ?thesis
      using execute_command_total [OF k1] cmd(2) len prof parameter_count_bound [of c]
      by (auto simp: parser_inv_def k1_def is_winkeyer_command_def)
  next
    case plain
    then have "winkeyer_data c k = Some (buffer_byte c k)"
      by (auto simp: winkeyer_data_def Let_def)
    then show ?thesis using assms plain(1) by (auto simp: parser_inv_def buffer_byte_def)
  qed
qed

text \<open>
  (C14) \<open>winkeyer_data\<close> handles every byte in every state of the parser without undefined
  behaviour: the argument array of 15 bytes is never overrun, because the bytes still awaited and
  the bytes already stored never exceed it, which every call preserves.
\<close>

theorem winkeyer_data_total:
  assumes "parser_inv k"
  shows "\<exists>k'. winkeyer_data c k = Some k' \<and> parser_inv k'"
  using assms by (rule winkeyer_data_defined)

theorem winkeyer_data_total_witness:
  "parser_inv init_keyer \<and> (\<exists>k'. winkeyer_data 0x0F init_keyer = Some k' \<and> parser_inv k')"
proof -
  have i: "parser_inv init_keyer"
    by (simp add: parser_inv_def init_keyer_def keyer_internal_state_zero_def keyer_zero_def)
  with winkeyer_data_total [OF i, of "0x0F"] show ?thesis by blast
qed

section \<open>Lengths\<close>

text \<open>A quotient that is not an integer is at least \<open>1 / w\<close> away from one, further than a rounding
  moves it.\<close>

lemma trunc_div32:
  assumes "1 \<le> w" "w \<le> 255" "1 \<le> n" "n < 2 ^ 16"
  shows "to_u32 (div32 (Fin (of_int n)) (Fin (of_int w))) = Some (of_int (n div w))"
proof -
  define x :: rat where "x = of_int n / of_int w"
  have w: "(0::rat) < of_int w" "of_int w \<le> (255::rat)" using assms by simp_all
  have x: "1 / 255 \<le> x" "x < 2 ^ 16"
  proof -
    have "1 / 255 \<le> 1 / (of_int w :: rat)" using w by (simp add: frac_le)
    also have "\<dots> \<le> x" unfolding x_def using w assms(3) by (intro divide_right_mono) simp_all
    finally show "1 / 255 \<le> x" .
    have "x \<le> of_int n" unfolding x_def using w assms by (simp add: divide_le_eq mult_le_cancel_left1)
    then show "x < 2 ^ 16" using assms(4) by (simp add: less_le_trans)
  qed
  have "pow2 (- 126) \<le> 1 / 255" "2 ^ 16 < pow2 127" by (simp_all add: pow2_def)
  then have "pow2 (- 126) \<le> x" "x < pow2 127" using x by linarith+
  then obtain v where v: "rnd32 x = Fin v" "\<bar>v - x\<bar> * 2 ^ 24 \<le> x" using rnd32_relative_error by blast
  define q where "q = n div w"
  have n: "of_int n = of_int q * (of_int w :: rat) + of_int (n mod w)"
    unfolding q_def by (metis div_mult_mod_eq of_int_add of_int_mult)
  have fl: "\<lfloor>v\<rfloor> = q"
  proof (cases "n mod w = 0")
    case True
    then have "x = of_int q" using w n by (simp add: x_def)
    moreover have "0 \<le> (of_int q :: rat)" "(of_int q :: rat) < 65536" using \<open>x = of_int q\<close> x by simp_all
    then have "\<bar>q\<bar> < 2 ^ 24" by simp
    ultimately have "v = of_int q" using f32_of_int_exact [of q] v(1) by (simp add: f32_of_int_def)
    then show ?thesis by simp
  next
    case False
    then have m: "1 \<le> n mod w" "n mod w \<le> w - 1" using assms(1) by (simp_all add: pos_mod_bound int_one_le_iff_zero_less order.not_eq_order_implies_strict)
    have e: "x - of_int q = of_int (n mod w) / of_int w" using n w by (simp add: x_def field_simps)
    have "1 / of_int w \<le> of_int (n mod w) / (of_int w :: rat)"
      using m(1) w by (intro divide_right_mono) simp_all
    moreover have "of_int (n mod w) / (of_int w :: rat) \<le> 1 - 1 / of_int w"
      using m(2) w by (simp add: field_simps flip: of_int_diff)
    moreover have "\<bar>v - x\<bar> < 1 / of_int w"
    proof -
      have "\<bar>v - x\<bar> < 1 / 255" using v(2) x(2) by simp
      also have "\<dots> \<le> 1 / of_int w" using w by (simp add: frac_le)
      finally show ?thesis .
    qed
    ultimately have "of_int q < v" "v < of_int q + 1" using e by linarith+
    then show ?thesis by (simp add: floor_unique)
  qed
  have "q \<le> n div 1" unfolding q_def using assms by (intro zdiv_mono2) simp_all
  then have q: "0 \<le> q" "q < 2 ^ 32" using assms by (simp_all add: q_def pos_imp_zdiv_nonneg_iff)
  then have "0 \<le> v" using fl by (metis zero_le_floor)
  then show ?thesis
    using v(1) fl q w by (simp add: to_u32_def trunc_rat_def flip: x_def q_def)
qed

text \<open>
  (C15) In WinKeyer mode at an integer speed of 1 to 255 words per minute a dit lasts exactly
  \<open>1200 div wpm\<close> milliseconds and a dah, with the ratio 3, exactly \<open>3600 div wpm\<close>: the rounding of
  the \<open>float\<close> division never carries the truncation over an integer.
\<close>

theorem winkeyer_element_length:
  assumes "1 \<le> w" "w \<le> 255" "winkeyer_enabled (data k)" "winkeyer_speed_wpm (data k) = f32_of_int w"
    and "get_current_profile k = Some p" "dah_dit_ratio (style p) = Fin 3"
  shows "element_length_ms El_dit k = Some (of_int (1200 div w))
       \<and> element_length_ms El_dah k = Some (of_int (3600 div w))"
proof -
  have cs: "f32_of_int 1200 = Fin 1200" "mul32 (Fin 1200) (Fin 3) = Fin 3600" by code_simp+
  have w: "f32_of_int w = Fin (of_int w)" using assms f32_of_int_exact by simp
  show ?thesis
    using trunc_div32 [OF assms(1,2), of 1200] trunc_div32 [OF assms(1,2), of 3600] assms(3-6) cs w
    by (simp add: element_length_ms_def del: fdiv.simps fmul.simps)
qed

theorem winkeyer_element_length_witness:
  "winkeyer_enabled (data demo_keyer) \<and> winkeyer_speed_wpm (data demo_keyer) = f32_of_int 24
   \<and> element_length_ms El_dit demo_keyer = Some 50 \<and> element_length_ms El_dah demo_keyer = Some 150"
proof -
  have s: "f32_of_int 24 = Fin 24" by code_simp
  have d: "winkeyer_enabled (data demo_keyer)" "winkeyer_speed_wpm (data demo_keyer) = f32_of_int 24"
    by (simp_all add: demo_keyer_def init_keyer_def s)
  have "get_current_profile demo_keyer = Some (profile_default\<lparr>timings := default_timings\<rparr>)"
    by (simp add: demo_keyer_def init_keyer_def keyer_zero_def get_current_profile_def)
  with d winkeyer_element_length [of 24 demo_keyer "profile_default\<lparr>timings := default_timings\<rparr>"]
  show ?thesis by (simp add: profile_default_def code_style_default_def)
qed

text \<open>Entering the \<open>send_element\<close> state shifts the element into the register of what has been sent, from which a
  character keyed with the paddles is decoded.\<close>

lemma send_element_enter_shifts:
  assumes "send_element_enter E k = Some k'"
  shows "(sent_char_data (data k'), sent_char_bits (data k')) =
    shift_in (sent_element (data k)) (sent_char_data (data k), sent_char_bits (data k))"
  using assms
  by (cases "sent_element (data k) = El_dit")
    (auto simp: send_element_enter_def set_sidetone_and_tx_def current_ms_def bind_eq_Some_conv Let_def shift_in_def)

text \<open>
  A speed of 0, which a client can set with ESC 2 0, leaves the next element without a
  length: \<open>1200 / 0\<close> is infinite and its conversion to \<open>uint32_t\<close> undefined, so entering the
  \<open>send_element\<close> state is undefined behaviour.
\<close>

theorem speed_zero_undefined:
  assumes "winkeyer_enabled (data k)" "winkeyer_speed_wpm (data k) = Fin 0"
  shows "send_element_enter E k = None"
proof -
  have cs: "f32_of_int 1200 = Fin 1200" by code_simp
  have "element_length_ms El_dit k' = None" if "data k' = data k" for k'
    using assms that cs
    by (auto simp: element_length_ms_def inf_of_sign_def to_u32_def bind_eq_None_conv)
  then have "weighted_element_length_ms El_dit k' = None" if "data k' = data k" for k'
    using assms that by (auto simp: weighted_element_length_ms_def bind_eq_None_conv)
  then show ?thesis
    by (auto simp: send_element_enter_def set_sidetone_and_tx_def current_ms_def Let_def bind_eq_None_conv
        split: prod.splits)
qed

theorem speed_zero_undefined_witness:
  "\<exists>k k'. winkeyer_data 2 demo_keyer = Some k \<and> winkeyer_data 0 k = Some k'
     \<and> winkeyer_enabled (data k') \<and> winkeyer_speed_wpm (data k') = Fin 0
     \<and> send_element_enter still_env k' = None"
proof -
  define k where "k = demo_keyer\<lparr>data := (data demo_keyer)\<lparr>winkeyer_pending_command := 2,
     winkeyer_waiting_for_arguments := 1, winkeyer_argument_index := 0\<rparr>\<rparr>"
  have s: "winkeyer_data 2 demo_keyer = Some k"
    by (simp add: winkeyer_data_def Let_def demo_keyer_def init_keyer_def keyer_internal_state_zero_def
        is_winkeyer_command_def is_winkeyer_buffered_command_def parameter_count_def
        winkey_commands_parameter_count_def k_def)
  have i: "parser_inv k"
    by (simp add: k_def parser_inv_def demo_keyer_def init_keyer_def keyer_internal_state_zero_def keyer_zero_def)
  have z: "f32_of_int 0 = Fin 0" by code_simp
  obtain k' where k': "winkeyer_data 0 k = Some k'" using winkeyer_data_defined [OF i] by blast
  then have "winkeyer_enabled (data k')" "winkeyer_speed_wpm (data k') = Fin 0"
    by (auto simp: winkeyer_data_def Let_def k_def demo_keyer_def init_keyer_def keyer_internal_state_zero_def
        execute_command_def set_speed_def modify_profile_def bind_eq_Some_conv z)
  then show ?thesis using s k' speed_zero_undefined by blast
qed

section \<open>Setters\<close>

text \<open>
  \<open>set_dah_dit_ratio\<close> and \<open>set_letterspace\<close> have no effect of their own: whatever the argument,
  the keyer is left as recomputing the timings leaves it, because \<open>calculate_timings\<close> replaces both
  values by interpolation before using them.
\<close>

theorem ratio_and_letterspace_ineffective:
  "set_dah_dit_ratio r k = modify_profile update_timings k
   \<and> set_letterspace percent k = modify_profile update_timings k"
proof -
  have p: "update_timings (q\<lparr>style := (style q)\<lparr>dah_dit_ratio := x\<rparr>\<rparr>) = update_timings q" for q x
    using interpolation_overrides [where s = "style q" and r = x and e = "extra_letterspace_percent (style q)"]
    by (simp add: update_timings_def split: prod.splits)
  have l: "update_timings (q\<lparr>style := (style q)\<lparr>extra_letterspace_percent := x\<rparr>\<rparr>) = update_timings q" for q x
    using interpolation_overrides [where s = "style q" and r = "dah_dit_ratio (style q)" and e = x]
    by (simp add: update_timings_def split: prod.splits)
  show ?thesis
    by (simp add: set_dah_dit_ratio_def set_letterspace_def profile_set_dah_dit_ratio_def
        profile_set_letterspace_def modify_profile_def p l)
qed

section \<open>Deadlines\<close>

text \<open>
  The deadline of the space between characters is computed in \<open>float\<close>, which cannot hold a
  millisecond count above \<open>2 ^ 24\<close> exactly. After 24.8 days of running, at the default speed, a space of
  102 milliseconds can last 383.
\<close>

theorem autospace_deadline_loses_precision:
  "\<exists>k'. autospace_enter (still_env\<lparr>clk := (\<lambda>_. 2147483777)\<rparr>) init_keyer = Some k'
     \<and> autospace_time_to_exit k' - 2147483777 = 383
     \<and> to_u32 (sub32 (space_between_chars_ms default_timings)
                       (weighted_inter_element_space_ms default_timings)) = Some 102"
proof -
  have f: "f32_of_int 2147483777 = Fin 2147483904"
    "add32 (Fin 2147483904) (Fin (2507755 / 16384)) = Fin 2147484160"
    "sub32 (Fin 2147484160) (Fin (6687347 / 131072)) = Fin 2147484160"
    "to_u32 (Fin 2147484160) = Some 2147484160"
    "to_u32 (sub32 (Fin (2507755 / 16384)) (Fin (6687347 / 131072))) = Some 102"
    by code_simp+
  show ?thesis
    by (simp add: autospace_enter_def get_current_profile_def init_keyer_def keyer_zero_def current_ms_def
        default_timings_def f del: fadd.simps)
qed

section \<open>Memories\<close>

lemma set_memory_loop_result:
  "i + length cs \<le> 255 \<Longrightarrow> 0 \<notin> set cs \<Longrightarrow> length row = 256
   \<Longrightarrow> set_memory_loop i row cs = take i row @ cs @ drop (i + length cs) row"
proof (induction cs arbitrary: i row)
  case (Cons c cs)
  have i: "i < length row" using Cons.prems by simp
  have "set_memory_loop i row (c # cs) = set_memory_loop (i + 1) (row[i := c]) cs"
    using Cons.prems by (auto simp: MemorySlotSize_def)
  also have "\<dots> = take (i + 1) (row[i := c]) @ cs @ drop (i + 1 + length cs) (row[i := c])"
    using Cons.prems by (intro Cons.IH) auto
  also have "take (i + 1) (row[i := c]) = take i row @ [c]"
    using i by (simp add: take_Suc_conv_app_nth)
  finally show ?case by simp
qed simp

lemma takeWhile_nonzero: "(0::u8) \<notin> set cs \<Longrightarrow> takeWhile (\<lambda>c. c \<noteq> 0) (cs @ 0 # zs) = cs"
  by (induction cs) auto

text \<open>
  A message stored with \<open>set_memory\<close> reads back with its length, provided the byte after it is
  still zero: the loop copies the characters and never writes a terminator, so it relies on the one
  an earlier, not longer message left there.
\<close>

theorem memory_roundtrip:
  assumes "unat slot < 4" "map length (memory (data k)) = [256, 256, 256, 256]"
    and "length content \<le> 255" "0 \<notin> set content"
    and "memory (data k) ! unat slot ! length content = 0"
  shows "get_memory_size slot (set_memory slot content k) = Some (of_nat (length content))
       \<and> map_option (take (length content)) (get_memory slot (set_memory slot content k)) = Some content"
proof -
  define row where "row = memory (data k) ! unat slot"
  have n: "length (memory (data k)) = 4" using arg_cong [OF assms(2), of length] by simp
  then have len: "length row = 256"
    using arg_cong [OF assms(2), of "\<lambda>l. l ! unat slot"] assms(1)
    by (auto simp: row_def nth_Cons' less_Suc_eq numeral_eq_Suc)
  define new where "new = set_memory_loop 0 row content"
  have "new = content @ drop (length content) row"
    using set_memory_loop_result [of 0 content row] assms(3,4) len by (simp add: new_def)
  also have "drop (length content) row = 0 # drop (Suc (length content)) row"
    using assms(3,5) len by (simp add: Cons_nth_drop_Suc [symmetric] row_def)
  finally have new: "new = content @ 0 # drop (Suc (length content)) row" .
  have "strlen new = Some (length content)"
    using takeWhile_nonzero [OF assms(4)] new by (simp add: strlen_def Let_def)
  moreover have "memory (data (set_memory slot content k)) ! unat slot = new"
    using assms(1) n by (simp add: set_memory_def MemorySlots_def new_def row_def)
  ultimately show ?thesis
    using assms(1) new by (simp add: get_memory_size_def get_memory_def MemorySlots_def)
qed

theorem memory_roundtrip_witness:
  "get_memory_size 1 (set_memory 1 [67, 81] init_keyer) = Some 2
   \<and> map_option (take 2) (get_memory 1 (set_memory 1 [67, 81] init_keyer)) = Some [67, 81]"
proof -
  have m: "memory (data init_keyer) = replicate 4 (replicate 256 0)"
    by (simp add: init_keyer_def keyer_internal_state_zero_def MemorySlots_def MemorySlotSize_def)
  have two: "(2::nat) = Suc (Suc 0)" by simp
  have r: "replicate 4 (replicate 256 (0::u8)) =
      [replicate 256 0, replicate 256 0, replicate 256 0, replicate 256 0]"
    by (simp add: numeral_eq_Suc)
  show ?thesis
    using memory_roundtrip [of 1 init_keyer "[67, 81]"] unfolding m r two by simp
qed

text \<open>
  Recording runs over the end of a memory slot: the character that fills the last of the 256
  bytes makes \<open>stop_recording\<close> write the terminator into byte 256 of the row, undefined behaviour,
  while every earlier character is stored without.
\<close>

theorem recording_last_byte_undefined:
  assumes "unat (recording_slot (data k)) < 4" "unat (recording_index (data k)) < 256"
  shows "(add_char_to_recording_memory c k = None) = (recording_index (data k) = 255)"
proof -
  let ?i = "recording_index (data k)"
  have i: "unat (?i + 1) = unat ?i + 1"
    using assms(2) by (intro unat_add_lem [THEN iffD1, THEN trans]) simp_all
  have e: "(?i = 255) = (unat ?i = 255)"
    using unsigned_word_eqI [of ?i 255, where 'a = nat] by auto
  have o: "stop_recording k' = None" if "unat (recording_index (data k')) = 256" for k'
    using that by (simp add: stop_recording_def memory_store_def MemorySlotSize_def)
  show ?thesis
    using assms i e o
    by (auto simp: add_char_to_recording_memory_def memory_store_def MemorySlots_def MemorySlotSize_def Let_def)
qed

theorem recording_last_byte_undefined_witness:
  "add_char_to_recording_memory 65 (data_update (recording_index_update (\<lambda>_. 255)) init_keyer) = None"
  using recording_last_byte_undefined
    [of "data_update (recording_index_update (\<lambda>_. 255)) init_keyer" 65]
  by (simp add: init_keyer_def keyer_internal_state_zero_def)

end
