(* ===== verification/Keyer_Trace.thy ===== *)
theory Keyer_Trace
  imports Keyer_Key_Line "HOL-Library.Sublist"
begin

text \<open>
  The trace of callbacks only grows, so that what one tick does to the hardware is the part it
  adds; and how long an element is held.
\<close>

section \<open>The trace grows\<close>

definition extends :: "keyer \<Rightarrow> keyer \<Rightarrow> bool" where
  "extends k k' \<longleftrightarrow> prefix (trace k) (trace k')"

lemma extends_refl [simp]: "extends k k"
  by (simp add: extends_def)

lemma extends_trans: "extends a b \<Longrightarrow> extends b c \<Longrightarrow> extends a c"
  by (simp add: extends_def)

lemma extends_emit [simp]: "extends k (emit e k') \<longleftrightarrow> prefix (trace k) (trace k' @ [e])"
  by (simp add: extends_def)

lemma extends_same: "trace k' = trace k \<Longrightarrow> extends k k'"
  by (simp add: extends_def)

lemma extends_memory_store: "memory_store s i c k = Some k' \<Longrightarrow> trace k' = trace k"
  by (auto simp: memory_store_def split: if_splits)

lemma extends_stop_recording: "stop_recording k = Some k' \<Longrightarrow> extends k k'"
  by (auto simp: stop_recording_def Let_def bind_eq_Some_conv emit_def
      extends_def split: if_splits dest!: extends_memory_store)

lemma extends_add_char: "add_char_to_recording_memory c k = Some k' \<Longrightarrow> extends k k'"
  by (auto simp: add_char_to_recording_memory_def Let_def bind_eq_Some_conv split: if_splits
      dest!: extends_memory_store extends_stop_recording) (auto simp: extends_def)

lemma extends_report_char: "report_char c k = Some k' \<Longrightarrow> extends k k'"
  by (auto simp: report_char_def Let_def split: if_splits dest!: extends_add_char)
    (auto simp: extends_def emit_def dest: append_prefixD)

lemma trace_send_next_bit: "send_next_bit k = Some (s, k') \<Longrightarrow> trace k' = trace k"
  by (auto simp: send_next_bit_def Let_def split: if_splits)

lemma check_paddle_trace [simp]:
  "trace (check_dit_paddle E k) = trace k" "trace (check_dah_paddle E k) = trace k"
  by (simp_all add: check_dit_paddle_def check_dah_paddle_def is_paddle_pressed_def)

lemma state_update_extends:
  assumes "state_update E t now k = Some (s, k')"
  shows "extends k k'"
proof (cases t)
  case St_idle
  then show ?thesis
    using assms
    by (auto simp: idle_update_def Let_def bind_eq_Some_conv current_ms_def extends_def split: if_splits prod.splits
        dest!: extends_report_char intro: prefix_order.trans)
next
  case St_winkeyer
  then show ?thesis
    using assms
    by (auto simp: winkeyer_update_def Let_def extends_def load_pattern_def split: if_splits option.splits
        dest!: trace_send_next_bit)
next
  case St_play
  then show ?thesis
    using assms
    by (auto simp: play_update_def fetch_next_playing_char_def bind_eq_Some_conv stop_playing_def extends_def
        load_pattern_def split: if_splits option.splits dest!: trace_send_next_bit)
qed (use assms in \<open>auto simp: extends_def send_element_update_def inter_element_space_update_def
      inter_word_space_update_def autospace_update_def half_dot_gap_update_def current_ms_def Let_def
      bind_eq_Some_conv split: if_splits\<close>)

lemma state_enter_extends:
  assumes "state_enter E s k = Some k'"
  shows "extends k k'"
  using assms
  by (cases s) (auto simp: idle_enter_def send_element_enter_def set_sidetone_and_tx_def extends_def
      inter_element_space_enter_def inter_word_space_enter_def autospace_enter_def winkeyer_enter_def
      half_dot_gap_enter_def bind_eq_Some_conv Let_def current_ms_def)

lemma state_exit_extends:
  assumes "state_exit E s k = Some k'"
  shows "extends k k'"
  using assms
  by (auto simp: send_element_exit_def set_sidetone_and_tx_def current_ms_def bind_eq_Some_conv Let_def
      extends_def split: if_splits)

lemma switch_to_extends:
  assumes "switch_to E s k = Some k'"
  shows "extends k k'"
  using assms
  by (auto simp: switch_to_def bind_eq_Some_conv extends_def split: if_splits option.splits
      simp del: state_exit.simps dest!: state_exit_extends [unfolded extends_def]
      state_enter_extends [unfolded extends_def] intro: prefix_order.trans)

lemma update_loop_extends: "update_loop E n k = Some k' \<Longrightarrow> extends k k'"
proof (induction n arbitrary: k)
  case (Suc n)
  show ?case
  proof (cases "current_state (data k)")
    case None
    then show ?thesis using Suc.prems by simp
  next
    case (Some s)
    then obtain m k1 where u: "state_update E s (clk E (reads k)) (k\<lparr>reads := reads k + 1\<rparr>) = Some (m, k1)"
      and rest: "(if Some m = current_state (data k1) then Some k1
                  else Option.bind (switch_to E m k1) (update_loop E n)) = Some k'"
      using Suc.prems by (auto simp: bind_eq_Some_conv current_ms_def split: if_splits)
    have "extends k k1" using state_update_extends [OF u] by (simp add: extends_def)
    then show ?thesis
      using rest Suc.IH by (auto simp: bind_eq_Some_conv split: if_splits dest!: switch_to_extends
          intro: extends_trans)
  qed
qed simp

section \<open>How long an element is held\<close>

text \<open>
  (C24) The key is held for exactly the element: a tick before the deadline of the element changes
  neither the state nor the key, and the first tick at or after it releases the key, among the
  callbacks of that same tick.
\<close>

theorem element_held_until_deadline:
  assumes "current_state (data k) = Some St_send_element" "update E k = Some k'"
  shows "(clk E (reads k) < send_time_to_exit k \<longrightarrow>
            trace k' = trace k \<and> current_state (data k') = Some St_send_element)
       \<and> (send_time_to_exit k \<le> clk E (reads k) \<longrightarrow>
            prefix (trace k @ [Tone_off, Key_up]) (trace k'))"
proof -
  define k0 where "k0 = snd (current_ms E k)"
  have k0: "data k0 = data k" "trace k0 = trace k" "send_time_to_exit k0 = send_time_to_exit k"
    "reads k0 = Suc (reads k)" by (simp_all add: k0_def current_ms_def)
  obtain m k1 where u: "send_element_update E (clk E (reads k)) k0 = Some (m, k1)"
    and rest: "(if Some m = current_state (data k1) then Some k1
                  else Option.bind (switch_to E m k1) (update_loop E 15)) = Some k'"
    using assms by (auto simp: update_def update_loop_numeral bind_eq_Some_conv current_ms_def k0_def split: if_splits)
  have q: "trace k1 = trace k" "current_state (data k1) = Some St_send_element"
    and m: "m = (if send_time_to_exit k \<le> clk E (reads k) then St_inter_element_space else St_send_element)"
    using u assms(1) k0 quiet_check_dit [of k0 E] quiet_check_dah [of k0 E]
    by (auto simp: send_element_update_def Let_def quiet_def check_dit_paddle_def check_dah_paddle_def
        is_paddle_pressed_def split: if_splits)
  show ?thesis
  proof (cases "send_time_to_exit k \<le> clk E (reads k)")
    case False
    then show ?thesis using rest q m by simp
  next
    case True
    then obtain k2 where s: "switch_to E St_inter_element_space k1 = Some k2" "update_loop E 15 k2 = Some k'"
      using rest q m by (auto simp: bind_eq_Some_conv)
    then obtain k3 where "send_element_exit E k1 = Some k3"
        "state_enter E St_inter_element_space (data_update (current_state_update (\<lambda>_. Some St_inter_element_space)) k3) = Some k2"
      using q(2) by (auto simp: switch_to_def bind_eq_Some_conv simp del: state_enter.simps)
    note parts = this
    have "prefix (trace k1 @ [Tone_off, Key_up]) (trace k3)"
      using parts(1)
      by (auto simp: send_element_exit_def set_sidetone_and_tx_def current_ms_def Let_def split: if_splits)
    moreover have "prefix (trace k3) (trace k2)"
      using state_enter_extends [OF parts(2)] by (simp add: extends_def)
    ultimately have "prefix (trace k @ [Tone_off, Key_up]) (trace k2)"
      using q(1) by (auto intro: prefix_order.trans)
    then have "prefix (trace k @ [Tone_off, Key_up]) (trace k')"
      using update_loop_extends [OF s(2)] by (auto simp: extends_def intro: prefix_order.trans)
    then show ?thesis using True by auto
  qed
qed

text \<open>The first dit of the letter A, begun at time 0: a tick at 49 ms changes nothing, the tick at
  50 ms releases the key.\<close>

lemma space_ops_24:
  "f32_of_int 100 = Fin 100" "sub32 (Fin 100) (Fin 50) = Fin 50" "div32 (Fin 50) (Fin 50) = Fin 1"
  "mul32 (Fin 50) (Fin 1) = Fin 50"
  by code_simp+

lemma demo_ticks:
  "\<exists>k'. update (still_env\<lparr>clk := (\<lambda>_. 49)\<rparr>) demo_keyer = Some k'"
  "\<exists>k'. update (still_env\<lparr>clk := (\<lambda>_. 50)\<rparr>) demo_keyer = Some k'"
  by (simp_all add: update_def update_loop_numeral demo_keyer_def init_keyer_def keyer_internal_state_zero_def
      keyer_zero_def still_env_def current_ms_def send_element_update_def check_dah_paddle_def Let_def
      is_paddle_pressed_def switch_to_def send_element_exit_def set_sidetone_and_tx_def
      get_current_profile_def profile_default_def code_style_default_def emit_def
      inter_element_space_enter_def inter_element_space_length_ms_def element_length_ms_def send_ops_24
      space_ops_24 inter_element_space_update_def
      del: fadd.simps fmul.simps fdiv.simps)

theorem element_held_until_deadline_witness:
  "(\<exists>k'. update (still_env\<lparr>clk := (\<lambda>_. 49)\<rparr>) demo_keyer = Some k'
      \<and> trace k' = [Tone_on 500, Key_down, Dit_on])
   \<and> (\<exists>k'. update (still_env\<lparr>clk := (\<lambda>_. 50)\<rparr>) demo_keyer = Some k'
      \<and> prefix [Tone_on 500, Key_down, Dit_on, Tone_off, Key_up] (trace k'))"
proof -
  have d: "current_state (data demo_keyer) = Some St_send_element" "send_time_to_exit demo_keyer = 50"
    "trace demo_keyer = [Tone_on 500, Key_down, Dit_on]"
    by (simp_all add: demo_keyer_def)
  obtain a b where "update (still_env\<lparr>clk := (\<lambda>_. 49)\<rparr>) demo_keyer = Some a"
    "update (still_env\<lparr>clk := (\<lambda>_. 50)\<rparr>) demo_keyer = Some b" using demo_ticks by blast
  then show ?thesis
    using element_held_until_deadline [OF d(1), of "still_env\<lparr>clk := (\<lambda>_. 49)\<rparr>" a]
      element_held_until_deadline [OF d(1), of "still_env\<lparr>clk := (\<lambda>_. 50)\<rparr>" b] d
    by (auto simp: still_env_def)
qed

end
