(* ===== verification/Cwdaemon_Properties.thy ===== *)
theory Cwdaemon_Properties
  imports Cwdaemon_Server Keyer_Properties Keyer_Trace
begin

text \<open>
  Properties of the CW daemon: the byte parser is at rest between messages, the tuning carrier is
  switched on and off again, and the DTR line follows the keyer.
\<close>

section \<open>The parser between messages\<close>

definition parser_idle :: "keyer \<Rightarrow> bool" where
  "parser_idle k \<longleftrightarrow> winkeyer_waiting_for_arguments (data k) = 0
     \<and> winkeyer_remaining_buffered_arguments (data k) = 0 \<and> parser_inv k"

lemma bind_feed_Nil: "Option.bind m (feed []) = m"
  by (cases m) simp_all

lemma feed_character:
  assumes "32 \<le> c" "parser_idle k"
  shows "\<exists>k'. feed [c] k = Some k' \<and> parser_idle k' \<and> trace k' = trace k"
proof -
  have "\<not> is_winkeyer_command c" using assms(1) unfolding is_winkeyer_command_def by unat_arith
  then show ?thesis
    using assms(2)
    by (simp add: winkeyer_data_def Let_def parser_idle_def buffer_byte_def parser_inv_def)
qed

lemma feed_speed_change:
  assumes "parser_idle k"
  shows "\<exists>k'. feed [0x1C, v] k = Some k' \<and> parser_idle k' \<and> trace k' = trace k"
  using assms
  by (simp add: winkeyer_data_def Let_def parser_idle_def buffer_byte_def parser_inv_def
      is_winkeyer_command_def is_winkeyer_buffered_command_def parameter_count_def
      winkey_commands_parameter_count_def)

text \<open>An immediate command with one argument is executed at once.\<close>

definition with_command :: "u8 \<Rightarrow> u8 \<Rightarrow> keyer \<Rightarrow> keyer" where
  "with_command c a k =
     k\<lparr>data := (data k)\<lparr>winkeyer_pending_command := c,
         winkeyer_arguments := (winkeyer_arguments (data k))[0 := a],
         winkeyer_argument_index := 1, winkeyer_waiting_for_arguments := 0\<rparr>\<rparr>"

lemma feed_command:
  assumes "parser_idle k" "c \<le> 0x17" "parameter_count c = 1"
  shows "feed [c, a] k = execute_command (with_command c a k)"
proof -
  have "is_winkeyer_command c \<and> \<not> is_winkeyer_buffered_command c"
    using assms(2) unfolding is_winkeyer_command_def is_winkeyer_buffered_command_def by unat_arith
  then show ?thesis
    using assms(1,3)
    by (simp add: winkeyer_data_def Let_def parser_idle_def parser_inv_def with_command_def bind_feed_Nil)
qed

lemma execute_idle:
  assumes "parser_idle k"
  shows "\<exists>k'. execute_command (with_command c a k) = Some k' \<and> parser_idle k'"
proof -
  have p: "length (profiles k) = 3" "unat (current_profile k) < 3" "length (winkeyer_arguments (data k)) = 15"
    using assms by (simp_all add: parser_idle_def parser_inv_def)
  then show ?thesis
    using assms
    by (auto simp: execute_command_def Let_def with_command_def set_speed_def modify_profile_def
        get_current_profile_def emit_def parser_idle_def parser_inv_def)
qed

lemma feed_clear:
  assumes "parser_idle k"
  shows "\<exists>k'. feed [0x0A] k = Some k' \<and> parser_idle k'"
  using assms
  by (simp add: winkeyer_data_def Let_def parser_idle_def parser_inv_def is_winkeyer_command_def
      is_winkeyer_buffered_command_def parameter_count_def winkey_commands_parameter_count_def
      execute_command_def)

lemma immediate_counts: "parameter_count 2 = 1" "parameter_count 3 = 1" "parameter_count 0x0B = 1"
  by (simp_all add: parameter_count_def winkey_commands_parameter_count_def)

lemma feed_immediate:
  "parser_idle k \<Longrightarrow> c \<in> {2, 3, 0x0B} \<Longrightarrow> \<exists>k'. feed [c, a] k = Some k' \<and> parser_idle k'"
  using feed_command [of k c a] execute_idle [of k c a] immediate_counts by (auto simp del: feed.simps)

section \<open>The interface between translation and keyer\<close>

text \<open>What the translation of messages relies on: a byte sink that is ready again after every
  character, buffered speed change, clear command and immediate command with one argument. A message
  then leaves it ready.\<close>

fun put_all :: "('b \<Rightarrow> 'k \<Rightarrow> 'k option) \<Rightarrow> 'b list \<Rightarrow> 'k \<Rightarrow> 'k option" where
  "put_all put [] k = Some k"
| "put_all put (c # cs) k = Option.bind (put c k) (put_all put cs)"

lemma put_all_append: "put_all put (xs @ ys) k = Option.bind (put_all put xs k) (put_all put ys)"
  by (induction xs arbitrary: k) (auto split: Option.bind_split)

lemma feed_put_all: "feed = put_all winkeyer_data"
proof (intro ext)
  show "feed bs k = put_all winkeyer_data bs k" for bs k
    by (induction bs arbitrary: k) (simp_all cong: Option.bind_cong)
qed

definition sent_bytes :: "u8 list \<Rightarrow> u8 list" where
  "sent_bytes bs = (if is_tuning_command bs then butlast bs else bs)"

text \<open>The byte sequences an escape command is translated into.\<close>

lemma escape_shapes:
  assumes "escape_command m speed = Inr bs"
  shows "bs = [] \<or> bs = [0x0A] \<or> (\<exists>c a. c \<in> {2, 3} \<and> bs = [c, a]) \<or> (\<exists>n. bs = [0x0B, 1, n])"
  using assms
  by (auto simp: escape_command_def bind_result_Inr_iff split: list.splits if_splits)

locale winkeyer_sink =
  fixes put :: "u8 \<Rightarrow> 'k \<Rightarrow> 'k option" and ready :: "'k \<Rightarrow> bool"
  assumes character: "ready k \<Longrightarrow> 32 \<le> c \<Longrightarrow> \<exists>k'. put_all put [c] k = Some k' \<and> ready k'"
    and speed_change: "ready k \<Longrightarrow> \<exists>k'. put_all put [0x1C, v] k = Some k' \<and> ready k'"
    and clear: "ready k \<Longrightarrow> \<exists>k'. put_all put [0x0A] k = Some k' \<and> ready k'"
    and immediate: "ready k \<Longrightarrow> c \<in> {2, 3, 0x0B} \<Longrightarrow> \<exists>k'. put_all put [c, a] k = Some k' \<and> ready k'"
begin

lemma text_ready:
  assumes "text_stream bs" "ready k"
  shows "\<exists>k'. put_all put bs k = Some k' \<and> ready k'"
  using assms(1)
proof induction
  case (ts_char xs c)
  then show ?case using character by (fastforce simp: put_all_append simp del: put_all.simps)
next
  case (ts_speed xs v)
  then show ?case using speed_change by (fastforce simp: put_all_append simp del: put_all.simps)
qed (use assms(2) in simp)

lemma message_ready:
  assumes "ready k" "to_winkeyer m speed = Inr bs"
  shows "\<exists>k'. put_all put (sent_bytes bs) k = Some k' \<and> ready k'"
proof -
  obtain out cur where o: "(if hd m \<noteq> 27 then text_loop m speed False []
      else bind_result (escape_command m speed) (\<lambda>out. Inr (out, speed))) = Inr (out, cur)"
    and bs: "bs = (if cur \<noteq> speed then out @ [0x1C, speed] else out)"
    using assms(2) by (auto simp: to_winkeyer_def bind_result_Inr_iff split: if_splits)
  show ?thesis
  proof (cases "hd m = 27")
    case False
    then have "text_stream out"
      using o text_loop_stream [of m speed False "[]" out cur speed] by (simp add: ts_Nil)
    then have "text_stream bs" using bs by (simp add: ts_speed)
    then show ?thesis using text_ready [OF _ assms(1)] text_stream_not_tuning by (auto simp: sent_bytes_def)
  next
    case True
    then have "escape_command m speed = Inr bs" using o bs by (auto simp: bind_result_Inr_iff)
    from escape_shapes [OF this] show ?thesis
      using assms(1) clear [OF assms(1)] immediate [OF assms(1)]
      by (auto simp: sent_bytes_def is_tuning_command_def simp del: put_all.simps) (auto simp: assms(1))
  qed
qed

end

interpretation keyer_sink: winkeyer_sink winkeyer_data parser_idle
proof
  show "\<exists>k'. put_all winkeyer_data [c] k = Some k' \<and> parser_idle k'" if "parser_idle k" "32 \<le> c" for k c
    using feed_character [OF that(2,1)] by (auto simp only: feed_put_all)
  show "\<exists>k'. put_all winkeyer_data [0x1C, v] k = Some k' \<and> parser_idle k'" if "parser_idle k" for k v
    using feed_speed_change [OF that] by (auto simp only: feed_put_all)
  show "\<exists>k'. put_all winkeyer_data [0x0A] k = Some k' \<and> parser_idle k'" if "parser_idle k" for k
    using feed_clear [OF that] by (simp only: feed_put_all)
  show "\<exists>k'. put_all winkeyer_data [c, a] k = Some k' \<and> parser_idle k'"
    if "parser_idle k" "c \<in> {2, 3, 0x0B}" for k c a
    using feed_immediate [OF that] by (simp only: feed_put_all)
qed

text \<open>
  (C21) Every message of a client is translated into complete commands: whatever the message, if its
  translation does not throw, feeding the bytes the daemon sends for it is defined in every step
  and leaves the byte parser where it found it, waiting for no argument. So no message can swallow
  bytes of the next one.
\<close>

theorem messages_are_complete_commands:
  assumes "parser_idle k" "to_winkeyer m speed = Inr bs"
  shows "\<exists>k'. feed (if is_tuning_command bs then butlast bs else bs) k = Some k' \<and> parser_idle k'"
  using keyer_sink.message_ready [OF assms] by (simp add: feed_put_all sent_bytes_def)

text \<open>The daemon as constructed accepts a text message.\<close>

lemma parser_idle_init: "parser_idle init_keyer"
  by (simp add: parser_idle_def parser_inv_def init_keyer_def keyer_internal_state_zero_def keyer_zero_def)

theorem messages_are_complete_commands_witness:
  "\<exists>k'. feed [84, 69, 83, 84] init_keyer = Some k' \<and> parser_idle k'"
proof -
  have "to_winkeyer [116, 101, 115, 116, 0] 24 = Inr [84, 69, 83, 84]" by code_simp
  moreover have "\<not> is_tuning_command [84, 69, 83, 84]" by (simp add: is_tuning_command_def)
  ultimately show ?thesis using messages_are_complete_commands [OF parser_idle_init] by fastforce
qed

section \<open>From the datagram to the keyer\<close>

lemma buffer_byte_text:
  assumes "winkeyer_remaining_buffered_arguments (data k) = 0" "\<not> is_winkeyer_command c"
  shows "buffer_byte c k = data_update (winkeyer_buffer_update (cb_put c)) k"
  using assms by (simp add: buffer_byte_def)

lemma feed_characters_value:
  assumes "\<forall>c \<in> set cs. 32 \<le> c" "parser_idle k"
  shows "feed cs k = Some (data_update (winkeyer_buffer_update (fold cb_put cs)) k)"
  using assms
proof (induction cs arbitrary: k)
  case (Cons c cs)
  have n: "\<not> is_winkeyer_command c" using Cons.prems(1) unfolding is_winkeyer_command_def by (auto simp: not_le) unat_arith
  then have "winkeyer_data c k = Some (buffer_byte c k)" "parser_idle (buffer_byte c k)"
    using Cons.prems(2) by (simp_all add: winkeyer_data_def Let_def parser_idle_def buffer_byte_def parser_inv_def)
  moreover have "buffer_byte c k = data_update (winkeyer_buffer_update (cb_put c)) k"
    using n Cons.prems(2) by (intro buffer_byte_text) (simp add: parser_idle_def)
  ultimately show ?case using Cons.IH [of "buffer_byte c k"] Cons.prems(1) by (simp add: comp_def)
qed simp

text \<open>Plain text only reaches the buffer.\<close>

definition with_text :: "u8 list \<Rightarrow> keyer \<Rightarrow> keyer" where
  "with_text cs k = data_update (winkeyer_buffer_update (fold cb_put cs)) k"

lemma with_text_fields [simp]:
  "parser_idle (with_text cs k) = parser_idle k" "trace (with_text cs k) = trace k"
  "winkeyer_buffer (data (with_text cs k)) = fold cb_put cs (winkeyer_buffer (data k))"
  by (simp_all add: with_text_def parser_idle_def parser_inv_def)

lemma handle_plain_text:
  assumes "\<forall>c \<in> set msg. 32 \<le> c \<and> c < 126 \<and> c \<noteq> 45 \<and> c \<noteq> 43" "msg \<noteq> []"
    and "parser_idle (wk s)" "get_speed (wk s) = Some f" "to_u8 f = Some speed"
  shows "handle_message now (msg @ [0]) s = Inr (Fall_through, s\<lparr>wk := with_text (map toupper msg) (wk s)\<rparr>)"
proof -
  have w: "to_winkeyer (msg @ [0]) speed = Inr (map toupper msg)" using assms(1) by (rule plain_text_sent)
  have ge: "\<forall>c \<in> set (map toupper msg). 32 \<le> c" using assms(1) toupper_ge by auto
  have h: "msg ! 0 \<noteq> 27" using assms(1,2) by (cases msg) auto
  have "toupper (hd msg) \<noteq> 0x0B" using ge assms(2) by (cases msg) auto
  then have nt: "\<not> is_tuning_command (map toupper msg)"
    using assms(2) by (cases msg) (auto simp: is_tuning_command_def)
  have ne: "\<not> is_exit_cmd (msg @ [0])" "\<not> is_abort_send_cmd (msg @ [0])"
    using h assms(2) by (auto simp: is_exit_cmd_def is_abort_send_cmd_def nth_append)
  show ?thesis
    using assms(4,5) w nt ne feed_characters_value [OF ge assms(3)]
    by (simp add: handle_message_def undefined_if_none_def with_text_def)
qed

text \<open>Receiving and handling a datagram of plain text.\<close>

lemma plain_datagram:
  assumes "bs \<noteq> []" "length bs < 1024" "length (buffer u) = 1024"
    and "\<forall>c \<in> set bs. 32 \<le> c \<and> c < 126 \<and> c \<noteq> 45 \<and> c \<noteq> 43"
    and "parser_idle (wk s)" "get_speed (wk s) = Some f" "to_u8 f = Some speed" "\<not> is_tuning s"
  shows "\<exists>n u'. receive (Recvfrom_bytes bs) u = Inr (True, u') \<and> 0 < n \<and> n \<le> length bs \<and> list_all blank (drop n bs)
    \<and> client_iteration (Some (last_message u')) t t' s
        = Inr (True, s\<lparr>wk := with_text (map toupper (take n bs)) (wk s)\<rparr>)"
proof -
  obtain n u' where r: "receive (Recvfrom_bytes bs) u = Inr (True, u')" "0 < n" "n \<le> length bs"
    "last_message u' = take n bs @ [0]" "list_all blank (drop n bs)"
    using datagram_message [OF assms(1-3)] by blast
  have plain: "\<forall>c \<in> set (take n bs). 32 \<le> c \<and> c < 126 \<and> c \<noteq> 45 \<and> c \<noteq> 43"
    using assms(4) by (meson in_set_takeD)
  have "take n bs \<noteq> []" using r(2) assms(1) by auto
  from handle_plain_text [OF plain this assms(5-7)] r assms(8) show ?thesis
    by (intro exI [of _ n] exI [of _ u']) (simp add: client_iteration_def check_tune_time_def)
qed

text \<open>
  A datagram of text reaches the keyer: for every datagram of plain characters that fits the buffer,
  receiving it, translating it and passing it on is defined, and afterwards the keyer's buffer holds what
  it held followed by the text in capitals without its trailing blanks (the oldest bytes lost if
  it does not fit), with the parser ready for the next message and the key untouched.
\<close>

theorem datagram_reaches_keyer:
  assumes "bs \<noteq> []" "length bs < 1024" "length (buffer u) = 1024"
    and "\<forall>c \<in> set bs. 32 \<le> c \<and> c < 126 \<and> c \<noteq> 45 \<and> c \<noteq> 43"
    and "parser_idle (wk s)" "get_speed (wk s) = Some f" "to_u8 f = Some speed" "\<not> is_tuning s"
    and "cb_inv (winkeyer_buffer (data (wk s)))"
  shows "\<exists>n u' s'. receive (Recvfrom_bytes bs) u = Inr (True, u') \<and> n \<le> length bs \<and> list_all blank (drop n bs)
    \<and> client_iteration (Some (last_message u')) t t' s = Inr (True, s') \<and> parser_idle (wk s')
    \<and> trace (wk s') = trace (wk s)
    \<and> cb_list (winkeyer_buffer (data (wk s'))) =
        drop (length (cb_list (winkeyer_buffer (data (wk s)))) + n - cb_capacity (winkeyer_buffer (data (wk s))))
          (cb_list (winkeyer_buffer (data (wk s))) @ map toupper (take n bs))"
proof -
  obtain n u' where r: "receive (Recvfrom_bytes bs) u = Inr (True, u')" "n \<le> length bs" "list_all blank (drop n bs)"
    "client_iteration (Some (last_message u')) t t' s = Inr (True, s\<lparr>wk := with_text (map toupper (take n bs)) (wk s)\<rparr>)"
    using plain_datagram [OF assms(1-8)] by blast
  then show ?thesis
    using assms(5) cb.fold_enq [OF assms(9), of "map toupper (take n bs)"]
    by (intro exI [of _ n] exI [of _ u'] exI [of _ "s\<lparr>wk := with_text (map toupper (take n bs)) (wk s)\<rparr>"])
      (simp add: min_absorb2)
qed

section \<open>Tuning\<close>

text \<open>The key command, on and off.\<close>

lemma feed_key:
  assumes "parser_idle k"
  shows "\<exists>k'. feed [0x0B, a] k = Some k' \<and> parser_idle k' \<and> key_line (trace k') = (a = 1)"
proof -
  have "length (winkeyer_arguments (data k)) = 15" using assms by (simp add: parser_idle_def parser_inv_def)
  moreover have "execute_command (with_command 0x0B a k)
      = Some (emit (if a = 1 then Key_down else Key_up) (with_command 0x0B a k))"
    using calculation by (simp add: execute_command_def with_command_def Let_def)
  ultimately show ?thesis
    using execute_idle [OF assms, of "0x0B" a] feed_command [OF assms, of "0x0B" a] immediate_counts
    by (auto simp del: feed.simps)
qed

lemma stop_tuning_releases:
  assumes "parser_idle (wk s)"
  shows "\<exists>s'. stop_tuning s = Inr s' \<and> \<not> is_tuning s' \<and> \<not> key_line (trace (wk s')) \<and> parser_idle (wk s')"
proof -
  obtain k where "feed [0x0B, 0x00] (wk s) = Some k" "parser_idle k" "\<not> key_line (trace k)"
    using feed_key [OF assms, of 0] by auto
  then show ?thesis by (simp add: stop_tuning_def undefined_if_none_def del: feed.simps)
qed

text \<open>The translation of a message at the speed of the keyer; what a pass finds: nothing, or a message that is not the exit command and
  whose translation does not throw; and whether it asks for another carrier.\<close>

definition translation :: "client_state \<Rightarrow> u8 list \<Rightarrow> u8 list result" where
  "translation s m = bind_result (undefined_if_none (Option.bind (get_speed (wk s)) to_u8)) (to_winkeyer m)"

definition readable :: "client_state \<Rightarrow> u8 list option \<Rightarrow> bool" where
  "readable s received = (case received of None \<Rightarrow> True | Some m \<Rightarrow> \<not> is_exit_cmd m \<and> \<not> isl (translation s m))"

definition asks_for_carrier :: "client_state \<Rightarrow> u8 list option \<Rightarrow> bool" where
  "asks_for_carrier s received =
     (case received of None \<Rightarrow> False | Some m \<Rightarrow> (case translation s m of Inl _ \<Rightarrow> False | Inr bs \<Rightarrow> is_tuning_command bs))"

lemma message_handled:
  assumes "parser_idle (wk s)" "\<not> is_exit_cmd m" "\<not> (is_tuning s \<and> is_abort_send_cmd m)" "translation s m = Inr bs"
  shows "\<exists>k. parser_idle k \<and> handle_message t m s = Inr (Fall_through,
     if is_tuning_command bs then s\<lparr>is_tuning := True, tune_end_time := t + 1000 * ucast (last bs), wk := k\<rparr> else s\<lparr>wk := k\<rparr>)"
proof -
  obtain speed where sp: "undefined_if_none (Option.bind (get_speed (wk s)) to_u8) = Inr speed" "to_winkeyer m speed = Inr bs"
    using assms(4) by (auto simp: translation_def bind_result_Inr_iff)
  obtain k where "feed (if is_tuning_command bs then butlast bs else bs) (wk s) = Some k" "parser_idle k"
    using keyer_sink.message_ready [OF assms(1) sp(2)] by (auto simp: feed_put_all sent_bytes_def)
  then show ?thesis
    using assms(2,3) sp
    by (intro exI [of _ k]) (auto simp: handle_message_def undefined_if_none_def [of "Some k"] split: if_splits)
qed

lemma check_releases:
  assumes "parser_idle (wk s)" "is_tuning s"
  shows "\<exists>s'. check_tune_time t s = Inr s' \<and> parser_idle (wk s')
    \<and> (if t \<le> tune_end_time s then s' = s else \<not> is_tuning s' \<and> \<not> key_line (trace (wk s')))"
  using assms stop_tuning_releases [OF assms(1)] by (auto simp: check_tune_time_def not_le)

lemma carrier_ends:
  assumes "is_tuning s" "tune_end_time s < t'" "parser_idle (wk s)" "readable s received"
  shows "\<exists>s'. client_iteration received t t' s = Inr (True, s') \<and> parser_idle (wk s')
    \<and> (if is_tuning s' then asks_for_carrier s received \<and> t' \<le> tune_end_time s' else \<not> key_line (trace (wk s')))"
proof (cases received)
  case None
  then show ?thesis using check_releases [OF assms(3,1), of t'] assms(2) by (auto simp: client_iteration_def)
next
  case (Some m)
  then obtain bs where m: "\<not> is_exit_cmd m" "translation s m = Inr bs"
    using assms(4) by (cases "translation s m") (auto simp: readable_def)
  show ?thesis
  proof (cases "is_abort_send_cmd m")
    case True
    then have "client_iteration received t t' s = bind_result (stop_tuning s) (\<lambda>s'. Inr (True, s'))"
      using m assms(1) Some
      by (auto simp: client_iteration_def handle_message_def translation_def bind_result_def split: sum.splits)
    then show ?thesis using stop_tuning_releases [OF assms(3)] by auto
  next
    case False
    with message_handled [OF assms(3) m(1) _ m(2), of t] obtain k where k: "parser_idle k"
      "handle_message t m s = Inr (Fall_through,
         if is_tuning_command bs then s\<lparr>is_tuning := True, tune_end_time := t + 1000 * ucast (last bs), wk := k\<rparr> else s\<lparr>wk := k\<rparr>)"
      by blast
    define s1 where "s1 = (if is_tuning_command bs
       then s\<lparr>is_tuning := True, tune_end_time := t + 1000 * ucast (last bs), wk := k\<rparr> else s\<lparr>wk := k\<rparr>)"
    have s1: "parser_idle (wk s1)" "is_tuning s1" using k(1) assms(1) by (simp_all add: s1_def)
    from check_releases [OF s1, of t'] obtain s2 where c: "check_tune_time t' s1 = Inr s2" "parser_idle (wk s2)"
      "if t' \<le> tune_end_time s1 then s2 = s1 else \<not> is_tuning s2 \<and> \<not> key_line (trace (wk s2))" by blast
    have "client_iteration received t t' s = Inr (True, s2)" using Some k(2) c(1) by (simp add: client_iteration_def flip: s1_def)
    moreover have "is_tuning_command bs" if "is_tuning s2" using that c(3) assms(2) by (auto simp: s1_def split: if_splits)
    ultimately show ?thesis using c(2,3) s1(2) m(2) Some by (auto simp: asks_for_carrier_def split: if_splits)
  qed
qed

text \<open>
  (C22) The tuning carrier is switched on by \<open>ESC c <seconds>\<close> and off again by the clock: the message
  puts the key down and notes the end, computed from the low byte of the number; as long as the clock
  has not passed the end a pass of the client thread without a message does nothing; and the first pass after it, whatever
  the keyer thread did in between and whether or not a message has arrived, releases the key and ends the tuning, unless the message asks for
  another carrier, which then lasts to its own end. Excepted are the exit command, which leaves the loop with the carrier on, and
  messages whose translation throws, which end the process.
\<close>

theorem tuning_carrier_timed:
  assumes "parser_idle (wk s)" "get_speed (wk s) = Some f" "to_u8 f = Some speed" "stoi_at args = Inr n"
  shows "(\<exists>s'. handle_message now (27 # 99 # args) s = Inr (Fall_through, s') \<and> is_tuning s'
            \<and> tune_end_time s' = now + 1000 * ucast (of_int n :: u8)
            \<and> key_line (trace (wk s')) \<and> parser_idle (wk s'))
       \<and> (\<forall>(s' :: client_state) t t'. is_tuning s' \<and> t' \<le> tune_end_time s' \<longrightarrow>
            client_iteration None t t' s' = Inr (True, s'))
       \<and> (\<forall>(s' :: client_state) received t t'. is_tuning s' \<and> tune_end_time s' < t' \<and> parser_idle (wk s') \<and> readable s' received \<longrightarrow>
            (\<exists>s''. client_iteration received t t' s' = Inr (True, s'') \<and> parser_idle (wk s'')
               \<and> (if is_tuning s'' then asks_for_carrier s' received \<and> t' \<le> tune_end_time s''
                  else \<not> key_line (trace (wk s'')))))"
proof (intro conjI allI impI)
  have w: "to_winkeyer (27 # 99 # args) speed = Inr [0x0B, 1, of_int n]"
    using assms(4) by (simp add: to_winkeyer_def escape_command_def)
  obtain k where "feed [0x0B, 1] (wk s) = Some k" "parser_idle k" "key_line (trace k)"
    using feed_key [OF assms(1), of 1] by auto
  then show "\<exists>s'. handle_message now (27 # 99 # args) s = Inr (Fall_through, s') \<and> is_tuning s'
      \<and> tune_end_time s' = now + 1000 * ucast (of_int n :: u8)
      \<and> key_line (trace (wk s')) \<and> parser_idle (wk s')"
    using assms w
    by (simp add: handle_message_def undefined_if_none_def is_exit_cmd_def is_abort_send_cmd_def
        is_tuning_command_def Let_def del: feed.simps)
next
  fix s' :: client_state and t t' assume "is_tuning s' \<and> t' \<le> tune_end_time s'"
  then show "client_iteration None t t' s' = Inr (True, s')"
    by (auto simp: client_iteration_def check_tune_time_def)
next
  fix s' :: client_state and received t t'
  assume "is_tuning s' \<and> tune_end_time s' < t' \<and> parser_idle (wk s') \<and> readable s' received"
  then have a: "is_tuning s'" "tune_end_time s' < t'" "parser_idle (wk s')" "readable s' received" by simp_all
  show "\<exists>s''. client_iteration received t t' s' = Inr (True, s'') \<and> parser_idle (wk s'')
      \<and> (if is_tuning s'' then asks_for_carrier s' received \<and> t' \<le> tune_end_time s'' else \<not> key_line (trace (wk s'')))"
    using a by (rule carrier_ends)
qed

text \<open>Ten seconds of carrier asked for at time 1000.\<close>

definition client_start :: client_state where
  "client_start = \<lparr>wk = init_keyer, is_tuning = False, tune_end_time = 0\<rparr>"

lemma client_start_speed:
  "get_speed (wk client_start) = Some (Fin 24)" "to_u8 (Fin 24) = Some 24" "parser_idle (wk client_start)"
  using parser_idle_init
  by (simp_all add: client_start_def get_speed_def get_current_profile_def init_keyer_def keyer_zero_def
      profile_default_def code_style_default_def)
    (simp add: to_u8_def trunc_rat_def)

theorem datagram_reaches_keyer_witness:
  "\<exists>n u' s'. receive (Recvfrom_bytes [99, 113, 32]) \<lparr>sockfd = 3, buffer = replicate 1024 0, message = []\<rparr> = Inr (True, u')
     \<and> list_all blank (drop n [99, 113, 32])
     \<and> client_iteration (Some (last_message u')) 0 0 client_start = Inr (True, s')
     \<and> cb_list (winkeyer_buffer (data (wk s'))) = map toupper (take n [99, 113, 32])"
proof -
  let ?u = "\<lparr>sockfd = 3, buffer = replicate 1024 0, message = []\<rparr>" and ?b = "winkeyer_buffer (data (wk client_start))"
  have b: "?b = circular_buffer_new (replicate 160 0)"
    by (simp add: client_start_def init_keyer_def keyer_internal_state_zero_def)
  then have inv: "cb_inv ?b" and e: "cb_list ?b = []" and cap: "cb_capacity ?b = 160"
    by (simp_all add: cb_inv_new cb_list_new) (simp add: cb_capacity_def circular_buffer_new_def)
  have "\<not> is_tuning client_start" by (simp add: client_start_def)
  moreover have "n - 160 = 0" if "n \<le> length [99, 113, 32 :: u8]" for n using that by simp
  ultimately show ?thesis
    using datagram_reaches_keyer [of "[99, 113, 32]" ?u client_start "Fin 24" 24 0 0] client_start_speed inv e cap
    by fastforce
qed

theorem tuning_carrier_timed_witness:
  "\<exists>s'. handle_message 1000 [27, 99, 49, 48, 0] client_start = Inr (Fall_through, s') \<and> is_tuning s'
     \<and> tune_end_time s' = 11000 \<and> key_line (trace (wk s'))
     \<and> client_iteration None 0 11000 s' = Inr (True, s')
     \<and> (\<exists>s''. client_iteration None 0 11001 s' = Inr (True, s'') \<and> \<not> key_line (trace (wk s'')))"
proof -
  have "stoi_at [49, 48, 0] = Inr 10" by code_simp
  note r = tuning_carrier_timed [OF client_start_speed(3,1,2) this, of 1000]
  from r obtain s' where s: "handle_message 1000 [27, 99, 49, 48, 0] client_start = Inr (Fall_through, s')"
    "is_tuning s'" "tune_end_time s' = 11000" "key_line (trace (wk s'))" "parser_idle (wk s')" by auto
  moreover have "client_iteration None 0 11000 s' = Inr (True, s')" using r s by auto
  moreover have "\<exists>s''. client_iteration None 0 11001 s' = Inr (True, s'') \<and> \<not> key_line (trace (wk s''))"
    using conjunct2 [OF conjunct2 [OF r], rule_format, of s' 11001 None 0] s
    by (auto simp: readable_def asks_for_carrier_def split: if_splits)
  ultimately show ?thesis by blast
qed

text \<open>
  The exit command ends the client thread as it stands: nothing is sent to the keyer, so a
  tuning carrier that is on stays on, with nobody left to time it out.
\<close>

theorem exit_leaves_carrier_on:
  assumes "is_exit_cmd m" "get_speed (wk s) = Some f" "to_u8 f = Some speed"
  shows "client_iteration (Some m) t t' s = Inr (False, s)"
  using assms by (simp add: client_iteration_def handle_message_def undefined_if_none_def)

theorem exit_leaves_carrier_on_witness:
  "\<exists>k. feed [0x0B, 1] init_keyer = Some k \<and> key_line (trace k)
     \<and> client_iteration (Some [27, 53, 0]) 0 0 (client_start\<lparr>wk := k, is_tuning := True\<rparr>)
       = Inr (False, client_start\<lparr>wk := k, is_tuning := True\<rparr>)"
proof -
  have "execute_command (with_command 0x0B 1 init_keyer) = Some (emit Key_down (with_command 0x0B 1 init_keyer))"
    by (simp add: execute_command_def with_command_def init_keyer_def keyer_internal_state_zero_def)
  then have f: "feed [0x0B, 1] init_keyer = Some (emit Key_down (with_command 0x0B 1 init_keyer))"
    using feed_command [OF parser_idle_init, of "0x0B" 1] immediate_counts by simp
  have "get_speed (emit Key_down (with_command 0x0B 1 init_keyer)) = Some (Fin 24)"
    using client_start_speed(1)
    by (simp add: client_start_def get_speed_def get_current_profile_def with_command_def emit_def
        init_keyer_def keyer_zero_def)
  then show ?thesis
    using f exit_leaves_carrier_on [of "[27, 53, 0]" "client_start\<lparr>wk := emit Key_down (with_command 0x0B 1 init_keyer),
        is_tuning := True\<rparr>" "Fin 24" 24 0 0] client_start_speed(2)
    by (simp add: is_exit_cmd_def del: feed.simps)
qed

section \<open>The DTR line\<close>

lemma iface_event_fd [simp]: "iface_fd (iface_event e i) = iface_fd i"
  by (cases e) (simp_all add: on_key_down_def on_key_up_def)

lemma iface_event_dtr: "0 \<le> iface_fd i \<Longrightarrow> dtr (iface_event e i) = key_event e (dtr i)"
  by (cases e) (simp_all add: on_key_down_def on_key_up_def)

lemma events_fd [simp]: "iface_fd (fold iface_event es i) = iface_fd i"
  by (induction es arbitrary: i) simp_all

lemma events_dtr: "0 \<le> iface_fd i \<Longrightarrow> dtr (fold iface_event es i) = fold key_event es (dtr i)"
  by (induction es arbitrary: i) (simp_all add: iface_event_dtr)

lemma drive_dtr:
  assumes "extends k k'" "0 \<le> iface_fd i" "dtr i = key_line (trace k)"
  shows "dtr (drive k k' i) = key_line (trace k')"
proof -
  obtain es where "trace k' = trace k @ es" using assms(1) by (auto simp: extends_def prefix_def)
  then show ?thesis using assms(2,3) by (simp add: drive_def events_dtr)
qed

lemma fold_key_event_mono: "(a \<longrightarrow> b) \<Longrightarrow> fold key_event es a \<longrightarrow> fold key_event es b"
proof (induction es arbitrary: a b)
  case (Cons e es)
  have "key_event e a \<longrightarrow> key_event e b" using Cons.prems by (cases e) simp_all
  then show ?case using Cons.IH by simp
qed simp

lemma drive_dtr_le:
  assumes "extends k k'" "0 \<le> iface_fd i" "dtr i \<longrightarrow> key_line (trace k)"
  shows "dtr (drive k k' i) \<longrightarrow> key_line (trace k')"
proof -
  obtain es where "trace k' = trace k @ es" using assms(1) by (auto simp: extends_def prefix_def)
  then show ?thesis using fold_key_event_mono [OF assms(3), of es] assms(2) by (simp add: drive_def events_dtr)
qed

lemma drive_fd [simp]: "iface_fd (drive k k' i) = iface_fd i"
  by (simp add: drive_def)

lemma execute_command_extends: "execute_command k = Some k' \<Longrightarrow> extends k k'"
  by (auto simp: execute_command_def Let_def set_speed_def modify_profile_def bind_eq_Some_conv extends_def
      split: if_splits)

lemma winkeyer_data_extends: "winkeyer_data c k = Some k' \<Longrightarrow> extends k k'"
  by (auto simp: winkeyer_data_def Let_def buffer_byte_def extends_def split: if_splits
      dest!: execute_command_extends)

lemma update_extends: "update E k = Some k' \<Longrightarrow> extends k k'"
  unfolding update_def by (rule update_loop_extends)

definition line_ok :: "keyer_thread \<Rightarrow> bool" where
  "line_ok t \<longleftrightarrow> 0 \<le> iface_fd (kt_iface t) \<longrightarrow> dtr (kt_iface t) \<longrightarrow> key_line (trace (kt_keyer t))"

text \<open>What the port relies on: an operation of the keyer only adds callbacks. Applying what it adds keeps
  the line below the key, and equal to it.\<close>

locale hw_client =
  fixes perform :: "'a \<Rightarrow> keyer \<Rightarrow> keyer option"
  assumes grows: "perform a k = Some k' \<Longrightarrow> extends k k'"
begin

lemma line_kept:
  assumes "line_ok t" "perform a (kt_keyer t) = Some k"
  shows "line_ok (t\<lparr>kt_keyer := k, kt_iface := drive (kt_keyer t) k (kt_iface t)\<rparr>)"
  using assms(1) drive_dtr_le [OF grows [OF assms(2)]] by (auto simp: line_ok_def)

lemma line_follows:
  assumes "perform a k = Some k'" "0 \<le> iface_fd i" "dtr i = key_line (trace k)"
  shows "dtr (drive k k' i) = key_line (trace k')"
  using drive_dtr [OF grows [OF assms(1)]] assms(2,3) by simp

end

interpretation bytes: hw_client winkeyer_data
  by unfold_locales (rule winkeyer_data_extends)

interpretation ticks: hw_client update
  by unfold_locales (rule update_extends)

lemma iface_update_line_ok:
  assumes "line_ok t"
  shows "line_ok (t\<lparr>kt_iface := iface_update tty opened (kt_iface t)\<rparr>)"
  using assms by (auto simp: line_ok_def iface_update_def iface_open_port_def Let_def split: if_splits)

lemma line_ok_divider [simp]: "line_ok (t\<lparr>iface_check_divider := d\<rparr>) = line_ok t"
  by (simp add: line_ok_def)

text \<open>A tick is an operation of the keyer, followed now and then by the check of the port.\<close>

lemma keyer_iteration_cases:
  assumes "keyer_iteration E tty opened t = Some t'"
  shows "\<exists>k d u. update E (kt_keyer t) = Some k
    \<and> u = t\<lparr>kt_keyer := k, kt_iface := drive (kt_keyer t) k (kt_iface t)\<rparr>
    \<and> (t' = u\<lparr>iface_check_divider := d\<rparr>
       \<or> t' = u\<lparr>kt_iface := iface_update tty opened (kt_iface u)\<rparr>\<lparr>iface_check_divider := d\<rparr>)"
  using assms by (cases t) (auto simp: keyer_iteration_def Let_def bind_eq_Some_conv split: if_splits)

lemma keyer_iteration_line_ok:
  assumes "keyer_iteration E tty opened t = Some t'" "line_ok t"
  shows "line_ok t'"
proof -
  obtain k d u where k: "update E (kt_keyer t) = Some k"
      "u = t\<lparr>kt_keyer := k, kt_iface := drive (kt_keyer t) k (kt_iface t)\<rparr>"
    and t': "t' = u\<lparr>iface_check_divider := d\<rparr>
       \<or> t' = u\<lparr>kt_iface := iface_update tty opened (kt_iface u)\<rparr>\<lparr>iface_check_divider := d\<rparr>"
    using keyer_iteration_cases [OF assms(1)] by blast
  have u: "line_ok u" using k ticks.line_kept [OF assms(2)] by simp
  show ?thesis using t' u iface_update_line_ok [OF u] by auto
qed

lemma drive_drive:
  assumes "extends a b" "extends b c"
  shows "drive b c (drive a b i) = drive a c i"
  using assms by (auto simp: drive_def extends_def prefix_def)

lemma feed_extends: "feed bs k = Some k' \<Longrightarrow> extends k k'"
  by (induction bs arbitrary: k) (auto simp: bind_eq_Some_conv dest!: winkeyer_data_extends intro: extends_trans)

lemma daemon_feed:
  assumes "daemon_run E t" "feed bs (kt_keyer t) = Some k"
  shows "daemon_run E (t\<lparr>kt_keyer := k, kt_iface := drive (kt_keyer t) k (kt_iface t)\<rparr>)"
  using assms
proof (induction bs arbitrary: t)
  case Nil
  then show ?case by (cases t) (auto simp: drive_def)
next
  case (Cons c bs)
  then obtain k1 where k1: "winkeyer_data c (kt_keyer t) = Some k1" "feed bs k1 = Some k"
    by (auto simp: bind_eq_Some_conv)
  show ?case
    using Cons.IH [OF daemon_byte [OF Cons.prems(1) k1(1)]] k1(2)
      drive_drive [OF winkeyer_data_extends [OF k1(1)] feed_extends [OF k1(2)]] by simp
qed

text \<open>
  (C23) The DTR line follows the key of the state machine in every interleaving of the two threads: on
  an open port the line is up only if the last key callback was a key-down, however often the port
  was lost and opened again in between; and as long as the port stays a terminal, a tick of the keyer
  leaves the line exactly in the state of the key.
\<close>

theorem dtr_follows_key:
  assumes "daemon_run E t" "0 \<le> iface_fd (kt_iface t)"
  shows "(dtr (kt_iface t) \<longrightarrow> key_line (trace (kt_keyer t)))
       \<and> (dtr (kt_iface t) = key_line (trace (kt_keyer t)) \<and> keyer_iteration E True opened t = Some t'
            \<longrightarrow> dtr (kt_iface t') = key_line (trace (kt_keyer t')))"
proof -
  from assms(1) have "line_ok t"
  proof induction
    case (daemon_new wpm k)
    then show ?case by (simp add: line_ok_def key_interface_new_def)
  next
    case (daemon_open t tty opened)
    then show ?case by (simp add: iface_update_line_ok)
  next
    case (daemon_tick t tty opened t')
    then show ?case by (simp add: keyer_iteration_line_ok)
  next
    case (daemon_byte t c k)
    then show ?case by (simp add: bytes.line_kept)
  qed
  moreover have "dtr (kt_iface t') = key_line (trace (kt_keyer t'))"
    if "dtr (kt_iface t) = key_line (trace (kt_keyer t))" "keyer_iteration E True opened t = Some t'"
    using that assms(2) ticks.line_follows
    by (auto simp: keyer_iteration_def Let_def bind_eq_Some_conv iface_update_def split: if_splits)
  ultimately show ?thesis using assms(2) by (auto simp: line_ok_def)
qed

text \<open>A daemon whose port is opened as descriptor 3, and the key command.\<close>

theorem dtr_follows_key_witness:
  "\<exists>t. daemon_run still_env t \<and> dtr (kt_iface t) \<and> key_line (trace (kt_keyer t))"
proof -
  obtain k where k: "feed [2, 24] init_keyer = Some k" "parser_idle k"
    using feed_immediate [OF parser_idle_init, of 2 24] by (auto simp del: feed.simps)
  then obtain k' where k': "feed [0x0B, 1] k = Some k'" "key_line (trace k')"
    using feed_key [of k 1] by (auto simp del: feed.simps)
  define t where "t = \<lparr>kt_keyer = k, kt_iface = iface_update False 3 key_interface_new, iface_check_divider = 0\<rparr>"
  have i: "iface_fd (kt_iface t) = 3" "\<not> dtr (kt_iface t)"
    by (simp_all add: t_def iface_update_def iface_open_port_def key_interface_new_def)
  have "daemon_run still_env t"
    using daemon_open [OF daemon_new [of still_env 24 k], of False 3] k(1) init_value [of still_env]
    by (simp add: cwdaemon_server_new_def t_def del: feed.simps)
  then have r: "daemon_run still_env (t\<lparr>kt_keyer := k', kt_iface := drive k k' (kt_iface t)\<rparr>)"
    using daemon_feed [of still_env t "[0x0B, 1]" k'] k'(1) by (simp add: t_def del: feed.simps)
  have "execute_command (with_command 2 24 init_keyer) = Some k"
    using k(1) feed_command [OF parser_idle_init, of 2 24] immediate_counts by (simp del: feed.simps)
  then have "key_line (trace k) = key_line (trace (with_command 2 24 init_keyer))"
    using execute_command_quiet by (fastforce simp: quiet_def with_command_def)
  then have "\<not> key_line (trace k)" by (simp add: with_command_def init_keyer_def keyer_zero_def)
  then have "dtr (drive k k' (kt_iface t))"
    using drive_dtr [OF feed_extends [OF k'(1)], of "kt_iface t"] i k'(2) by simp
  then show ?thesis using dtr_follows_key [OF r] r i by (auto simp: t_def)
qed

end
