(* ===== verification/Keyer_Rates.thy ===== *)
theory Keyer_Rates
  imports Keyer_Start
begin

text \<open>
  The lengths of the WinKeyer mode as one notion: rates under which every length is defined and at most
  a given number of milliseconds, what they depend on, and how far ahead a deadline computed in \<open>float\<close> can lie.
\<close>

section \<open>Rates\<close>

text \<open>What the lengths depend on.\<close>

definition same_rates :: "keyer \<Rightarrow> keyer \<Rightarrow> bool" where
  "same_rates k k' \<longleftrightarrow>
     profiles k' = profiles k \<and> current_profile k' = current_profile k
     \<and> winkeyer_speed_wpm (data k') = winkeyer_speed_wpm (data k)"

definition bounded :: "nat \<Rightarrow> u32 option \<Rightarrow> bool" where
  "bounded M len = (case len of None \<Rightarrow> False | Some n \<Rightarrow> unat n \<le> M)"

text \<open>The rates are usable: every length the WinKeyer mode computes is defined and at most \<open>M\<close>
  milliseconds.\<close>

definition usable_rates :: "nat \<Rightarrow> keyer \<Rightarrow> bool" where
  "usable_rates M k0 \<longleftrightarrow>
     (let k = data_update (winkeyer_enabled_update (\<lambda>_. True)) k0
      in M \<le> 2 ^ 20
         \<and> bounded M (weighted_element_length_ms El_dit k) \<and> bounded M (weighted_element_length_ms El_dah k)
         \<and> bounded M (inter_element_space_length_ms k) \<and> bounded M (inter_word_space_length_ms k)
         \<and> (case get_current_profile k of
              None \<Rightarrow> False
            | Some p \<Rightarrow>
                (case (space_between_chars_ms (timings p), weighted_inter_element_space_ms (timings p)) of
                   (Fin a, Fin b) \<Rightarrow> 0 \<le> b \<and> b \<le> a \<and> a \<le> of_nat M
                 | _ \<Rightarrow> False)))"

lemma lengths_cong:
  assumes "same_rates k k'" "winkeyer_enabled (data k') = winkeyer_enabled (data k)"
  shows "weighted_element_length_ms e k' = weighted_element_length_ms e k"
    "inter_element_space_length_ms k' = inter_element_space_length_ms k"
    "inter_word_space_length_ms k' = inter_word_space_length_ms k"
    "get_current_profile k' = get_current_profile k"
proof -
  show p: "get_current_profile k' = get_current_profile k"
    using assms(1) by (simp add: same_rates_def get_current_profile_def)
  have "element_length_ms e k' = element_length_ms e k" for e
    using assms p by (simp add: same_rates_def element_length_ms_def cong: if_cong)
  then show "weighted_element_length_ms e k' = weighted_element_length_ms e k"
    "inter_element_space_length_ms k' = inter_element_space_length_ms k"
    "inter_word_space_length_ms k' = inter_word_space_length_ms k"
    using assms p by (simp_all add: weighted_element_length_ms_def inter_element_space_length_ms_def
        inter_word_space_length_ms_def cong: if_cong)
qed

lemma same_rates_refl [simp]: "same_rates k k"
  by (simp add: same_rates_def)

lemma same_rates_trans: "same_rates a b \<Longrightarrow> same_rates b c \<Longrightarrow> same_rates a c"
  by (simp add: same_rates_def)

lemma usable_same_rates:
  assumes "same_rates k k'" "usable_rates M k"
  shows "usable_rates M k'"
proof -
  let ?f = "data_update (winkeyer_enabled_update (\<lambda>_. True))"
  have "same_rates (?f k) (?f k')" "winkeyer_enabled (data (?f k')) = winkeyer_enabled (data (?f k))"
    using assms(1) by (simp_all add: same_rates_def)
  from lengths_cong [OF this] assms(2) show ?thesis by (simp add: usable_rates_def Let_def)
qed

lemma usable_lengths:
  assumes "usable_rates M k" "winkeyer_enabled (data k)"
  shows "\<exists>n. weighted_element_length_ms e k = Some n \<and> unat n \<le> M"
    "\<exists>n. inter_element_space_length_ms k = Some n \<and> unat n \<le> M"
    "\<exists>n. inter_word_space_length_ms k = Some n \<and> unat n \<le> M"
    "M \<le> 2 ^ 20"
proof -
  have "data_update (winkeyer_enabled_update (\<lambda>_. True)) k = k" using assms(2) by simp
  with assms(1) have u: "M \<le> 2 ^ 20" "bounded M (weighted_element_length_ms El_dit k)" "bounded M (weighted_element_length_ms El_dah k)"
      "bounded M (inter_element_space_length_ms k)" "bounded M (inter_word_space_length_ms k)"
    by (simp_all add: usable_rates_def Let_def)
  have "weighted_element_length_ms El_none k = weighted_element_length_ms El_dah k"
    by (simp add: weighted_element_length_ms_def element_length_ms_def cong: if_cong)
  with u show "\<exists>n. weighted_element_length_ms e k = Some n \<and> unat n \<le> M"
    "\<exists>n. inter_element_space_length_ms k = Some n \<and> unat n \<le> M"
    "\<exists>n. inter_word_space_length_ms k = Some n \<and> unat n \<le> M" "M \<le> 2 ^ 20"
    by (cases e; auto simp: bounded_def split: option.splits)+
qed

section \<open>Deadlines are near\<close>

lemma to_u32_between:
  assumes "- 1 < v" "v \<le> of_nat b" "b < 2 ^ 32"
  shows "\<exists>n. to_u32 (Fin v) = Some n \<and> unat n \<le> b"
proof -
  define t where "t = trunc_rat v"
  have t: "0 \<le> t" "t \<le> int b"
  proof -
    have "0 \<le> t \<and> t \<le> int b"
    proof (cases "0 \<le> v")
      case True
      then have "\<lfloor>v\<rfloor> \<le> \<lfloor>rat_of_nat b\<rfloor>" using assms(2) by (intro floor_mono)
      then show ?thesis using True by (simp add: t_def trunc_rat_def)
    next
      case False
      then have "\<lceil>v\<rceil> = 0" using assms(1) by (simp add: ceiling_eq_iff)
      then show ?thesis using False by (simp add: t_def trunc_rat_def)
    qed
    then show "0 \<le> t" "t \<le> int b" by simp_all
  qed
  then have "t < 2 ^ 32" using assms(3) by simp
  with t have "unat (of_int t :: u32) = nat t"
    by (simp add: unsigned_of_int take_bit_int_eq_self)
  with t \<open>t < 2 ^ 32\<close> show ?thesis by (simp add: to_u32_def t_def [symmetric])
qed

text \<open>The deadline of a space between characters: two roundings at up to \<open>2 ^ 31\<close> milliseconds.\<close>

lemma autospace_deadline:
  assumes "unat now \<le> 2 ^ 31" "0 \<le> b" "b \<le> a" "a \<le> of_nat M" "M \<le> 2 ^ 20"
  shows "\<exists>t. to_u32 (sub32 (add32 (f32_of_int (uint now)) (Fin a)) (Fin b)) = Some t \<and> unat t \<le> unat now + M + 512"
proof -
  define X where "X = int (unat now)"
  define x :: rat where "x = of_int X"
  have "X \<le> 2 ^ 31" using assms(1) unfolding X_def by (metis of_nat_le_iff of_nat_numeral of_nat_power)
  then have X: "0 \<le> X" "X \<le> 2 ^ 31" "uint now = X" by (simp_all add: X_def)
  then have x: "0 \<le> x" "x \<le> 2 ^ 31" by (simp_all add: x_def)
  have M: "of_nat M \<le> (2 ^ 20 :: rat)" using assms(5) by (metis of_nat_le_iff of_nat_numeral of_nat_power)
  have big: "(2 :: rat) ^ 33 < pow2 127" "pow2 (- 149) \<le> 1 / 2 ^ 24" by (simp_all add: pow2_def)
  have r: "\<exists>v. rnd32 z = Fin v \<and> 0 \<le> v \<and> z - z / 2 ^ 24 - 1 / 2 ^ 24 \<le> v \<and> v \<le> z + z / 2 ^ 24 + 1 / 2 ^ 24"
    if "0 \<le> z" "z \<le> 2 ^ 33" for z
  proof -
    have "z < pow2 127" using that(2) big(1) by linarith
    from rnd32_nonneg [OF that(1) this] big(2) show ?thesis by (fastforce simp: abs_le_iff)
  qed
  obtain y where y: "f32_of_int X = Fin y" "0 \<le> y" "y \<le> x + 129"
    using r [of x] x by (fastforce simp: f32_of_int_def x_def)
  have "0 \<le> y + a" "y + a \<le> 2 ^ 33" using y x assms(2-4) M by simp_all
  then obtain w where w: "add32 (Fin y) (Fin a) = Fin w" "(y + a) - (y + a) / 2 ^ 24 - 1 / 2 ^ 24 \<le> w"
      "w \<le> (y + a) + (y + a) / 2 ^ 24 + 1 / 2 ^ 24"
    using r [of "y + a"] by auto
  have d: "- (1 / 4) \<le> w - b" "w - b \<le> x + of_nat M + 258"
    using w(2,3) y(2,3) x assms(2-4) M by (simp_all add: field_simps)
  then have "\<bar>w - b\<bar> < pow2 127" using x M big(1) by (simp add: abs_if)
  then obtain v where v: "rnd32 (w - b) = Fin v" "\<bar>v - (w - b)\<bar> \<le> \<bar>w - b\<bar> / 2 ^ 24 + pow2 (- 149)"
    using rnd32_close by blast
  have "- 1 < v" "v \<le> x + of_nat M + 512" using v(2) d x M big(2) by (simp_all add: abs_if field_simps split: if_splits)
  moreover have "x + of_nat M + 512 = of_nat (unat now + M + 512)" by (simp add: x_def X_def)
  moreover have "unat now + M + 512 < 2 ^ 32" using assms(1,5) by simp
  ultimately obtain t where "to_u32 (Fin v) = Some t" "unat t \<le> unat now + M + 512"
    using to_u32_between [of v "unat now + M + 512"] by auto
  then show ?thesis using v(1) w(1) y(1) X(3) by (auto simp: fsub_def)
qed

end
