(* ===== verification/Keyer_Liveness.thy ===== *)
theory Keyer_Liveness
  imports Keyer_Rates Keyer_Trace Keyer_Text
begin

text \<open>
  Text is sent, and in time. The work the keyer has ahead of it is counted in transitions: a tick never
  adds to it, and a tick at or after the deadline of the state it finds takes some away.
  Every deadline set is near, so ticks that keep coming finish the text within a bound.
\<close>

section \<open>Work\<close>

fun rank :: "state_type \<Rightarrow> nat" where
  "rank St_winkeyer = 0"
| "rank St_send_element = 2"
| "rank _ = 1"

definition load :: "keyer \<Rightarrow> nat" where
  "load k = 3 * unat (playing_bit (data k)) + (if wk_inter_char_space_played k then 0 else 2)
     + sum_list (map (\<lambda>c. 3 * length (char_elements c) + 3) (cb_list (winkeyer_buffer (data k))))"

definition work_ahead :: "keyer \<Rightarrow> nat" where
  "work_ahead k = load k + (case current_state (data k) of None \<Rightarrow> 0 | Some s \<Rightarrow> rank s)"

text \<open>The time the current state waits for; the other states wait for none.\<close>

definition deadline :: "keyer \<Rightarrow> u32" where
  "deadline k =
     (case current_state (data k) of
        Some St_send_element \<Rightarrow> send_time_to_exit k
      | Some St_inter_element_space \<Rightarrow> element_space_time_to_exit k
      | Some St_inter_word_space \<Rightarrow> word_space_time_to_exit k
      | Some St_autospace \<Rightarrow> autospace_time_to_exit k
      | Some St_half_dot_gap \<Rightarrow> half_dot_gap_time_to_exit k
      | _ \<Rightarrow> 0)"

text \<open>A clock that does not go back, within \<open>2 ^ 31\<close> milliseconds of the start.\<close>

definition steady_clock :: "hw_env \<Rightarrow> bool" where
  "steady_clock E \<longleftrightarrow> (\<forall>n. clk E n \<le> clk E (Suc n) \<and> unat (clk E n) \<le> 2 ^ 31)"

definition sending :: "nat \<Rightarrow> hw_env \<Rightarrow> keyer \<Rightarrow> bool" where
  "sending M E k \<longleftrightarrow>
     text_mode k \<and> usable_rates M k \<and> last_send_time (data k) \<le> clk E (reads k)
     \<and> (case current_state (data k) of
          None \<Rightarrow> False
        | Some s \<Rightarrow> s \<notin> {St_key_down, St_tune}
            \<and> (winkeyer_enabled (data k) \<or> s = St_idle \<and> \<not> cb_empty (winkeyer_buffer (data k))))"

lemma clock_mono:
  assumes "steady_clock E" "m \<le> n"
  shows "clk E m \<le> clk E n"
  using assms(2)
proof (induction rule: dec_induct)
  case (step n)
  then show ?case using assms(1) by (meson order_trans steady_clock_def)
qed simp

lemma no_work_sent:
  assumes "sending M E k" "work_ahead k = 0"
  shows "pending (data k) = [] \<and> current_state (data k) = Some St_winkeyer"
proof -
  obtain s where s: "current_state (data k) = Some s" using assms(1) by (auto simp: sending_def split: option.splits)
  then have "rank s = 0" "load k = 0" using assms(2) by (simp_all add: work_ahead_def)
  then have "s = St_winkeyer" "playing_bit (data k) = 0" "cb_list (winkeyer_buffer (data k)) = []"
    by (cases s; simp add: load_def unat_eq_zero split: if_splits)+
  then show ?thesis using s by (simp add: pending_def remaining_def)
qed

section \<open>One update\<close>

lemma poll_other [simp]:
  "profiles (poll_paddles E k) = profiles k" "current_profile (poll_paddles E k) = current_profile k"
  "reads (poll_paddles E k) = reads k" "wk_inter_char_space_played (poll_paddles E k) = wk_inter_char_space_played k"
  "word_space_time_to_exit (poll_paddles E k) = word_space_time_to_exit k"
  by (simp_all add: poll_paddles_def Let_def check_dit_paddle_def check_dah_paddle_def is_paddle_pressed_def)

lemma check_other:
  "profiles (check_dit_paddle E k) = profiles k" "current_profile (check_dit_paddle E k) = current_profile k"
  "reads (check_dit_paddle E k) = reads k" "wk_inter_char_space_played (check_dit_paddle E k) = wk_inter_char_space_played k"
  "send_time_to_exit (check_dit_paddle E k) = send_time_to_exit k"
  "element_space_time_to_exit (check_dit_paddle E k) = element_space_time_to_exit k"
  "profiles (check_dah_paddle E k) = profiles k" "current_profile (check_dah_paddle E k) = current_profile k"
  "reads (check_dah_paddle E k) = reads k" "wk_inter_char_space_played (check_dah_paddle E k) = wk_inter_char_space_played k"
  "send_time_to_exit (check_dah_paddle E k) = send_time_to_exit k"
  "element_space_time_to_exit (check_dah_paddle E k) = element_space_time_to_exit k"
  by (simp_all add: check_dit_paddle_def check_dah_paddle_def is_paddle_pressed_def)

text \<open>What an update does to the work: it leaves the state and the work alone, which it does past the
  deadline only when there is no work, or it names another state with less work to do.\<close>

definition moves_on :: "hw_env \<Rightarrow> state_type \<Rightarrow> keyer \<Rightarrow> state_type \<Rightarrow> keyer \<Rightarrow> bool" where
  "moves_on E s k n k' \<longleftrightarrow>
     same_rates k k' \<and> reads k < reads k' \<and> reads k' \<le> reads k + 2 \<and> last_send_time (data k') \<le> clk E (reads k')
     \<and> (winkeyer_enabled (data k) \<longrightarrow> winkeyer_enabled (data k'))
     \<and> n \<notin> {St_idle, St_key_down, St_tune} \<and> (n = St_winkeyer \<or> winkeyer_enabled (data k'))
     \<and> (if n = s then load k' = load k \<and> deadline k' = deadline k \<and> (deadline k \<le> clk E (reads k) \<longrightarrow> work_ahead k = 0)
        else load k' + rank n < load k + rank s)"

text \<open>The reading \<open>update\<close> takes before it calls the state.\<close>

definition read_clock :: "keyer \<Rightarrow> keyer" where
  "read_clock k = k\<lparr>reads := reads k + 1\<rparr>"

lemma current_ms_read: "current_ms E k = (clk E (reads k), read_clock k)"
  by (simp add: current_ms_def read_clock_def)

lemma read_clock_fields [simp]:
  "data (read_clock k) = data k" "reads (read_clock k) = Suc (reads k)" "trace (read_clock k) = trace k"
  "load (read_clock k) = load k" "work_ahead (read_clock k) = work_ahead k" "same_rates k (read_clock k)"
  "deadline (read_clock k) = deadline k" "wk_inter_char_space_played (read_clock k) = wk_inter_char_space_played k"
  by (simp_all add: read_clock_def load_def work_ahead_def same_rates_def deadline_def split: option.split state_type.split)

lemma winkeyer_moves_on:
  assumes "sending M E k" "untouched E" "steady_clock E" "current_state (data k) = Some St_winkeyer"
  shows "\<exists>n k'. winkeyer_update E now (read_clock k) = Some (n, k') \<and> moves_on E St_winkeyer k n k'"
proof -
  have en: "winkeyer_enabled (data k)" and ok: "text_ok (data k)"
    and last: "last_send_time (data k) \<le> clk E (Suc (reads k))"
    using assms clock_mono [OF assms(3), of "reads k" "Suc (reads k)"]
    by (auto simp: sending_def text_mode_def intro: order_trans)
  define k1 where "k1 = poll_paddles E (read_clock k)"
  have d1: "data k1 = (data k)\<lparr>paddles := Paddle_none\<rparr>" and r1: "reads k1 = Suc (reads k)"
    "profiles k1 = profiles k" "current_profile k1 = current_profile k"
    "wk_inter_char_space_played k1 = wk_inter_char_space_played k"
    using poll_untouched [OF assms(2), of "read_clock k"] ok by (simp_all add: k1_def read_clock_def)
  have bit: "\<exists>k'. send_next_bit k2 = Some (St_send_element, k') \<and> moves_on E St_winkeyer k St_send_element k'"
    if "same_rates k k2" "reads k2 = Suc (reads k)" "data k2 = (data k1)\<lparr>winkeyer_buffer := b, playing_data := x, playing_bit := y\<rparr>"
      "y \<noteq> 0" "y \<le> 32" "load k2 < load k + 1" for k2 b x y
  proof -
    have "unat (y - 1) = unat y - 1" "0 < unat y" using that(4) by (simp_all add: unat_minus_one unat_gt_0)
    then show ?thesis
      using that en last d1
      by (auto simp: send_next_bit_def Let_def moves_on_def same_rates_def load_def not_less [symmetric] word_gt_0)
  qed
  let ?B = "winkeyer_buffer (data k1)"
  have upd: "winkeyer_update E now (read_clock k) =
      (if playing_bit (data k1) = 0 then
        if \<not> wk_inter_char_space_played k1
        then Some (St_autospace, k1\<lparr>wk_inter_char_space_played := True\<rparr>)
        else if cb_empty ?B then Some (St_winkeyer, k1)
        else
          let c = cb_peek ?B in
          if is_winkeyer_command c \<and> cb_size ?B \<le> unat (parameter_count c)
          then Some (St_winkeyer, k1)
          else
            let k = data_update (winkeyer_buffer_update (\<lambda>b. snd (cb_get b))) k1 in
            if is_winkeyer_command c then Some (St_winkeyer, buffered_command c k)
            else if c = of_char (CHR ''|'') then Some (St_half_dot_gap, k)
            else (case get_char_pattern c of
                    None \<Rightarrow> Some (St_inter_word_space, k)
                  | Some p \<Rightarrow> send_next_bit (load_pattern p k\<lparr>wk_inter_char_space_played := False\<rparr>))
      else send_next_bit k1)"
    by (simp add: winkeyer_update_def k1_def [symmetric] d1 Let_def)
  consider (bits) "playing_bit (data k) \<noteq> 0"
    | (space) "playing_bit (data k) = 0" "\<not> wk_inter_char_space_played k"
    | (empty) "playing_bit (data k) = 0" "wk_inter_char_space_played k" "cb_list (winkeyer_buffer (data k)) = []"
    | (char) c cs where "playing_bit (data k) = 0" "wk_inter_char_space_played k" "cb_list (winkeyer_buffer (data k)) = c # cs"
    by (metis list.exhaust)
  then show ?thesis
  proof cases
    case bits
    then have "\<exists>k'. send_next_bit k1 = Some (St_send_element, k') \<and> moves_on E St_winkeyer k St_send_element k'"
      using ok d1 r1
      by (intro bit [where b = "winkeyer_buffer (data k)" and x = "playing_data (data k)" and y = "playing_bit (data k)"])
        (auto simp: text_ok_def same_rates_def load_def)
    then show ?thesis using bits d1 upd by auto
  next
    case space
    then show ?thesis
      using upd d1 r1 en last by (auto simp: moves_on_def same_rates_def load_def)
  next
    case empty
    have "deadline k1 = deadline k" using assms(4) d1 by (simp add: deadline_def)
    then show ?thesis
      using empty upd d1 r1 en last cb_empty_iff [of "winkeyer_buffer (data k)"] ok assms(4)
      by (auto simp: moves_on_def same_rates_def load_def work_ahead_def text_ok_def)
  next
    case char
    have inv: "cb_inv ?B" and "cb_list ?B = c # cs" using ok char by (simp_all add: d1 text_ok_def)
    then have B: "\<not> cb_empty ?B" "cb_peek ?B = c" "cb_list (snd (cb_get ?B)) = cs"
      using cb_empty_iff [OF inv] cb_peek_value [OF inv] cb_list_get [OF inv] by simp_all
    have "0x20 \<le> c" using ok char by (simp add: text_ok_def)
    then have cmd: "\<not> is_winkeyer_command c" unfolding is_winkeyer_command_def by unat_arith
    define k2 where "k2 = data_update (winkeyer_buffer_update (\<lambda>b. snd (cb_get b))) k1"
    have r2: "same_rates k k2" "reads k2 = Suc (reads k)" "data k2 = (data k1)\<lparr>winkeyer_buffer := snd (cb_get ?B)\<rparr>"
      "wk_inter_char_space_played k2" "load k = load k2 + 3 * length (char_elements c) + 3"
      using r1 d1 char B(3) by (simp_all add: k2_def same_rates_def load_def)
    show ?thesis
    proof (cases "get_char_pattern c")
      case None
      then show ?thesis
        using upd B cmd d1 r1 r2 char en last
        by (auto simp: Let_def k2_def [symmetric] moves_on_def)
    next
      case (Some p)
      then have bar: "c \<noteq> of_char (CHR ''|'')" by (auto simp: get_char_pattern_def char_table_def pat_def)
      let ?k3 = "load_pattern p k2\<lparr>wk_inter_char_space_played := False\<rparr>"
      have p: "0 < cp_bits p" "cp_bits p \<le> 32" "length (char_elements c) = unat (cp_bits p)"
        using pattern_loaded [OF Some] Some by (simp_all add: char_elements_def pattern_elements_def)
      have "\<exists>k'. send_next_bit ?k3 = Some (St_send_element, k') \<and> moves_on E St_winkeyer k St_send_element k'"
        using r2 p char d1 B(3)
        by (intro bit [where b = "snd (cb_get ?B)" and x = "cp_data p" and y = "cp_bits p"])
          (auto simp: load_pattern_def same_rates_def load_def)
      then show ?thesis
        using upd B cmd d1 r1 char Some bar by (auto simp: Let_def k2_def [symmetric])
    qed
  qed
qed

lemma update_moves_on:
  assumes "sending M E k" "untouched E" "steady_clock E" "current_state (data k) = Some s"
  shows "\<exists>n k'. state_update E s (clk E (reads k)) (read_clock k) = Some (n, k') \<and> moves_on E s k n k'"
proof -
  have ok: "text_ok (data k)" and so: "state_ok s (data k)" "s \<notin> {St_key_down, St_tune}"
    and en: "winkeyer_enabled (data k) \<or> s = St_idle \<and> \<not> cb_empty (winkeyer_buffer (data k))"
    and last: "last_send_time (data k) \<le> clk E (Suc (reads k))"
    using assms clock_mono [OF assms(3), of "reads k" "Suc (reads k)"]
    by (auto simp: sending_def text_mode_def intro: order_trans)
  note mono = clock_mono [OF assms(3)]
  show ?thesis
  proof (cases s)
    case St_winkeyer
    then show ?thesis using winkeyer_moves_on [OF assms(1-3)] assms(4) by simp
  next
    case St_idle
    then show ?thesis
      using en ok last poll_untouched [OF assms(2), of "read_clock k"]
      by (auto simp: idle_update_def Let_def text_ok_def moves_on_def same_rates_def load_def read_clock_def)
  next
    case St_send_element
    then show ?thesis
      using en last assms(4)
      by (auto simp: send_element_update_def Let_def moves_on_def check_dit_untouched [OF assms(2)]
          check_dah_untouched [OF assms(2)] check_other same_rates_def load_def deadline_def read_clock_def)
  next
    case St_inter_element_space
    then show ?thesis
      using en last assms(4)
      by (auto simp: inter_element_space_update_def Let_def moves_on_def check_dit_untouched [OF assms(2)]
          check_dah_untouched [OF assms(2)] check_other same_rates_def load_def deadline_def read_clock_def)
  next
    case St_inter_word_space
    then show ?thesis
      using en last assms(4) poll_untouched [OF assms(2), of "read_clock k"] ok mono [of "reads k" "Suc (reads k)"]
        mono [of "Suc (reads k)" "Suc (Suc (reads k))"]
      by (auto simp: inter_word_space_update_def Let_def moves_on_def current_ms_def same_rates_def load_def
          deadline_def read_clock_def intro: order_trans)
  next
    case St_autospace
    then show ?thesis
      using en last ok assms(4)
      by (auto simp: autospace_update_def after_space_def text_ok_def moves_on_def deadline_def same_rates_def
          load_def read_clock_def)
  next
    case St_half_dot_gap
    then show ?thesis
      using en last ok assms(4) mono [of "reads k" "Suc (reads k)"] mono [of "Suc (reads k)" "Suc (Suc (reads k))"]
      by (auto simp: half_dot_gap_update_def current_ms_def after_space_def text_ok_def moves_on_def deadline_def
          same_rates_def load_def read_clock_def intro: order_trans)
  qed (use so in \<open>simp_all add: state_ok_def\<close>)
qed

section \<open>One transition\<close>

lemma unat_add_near:
  assumes "unat a \<le> 2 ^ 31" "unat n \<le> M" "M \<le> 2 ^ 20"
  shows "unat (a + n :: u32) = unat a + unat n"
  using assms by (intro unat_add_lem [THEN iffD1]) simp

text \<open>Leaving a state always succeeds; entering one succeeds and sets a near deadline.\<close>

lemma exit_defined:
  assumes "steady_clock E" "last_send_time (data k) \<le> clk E (reads k)"
  shows "\<exists>k'. state_exit E s k = Some k' \<and> same_rates k k' \<and> load k' = load k \<and> reads k \<le> reads k' \<and> reads k' \<le> reads k + 1
    \<and> winkeyer_enabled (data k') = winkeyer_enabled (data k) \<and> last_send_time (data k') \<le> clk E (reads k')"
  using assms clock_mono [OF assms(1), of "reads k" "Suc (reads k)"]
  by (auto simp: send_element_exit_def set_sidetone_and_tx_def current_ms_def Let_def same_rates_def load_def emit_def)

lemma lengths_frame [simp]:
  "weighted_element_length_ms e (emit x k) = weighted_element_length_ms e k"
  "weighted_element_length_ms e (k\<lparr>reads := r\<rparr>) = weighted_element_length_ms e k"
  "weighted_element_length_ms e (k\<lparr>send_time_to_exit := t\<rparr>) = weighted_element_length_ms e k"
  "inter_element_space_length_ms (k\<lparr>reads := r\<rparr>) = inter_element_space_length_ms k"
  "get_current_profile (k\<lparr>reads := r\<rparr>) = get_current_profile k"
  by (rule lengths_cong; simp add: same_rates_def emit_def)+

lemma emit_fields [simp]:
  "profiles (emit x k) = profiles k" "current_profile (emit x k) = current_profile k" "reads (emit x k) = reads k"
  "wk_inter_char_space_played (emit x k) = wk_inter_char_space_played k"
  "send_time_to_exit (emit x k) = send_time_to_exit k"
  by (simp_all add: emit_def)

text \<open>The part of a step that does not depend on the state entered.\<close>

definition settled :: "nat \<Rightarrow> hw_env \<Rightarrow> keyer \<Rightarrow> keyer \<Rightarrow> bool" where
  "settled M E k k' \<longleftrightarrow>
     same_rates k k' \<and> load k' = load k \<and> reads k \<le> reads k' \<and> reads k' \<le> reads k + 2
     \<and> winkeyer_enabled (data k')
     \<and> last_send_time (data k') = last_send_time (data k) \<and> current_state (data k') = current_state (data k)
     \<and> unat (deadline k') \<le> unat (clk E (reads k')) + M + 512"

lemma near_deadline:
  assumes "steady_clock E" "unat len \<le> M" "M \<le> 2 ^ 20" "m \<le> n" "t \<le> clk E m"
  shows "unat (t + len) \<le> unat (clk E n) + M + 512"
proof -
  have "unat t \<le> unat (clk E n)" "unat (clk E n) \<le> 2 ^ 31"
    using assms clock_mono [OF assms(1,4)] by (auto simp: steady_clock_def word_le_nat_alt)
  then show ?thesis using unat_add_near [of t len M] assms(2,3) by simp
qed

lemma enter_send_element:
  assumes "steady_clock E" "usable_rates M k" "winkeyer_enabled (data k)" "current_state (data k) = Some St_send_element"
  shows "\<exists>k'. send_element_enter E k = Some k' \<and> settled M E k k'"
proof -
  note u = usable_lengths [OF assms(2,3)]
  obtain p where p: "get_current_profile k = Some p"
    using assms(2) by (auto simp: usable_rates_def Let_def get_current_profile_def split: option.splits if_splits)
  obtain n n' where n: "weighted_element_length_ms (sent_element (data k)) k = Some n" "unat n \<le> M"
    "weighted_element_length_ms El_dit k = Some n'" using u(1) by blast
  have "unat (clk E (reads k) + n) \<le> unat (clk E (Suc (Suc (reads k)))) + M + 512"
    using near_deadline [OF assms(1) n(2) u(4), of "reads k"] by simp
  then show ?thesis
    using p n assms(3,4)
    by (simp add: send_element_enter_def set_sidetone_and_tx_def current_ms_def Let_def settled_def
        same_rates_def load_def deadline_def)
qed

lemma enter_autospace:
  assumes "steady_clock E" "usable_rates M k" "winkeyer_enabled (data k)" "current_state (data k) = Some St_autospace"
  shows "\<exists>k'. autospace_enter E k = Some k' \<and> settled M E k k'"
proof -
  have "get_current_profile (data_update f k) = get_current_profile k" for f by (simp add: get_current_profile_def)
  with assms(2) have "case get_current_profile k of None \<Rightarrow> False | Some p \<Rightarrow>
        (case (space_between_chars_ms (timings p), weighted_inter_element_space_ms (timings p)) of
           (Fin a, Fin b) \<Rightarrow> 0 \<le> b \<and> b \<le> a \<and> a \<le> of_nat M | _ \<Rightarrow> False)" "M \<le> 2 ^ 20"
    by (simp_all only: usable_rates_def Let_def)
  then obtain p a b where p: "get_current_profile k = Some p" "space_between_chars_ms (timings p) = Fin a"
      "weighted_inter_element_space_ms (timings p) = Fin b" "0 \<le> b" "b \<le> a" "a \<le> of_nat M" "M \<le> 2 ^ 20"
    by (auto split: option.splits flt.splits)
  have c: "unat (clk E (reads k)) \<le> 2 ^ 31" using assms(1) by (simp add: steady_clock_def)
  obtain t where t: "to_u32 (sub32 (add32 (f32_of_int (uint (clk E (reads k)))) (Fin a)) (Fin b)) = Some t"
      "unat t \<le> unat (clk E (reads k)) + M + 512"
    using autospace_deadline [OF c p(4-7)] by blast
  then have "unat t \<le> unat (clk E (Suc (reads k))) + M + 512"
    using clock_mono [OF assms(1), of "reads k" "Suc (reads k)"] by (simp add: word_le_nat_alt)
  then show ?thesis
    using p t(1) assms(3,4)
    by (auto simp: autospace_enter_def current_ms_def Let_def settled_def same_rates_def load_def deadline_def
        simp del: fadd.simps)
qed

lemma enter_defined:
  assumes "steady_clock E" "usable_rates M k" "last_send_time (data k) \<le> clk E (reads k)"
    "n \<notin> {St_idle, St_key_down, St_tune, St_play}" "n = St_winkeyer \<or> winkeyer_enabled (data k)"
    "current_state (data k) = Some n"
  shows "\<exists>k'. state_enter E n k = Some k' \<and> settled M E k k'"
proof (cases n)
  case St_send_element
  then show ?thesis using assms enter_send_element by simp
next
  case St_autospace
  then show ?thesis using assms enter_autospace by simp
next
  case St_winkeyer
  then show ?thesis using assms by (simp add: winkeyer_enter_def settled_def same_rates_def load_def deadline_def)
next
  case St_inter_element_space
  then obtain len where len: "inter_element_space_length_ms k = Some len" "unat len \<le> M" "M \<le> 2 ^ 20"
    using usable_lengths(2,4) [OF assms(2)] assms(5) by auto
  show ?thesis
    using St_inter_element_space assms len near_deadline [OF assms(1) len(2,3), of "reads k" "Suc (reads k)"]
    by (simp add: inter_element_space_enter_def current_ms_def Let_def settled_def same_rates_def load_def deadline_def)
next
  case St_inter_word_space
  then obtain len where len: "inter_word_space_length_ms k = Some len" "unat len \<le> M" "M \<le> 2 ^ 20"
    using usable_lengths(3,4) [OF assms(2)] assms(5) by auto
  show ?thesis
    using St_inter_word_space assms len near_deadline [OF assms(1) len(2,3), of "reads k" "reads k"]
    by (simp add: inter_word_space_enter_def Let_def settled_def same_rates_def load_def deadline_def emit_def)
next
  case St_half_dot_gap
  then obtain len where len: "weighted_element_length_ms El_dit k = Some len" "unat len \<le> M" "M \<le> 2 ^ 20"
    using usable_lengths(1,4) [OF assms(2)] assms(5) by auto
  have "unat (len div 2) \<le> M" using len(2) by (simp add: unat_div)
  from near_deadline [OF assms(1) this len(3), of "reads k" "Suc (reads k)"] St_half_dot_gap assms len
  show ?thesis
    by (simp add: half_dot_gap_enter_def current_ms_def Let_def settled_def same_rates_def load_def deadline_def)
qed (use assms(4) in simp_all)

text \<open>A step of the machine: nothing but the readings changes, or some work is done and the new
  deadline is near.\<close>

definition steps_on :: "nat \<Rightarrow> hw_env \<Rightarrow> keyer \<Rightarrow> keyer \<Rightarrow> bool" where
  "steps_on M E k k' \<longleftrightarrow>
     sending M E k' \<and> reads k \<le> reads k'
     \<and> (work_ahead k' = work_ahead k \<and> deadline k' = deadline k
        \<or> work_ahead k' < work_ahead k \<and> unat (deadline k') \<le> unat (clk E (reads k')) + M + 512)"

lemma steps_on_trans:
  assumes "steps_on M E a b" "steps_on M E b c" "steady_clock E"
  shows "steps_on M E a c"
  using assms clock_mono [OF assms(3), of "reads b" "reads c"]
  by (auto simp: steps_on_def word_le_nat_alt)

lemma transition:
  assumes "sending M E k" "untouched E" "steady_clock E" "current_state (data k) = Some s"
  shows "\<exists>n k1. state_update E s (clk E (reads k)) (read_clock k) = Some (n, k1) \<and> current_state (data k1) = Some s
    \<and> reads k < reads k1 \<and> reads k1 \<le> reads k + 2
    \<and> (if n = s then steps_on M E k k1 \<and> (deadline k \<le> clk E (reads k) \<longrightarrow> work_ahead k = 0)
       else \<exists>k2. switch_to E n k1 = Some k2 \<and> steps_on M E k k2 \<and> work_ahead k2 < work_ahead k
              \<and> reads k1 \<le> reads k2 \<and> reads k2 \<le> reads k1 + 3)"
proof -
  obtain n k1 where u: "state_update E s (clk E (reads k)) (read_clock k) = Some (n, k1)" "moves_on E s k n k1"
    using update_moves_on [OF assms] by blast
  have ok: "text_ok (data k)" "state_ok s (data k)" "s = St_winkeyer \<longrightarrow> winkeyer_enabled (data k)" "usable_rates M k"
    using assms(1,4) by (auto simp: sending_def text_mode_def)
  have t: "takes_or_keeps s (read_clock k) n k1" using state_update_step [OF u(1) assms(2)] ok by simp
  then have c1: "current_state (data k1) = Some s" "text_ok (data k1)" "state_ok n (data k1)"
    using assms(4) by (simp_all add: takes_or_keeps_def)
  have r1: "usable_rates M k1" using u(2) ok(4) usable_same_rates by (auto simp: moves_on_def)
  show ?thesis
  proof (cases "n = s")
    case True
    then have "sending M E k1" "work_ahead k1 = work_ahead k"
      using u(2) c1 r1 assms(1,4) by (auto simp: moves_on_def sending_def text_mode_def work_ahead_def)
    then show ?thesis using u True c1(1) by (auto simp: moves_on_def steps_on_def)
  next
    case False
    obtain k2 where e: "state_exit E s k1 = Some k2" "same_rates k1 k2" "load k2 = load k1"
        "reads k1 \<le> reads k2" "reads k2 \<le> reads k1 + 1"
        "winkeyer_enabled (data k2) = winkeyer_enabled (data k1)" "last_send_time (data k2) \<le> clk E (reads k2)"
      using exit_defined [OF assms(3), of k1 s] u(2) by (auto simp: moves_on_def)
    let ?k2 = "data_update (current_state_update (\<lambda>_. Some n)) k2"
    have x: "same_rates k2 ?k2" "load ?k2 = load k2" by (simp_all add: same_rates_def load_def)
    have n: "n \<notin> {St_idle, St_key_down, St_tune, St_play}" "n = St_winkeyer \<or> winkeyer_enabled (data ?k2)"
      using u(2) e(6) c1(3) by (auto simp: moves_on_def state_ok_def)
    have "usable_rates M ?k2" using r1 e(2) x(1) usable_same_rates by blast
    then obtain k3 where k3: "state_enter E n ?k2 = Some k3" "settled M E ?k2 k3"
      using enter_defined [OF assms(3) _ _ n(1), of M ?k2] n(2) e(7) by auto
    have s: "switch_to E n k1 = Some k3"
      using e(1) k3(1) c1(1) False by (simp add: switch_to_def del: state_exit.simps state_enter.simps)
    have "n = St_send_element \<longrightarrow> sent_element (data k1) \<noteq> El_none"
      using t False by (auto simp: takes_or_keeps_def split: if_splits)
    then have "text_mode k3" using switch_to_step [OF s c1(1) False c1(2,3)] by blast
    moreover have "usable_rates M k3" using \<open>usable_rates M ?k2\<close> k3(2) usable_same_rates by (auto simp: settled_def)
    moreover have "last_send_time (data k3) \<le> clk E (reads k3)"
      using e(7) k3(2) clock_mono [OF assms(3), of "reads k2" "reads k3"] by (auto simp: settled_def)
    ultimately have "sending M E k3" using k3(2) n by (auto simp: sending_def settled_def)
    moreover have "work_ahead k3 < work_ahead k"
      using u(2) k3(2) e(3) x(2) False assms(4) by (auto simp: settled_def moves_on_def work_ahead_def)
    ultimately have "steps_on M E k k3" "reads k1 \<le> reads k3" "reads k3 \<le> reads k1 + 3"
      using u(2) k3(2) e(4,5) by (auto simp: steps_on_def settled_def moves_on_def)
    then show ?thesis using u s False c1(1) \<open>work_ahead k3 < work_ahead k\<close> by (auto simp: moves_on_def)
  qed
qed

section \<open>Ticks\<close>

lemma update_loop_steps:
  assumes "untouched E" "steady_clock E" "sending M E k"
  shows "\<exists>k'. update_loop E m k = Some k' \<and> steps_on M E k k' \<and> reads k' \<le> reads k + 5 * m
    \<and> (0 < m \<longrightarrow> reads k < reads k') \<and> (0 < m \<and> deadline k \<le> clk E (reads k) \<and> 0 < work_ahead k \<longrightarrow> work_ahead k' < work_ahead k)"
  using assms(3)
proof (induction m arbitrary: k)
  case 0
  then show ?case by (simp add: steps_on_def)
next
  case (Suc m)
  obtain s where s: "current_state (data k) = Some s" using Suc.prems by (auto simp: sending_def split: option.splits)
  obtain n k1 where u: "state_update E s (clk E (reads k)) (read_clock k) = Some (n, k1)" "current_state (data k1) = Some s"
      "reads k < reads k1" "reads k1 \<le> reads k + 2"
    and c: "if n = s then steps_on M E k k1 \<and> (deadline k \<le> clk E (reads k) \<longrightarrow> work_ahead k = 0)
       else \<exists>k2. switch_to E n k1 = Some k2 \<and> steps_on M E k k2 \<and> work_ahead k2 < work_ahead k
              \<and> reads k1 \<le> reads k2 \<and> reads k2 \<le> reads k1 + 3"
    using transition [OF Suc.prems assms(1,2) s] by blast
  show ?case
  proof (cases "n = s")
    case True
    then show ?thesis using s u c by (auto simp: current_ms_read)
  next
    case False
    then obtain k2 where k2: "switch_to E n k1 = Some k2" "steps_on M E k k2" "work_ahead k2 < work_ahead k"
        "reads k1 \<le> reads k2" "reads k2 \<le> reads k1 + 3" using c by auto
    obtain k' where k': "update_loop E m k2 = Some k'" "steps_on M E k2 k'" "reads k' \<le> reads k2 + 5 * m"
      using Suc.IH [of k2] k2(2) by (auto simp: steps_on_def)
    then have "update_loop E (Suc m) k = Some k'" using s u False k2(1) by (simp add: current_ms_read)
    moreover have "steps_on M E k k'" using steps_on_trans [OF k2(2) k'(2) assms(2)] .
    moreover have "work_ahead k' < work_ahead k" "reads k < reads k'" "reads k' \<le> reads k + 5 * Suc m"
      using k2 k'(2,3) u(3,4) by (auto simp: steps_on_def)
    ultimately show ?thesis by auto
  qed
qed

fun run_ticks :: "hw_env \<Rightarrow> nat \<Rightarrow> keyer \<Rightarrow> keyer option" where
  "run_ticks E 0 k = Some k"
| "run_ticks E (Suc n) k = Option.bind (update E k) (run_ticks E n)"

text \<open>The clock at the start of the tick after \<open>n\<close> ticks.\<close>

definition tick_time :: "hw_env \<Rightarrow> nat \<Rightarrow> keyer \<Rightarrow> nat" where
  "tick_time E n k = (case run_ticks E n k of None \<Rightarrow> 0 | Some k' \<Rightarrow> unat (clk E (reads k')))"

definition time_bound :: "nat \<Rightarrow> nat \<Rightarrow> hw_env \<Rightarrow> keyer \<Rightarrow> nat" where
  "time_bound M gap E k =
     max (unat (deadline k) + gap) (tick_time E 0 k) + work_ahead k * (M + 512 + 2 * gap)"

lemma update_steps:
  assumes "untouched E" "steady_clock E" "sending M E k"
  shows "\<exists>k'. update E k = Some k' \<and> steps_on M E k k' \<and> reads k < reads k' \<and> reads k' \<le> reads k + 80
    \<and> (deadline k \<le> clk E (reads k) \<and> 0 < work_ahead k \<longrightarrow> work_ahead k' < work_ahead k)"
  using update_loop_steps [OF assms, of 16] by (auto simp: update_def)

lemma time_bound_tick:
  assumes "steps_on M E k k'" "deadline k \<le> clk E (reads k) \<and> 0 < work_ahead k \<longrightarrow> work_ahead k' < work_ahead k"
    "unat (clk E (reads k')) \<le> unat (clk E (reads k)) + gap" "work_ahead k \<noteq> 0"
  shows "time_bound M gap E k' \<le> time_bound M gap E k"
proof (cases "work_ahead k' < work_ahead k")
  case True
  then have "unat (deadline k') \<le> unat (clk E (reads k')) + M + 512" using assms(1) by (auto simp: steps_on_def)
  moreover have "Suc (work_ahead k') * (M + 512 + 2 * gap) \<le> work_ahead k * (M + 512 + 2 * gap)"
    using True by (intro mult_le_mono1) simp
  ultimately show ?thesis using assms(3) by (simp add: time_bound_def tick_time_def)
next
  case False
  then have "clk E (reads k) < deadline k" "work_ahead k' = work_ahead k" "deadline k' = deadline k"
    using assms by (auto simp: steps_on_def not_le)
  then show ?thesis using assms(3) by (simp add: time_bound_def tick_time_def word_less_nat_alt)
qed

lemma ticks_finish:
  assumes "untouched E" "steady_clock E" "sending M E k"
    and "\<forall>i < n. tick_time E (Suc i) k \<le> tick_time E i k + gap"
  shows "\<exists>k'. run_ticks E n k = Some k' \<and> sending M E k' \<and> work_ahead k' \<le> work_ahead k
    \<and> (time_bound M gap E k \<le> tick_time E n k \<longrightarrow> work_ahead k' = 0)"
  using assms(3,4)
proof (induction n arbitrary: k)
  case 0
  then show ?case by (cases "work_ahead k") (simp_all add: time_bound_def tick_time_def)
next
  case (Suc n)
  obtain k1 where k1: "update E k = Some k1" "steps_on M E k k1"
      "deadline k \<le> clk E (reads k) \<and> 0 < work_ahead k \<longrightarrow> work_ahead k1 < work_ahead k"
    using update_steps [OF assms(1,2) Suc.prems(1)] by blast
  then have tt: "tick_time E (Suc i) k = tick_time E i k1" for i by (simp add: tick_time_def)
  have s1: "sending M E k1" using k1(2) by (simp add: steps_on_def)
  have gaps: "\<forall>i < n. tick_time E (Suc i) k1 \<le> tick_time E i k1 + gap" using Suc.prems(2) tt by (metis Suc_less_eq)
  obtain k' where k': "run_ticks E n k1 = Some k'" "sending M E k'" "work_ahead k' \<le> work_ahead k1"
      "time_bound M gap E k1 \<le> tick_time E n k1 \<longrightarrow> work_ahead k' = 0"
    using Suc.IH [OF s1 gaps] by blast
  have gap1: "unat (clk E (reads k1)) \<le> unat (clk E (reads k)) + gap"
    using Suc.prems(2) k1(1) by (auto simp: tick_time_def)
  have "work_ahead k1 \<le> work_ahead k" using k1(2) by (auto simp: steps_on_def)
  moreover have "time_bound M gap E k1 \<le> time_bound M gap E k" if "work_ahead k \<noteq> 0"
    using time_bound_tick [OF k1(2,3) gap1 that] .
  ultimately show ?case using k1(1) k' tt by (cases "work_ahead k = 0") auto
qed

lemma ticks_conserve:
  assumes "untouched E" "text_mode k" "key_ok k" "run_ticks E n k = Some k'"
  shows "key_ok k' \<and> elements_of (trace k') @ pending (data k') = elements_of (trace k) @ pending (data k)"
  using assms(2-)
proof (induction n arbitrary: k)
  case (Suc n)
  obtain k1 where k1: "update E k = Some k1" "run_ticks E n k1 = Some k'" using Suc.prems(3) by (auto simp: bind_eq_Some_conv)
  note c = update_loop_conserves [OF k1(1) [unfolded update_def] assms(1) Suc.prems(1)]
  have "key_ok k1" using update_loop_key_ok [OF k1(1) [unfolded update_def] Suc.prems(2)] .
  with Suc.IH [OF _ _ k1(2)] c show ?case by simp
qed simp

lemma text_finishes:
  assumes "sending M E k" "key_ok k" "untouched E" "steady_clock E"
    and "\<forall>i < n. tick_time E (Suc i) k \<le> tick_time E i k + gap"
  shows "\<exists>k'. run_ticks E n k = Some k' \<and> (time_bound M gap E k \<le> tick_time E n k \<longrightarrow>
      elements_of (trace k') = elements_of (trace k) @ pending (data k)
      \<and> pending (data k') = [] \<and> \<not> key_line (trace k'))"
proof -
  obtain k' where k': "run_ticks E n k = Some k'" "sending M E k'" "time_bound M gap E k \<le> tick_time E n k \<longrightarrow> work_ahead k' = 0"
    using ticks_finish [OF assms(3,4,1,5)] by blast
  have "text_mode k" using assms(1) by (simp add: sending_def)
  from ticks_conserve [OF assms(3) this assms(2) k'(1)] k' no_work_sent [OF k'(2)]
  show ?thesis by (auto simp: key_ok_def)
qed

text \<open>
  (C11) Text is sent in time. With usable rates, no paddle touched and a clock that does not go back, every
  tick of the keyer succeeds, however many there are; and if the ticks come at most \<open>gap\<close> milliseconds
  apart, then once the clock has passed a bound that is linear in the elements and characters waiting,
  all of them have been sent, in order, nothing is pending, and the key is up.
\<close>

theorem text_sent_in_time:
  assumes "sending M E k" "key_ok k" "untouched E" "steady_clock E"
    and "\<forall>i < n. tick_time E (Suc i) k \<le> tick_time E i k + gap"
  shows "\<exists>k'. run_ticks E n k = Some k'
    \<and> (max (unat (deadline k) + gap) (tick_time E 0 k) + work_ahead k * (M + 512 + 2 * gap) \<le> tick_time E n k \<longrightarrow>
         elements_of (trace k') = elements_of (trace k) @ pending (data k)
         \<and> pending (data k') = [] \<and> \<not> key_line (trace k'))"
  using text_finishes [OF assms] by (simp add: time_bound_def)

text \<open>The letter A, waiting when the keyer starts, with a clock that advances a millisecond at every
  reading: after 100000 ticks it has been sent.\<close>

definition slow_env :: hw_env where
  "slow_env = \<lparr>clk = (\<lambda>n. of_nat (min n (2 ^ 31))), pressed = (\<lambda>_ _. False)\<rparr>"

lemma slow_clock: "unat (clk slow_env n) = min n (2 ^ 31)"
proof -
  have "min n (2 ^ 31) < 2 ^ 32" by (rule le_less_trans [of _ "2 ^ 31"]) simp_all
  then show ?thesis by (simp add: slow_env_def unsigned_of_nat take_bit_nat_eq_self)
qed

lemma steady_slow: "steady_clock slow_env" "untouched slow_env"
  by (auto simp: steady_clock_def slow_clock word_le_nat_alt) (simp add: untouched_def slow_env_def)

lemma slow_gaps:
  assumes "sending M slow_env k"
  shows "tick_time slow_env (Suc i) k \<le> tick_time slow_env i k + 80
    \<and> min (reads k + i) (2 ^ 31) \<le> tick_time slow_env i k"
proof -
  have "\<exists>k'. run_ticks slow_env i k = Some k' \<and> sending M slow_env k' \<and> reads k + i \<le> reads k'" for i
    using assms
  proof (induction i arbitrary: k)
    case (Suc i)
    obtain k1 where "update slow_env k = Some k1" "sending M slow_env k1" "reads k < reads k1"
      using update_steps [OF steady_slow(2,1) Suc.prems] by (auto simp: steps_on_def)
    with Suc.IH [of k1] show ?case by fastforce
  qed simp
  then obtain k' where k': "run_ticks slow_env i k = Some k'" "sending M slow_env k'" "reads k + i \<le> reads k'" by blast
  obtain k'' where k'': "update slow_env k' = Some k''" "reads k'' \<le> reads k' + 80"
    using update_steps [OF steady_slow(2,1) k'(2)] by auto
  have "run_ticks slow_env (Suc i) k = Some k''"
    using k'(1) k''(1) by (induction i arbitrary: k) (auto simp: bind_eq_Some_conv)
  then show ?thesis using k' k'' by (auto simp: tick_time_def slow_clock min_def simp del: run_ticks.simps)
qed

lemma dah_ops_24:
  "mul32 (Fin 1200) (Fin 3) = Fin 3600" "div32 (Fin 3600) (Fin 24) = Fin 150" "to_u32 (Fin 150) = Some 150"
  "f32_of_int 150 = Fin 150" "mul32 (Fin 150) (Fin 50) = Fin 7500" "div32 (Fin 7500) (Fin 50) = Fin 150"
  by code_simp+

lemma init_rates: "usable_rates 400 init_keyer"
  by (simp add: usable_rates_def Let_def init_keyer_def keyer_zero_def weighted_element_length_ms_def
      element_length_ms_def inter_element_space_length_ms_def inter_word_space_length_ms_def get_current_profile_def
      profile_default_def code_style_default_def default_timings_def send_ops_24 space_ops_24 dah_ops_24
      bounded_def del: fadd.simps fmul.simps fdiv.simps)

lemma ready_A:
  defines "k \<equiv> buffer_byte 65 init_keyer"
  shows "sending 400 E k" "work_ahead k = 10" "key_ok k" "pending (data k) = [El_dit, El_dah]" "deadline k = 0"
    "reads k = 0" "trace k = []"
proof -
  have d: "data init_keyer = keyer_internal_state_zero\<lparr>current_state := Some St_idle, mode := Mode_iambic_a,
               winkeyer_speed_wpm := Fin 24\<rparr>" "trace init_keyer = []" "reads init_keyer = 0"
      "wk_inter_char_space_played init_keyer"
    by (simp_all add: init_keyer_def keyer_zero_def)
  let ?z = "circular_buffer_new (replicate 160 (0 :: u8))"
  have inv: "cb_inv ?z" "cb_inv (cb_put 65 ?z)" by (simp_all add: cb_inv_new cb_inv_put)
  have "\<not> cb_is_full ?z" by (simp add: circular_buffer_new_def)
  then have l: "cb_list (cb_put 65 ?z) = [65]" using cb_list_put_free [OF inv(1)] by (simp add: cb_list_new)
  then have ne: "\<not> cb_empty (cb_put 65 ?z)" using cb_empty_iff [OF inv(2)] by simp
  have a: "char_elements 65 = [El_dit, El_dah]" by code_simp
  have "same_rates init_keyer k" by (simp add: k_def buffer_byte_def same_rates_def)
  then have "usable_rates 400 k" using init_rates usable_same_rates by blast
  then show "sending 400 E k" "work_ahead k = 10" "key_ok k" "pending (data k) = [El_dit, El_dah]" "deadline k = 0"
    "reads k = 0" "trace k = []"
    using d inv l ne a
    by (simp_all add: k_def buffer_byte_def keyer_internal_state_zero_def sending_def text_mode_def text_ok_def
        state_ok_def work_ahead_def load_def key_ok_def pending_def remaining_def deadline_def)
qed

theorem text_sent_in_time_witness:
  "\<exists>k'. run_ticks slow_env 100000 (buffer_byte 65 init_keyer) = Some k'
     \<and> elements_of (trace k') = [El_dit, El_dah] \<and> pending (data k') = [] \<and> \<not> key_line (trace k')"
proof -
  let ?k = "buffer_byte 65 init_keyer"
  note r = ready_A(1) [of slow_env] ready_A(2-7)
  have "min (reads ?k + 100000) (2 ^ 31) \<le> tick_time slow_env 100000 ?k" using slow_gaps [OF r(1)] by blast
  then have "100000 \<le> tick_time slow_env 100000 ?k" using r(6) by simp
  moreover have "tick_time slow_env 0 ?k = 0" using r(6) by (simp add: tick_time_def slow_env_def)
  ultimately have "max (unat (deadline ?k) + 80) (tick_time slow_env 0 ?k) + work_ahead ?k * (400 + 512 + 2 * 80)
      \<le> tick_time slow_env 100000 ?k"
    using r(2,5) by simp
  then show ?thesis
    using text_sent_in_time [OF r(1,3) steady_slow(2,1), of 100000 80] slow_gaps [OF r(1)] r(4,7) by auto
qed

section \<open>Break-in\<close>

text \<open>Touching a paddle while text is sent clears the buffer, but not the character in progress: what is
  left of it stays pending and goes out ahead of the next text.\<close>

lemma break_in_leaves_rest:
  assumes "pressed E (polls k) Side_left"
  shows "\<exists>k'. winkeyer_update E now k = Some (St_idle, k') \<and> \<not> winkeyer_enabled (data k')
    \<and> cb_list (winkeyer_buffer (data k')) = [] \<and> pending (data k') = remaining (data k)"
proof -
  have "dit_buffered (data (poll_paddles E k))" "paddles (data (poll_paddles E k)) \<noteq> Paddle_none"
    "playing_bit (data (poll_paddles E k)) = playing_bit (data k)"
    "playing_data (data (poll_paddles E k)) = playing_data (data k)"
    using assms
    by (simp_all add: poll_paddles_def check_dit_paddle_def check_dah_paddle_def is_paddle_pressed_def)
      (metis paddle_state.distinct(1,3,5) paddle_state_of.simps(2,4))
  then show ?thesis
    by (simp add: winkeyer_update_def Let_def pending_def remaining_def cb_list_reset)
qed

end
