(* ===== verification/Cwdaemon_Liveness.thy ===== *)
theory Cwdaemon_Liveness
  imports Cwdaemon_Properties Keyer_Liveness
begin

text \<open>
  From the network to the key: a datagram of text, received by the client thread, is keyed by the ticks of
  the keyer thread within a bound. The properties of the socket, the translation, the byte parser and the
  state machine are put together here.
\<close>

section \<open>What the message changes\<close>

text \<open>A keyer that is ready for text: no memory is playing, no paddle is remembered, the rates are usable,
  and it waits in the idle state or in WinKeyer mode.\<close>

definition ready_for_text :: "nat \<Rightarrow> hw_env \<Rightarrow> keyer \<Rightarrow> bool" where
  "ready_for_text M E k \<longleftrightarrow>
     text_mode k \<and> key_ok k \<and> parser_idle k \<and> usable_rates M k \<and> last_send_time (data k) \<le> clk E (reads k)
     \<and> (case current_state (data k) of
          None \<Rightarrow> False
        | Some s \<Rightarrow> s \<notin> {St_key_down, St_tune} \<and> (winkeyer_enabled (data k) \<or> s = St_idle))"

lemma text_buffered:
  assumes "ready_for_text M E k" "cs \<noteq> []" "\<forall>c \<in> set cs. 32 \<le> c"
    and "length (cb_list (winkeyer_buffer (data k))) + length cs \<le> cb_capacity (winkeyer_buffer (data k))"
  defines "k' \<equiv> with_text cs k"
  shows "sending M E k' \<and> key_ok k' \<and> pending (data k') = pending (data k) @ concat (map char_elements cs)"
proof -
  let ?b = "winkeyer_buffer (data k)"
  have inv: "cb_inv ?b" using assms(1) by (simp add: ready_for_text_def text_mode_def text_ok_def)
  have l: "cb_list (fold cb_put cs ?b) = cb_list ?b @ cs" "cb_inv (fold cb_put cs ?b)"
    using cb.fold_enq [OF inv, of cs] assms(4) by simp_all
  have ne: "\<not> cb_empty (fold cb_put cs ?b)" using cb_empty_iff [OF l(2)] l(1) assms(2) by simp
  have "same_rates k k'" by (simp add: k'_def same_rates_def with_text_def)
  then have "usable_rates M k'" using assms(1) usable_same_rates by (auto simp: ready_for_text_def)
  moreover have "text_mode k'"
    using assms(1,3) l
    by (auto simp: ready_for_text_def text_mode_def text_ok_def state_ok_def k'_def with_text_def list_all_iff split: option.splits)
  ultimately show ?thesis
    using assms(1) l ne
    by (auto simp: ready_for_text_def sending_def k'_def with_text_def key_ok_def pending_def remaining_def split: option.splits)
qed

section \<open>The property\<close>

text \<open>
  (C10) A datagram of text is keyed. When a client sends plain text that fits the free part of the buffer to
  a daemon whose keyer is ready, the client thread accepts it, and from then on every tick of the keyer
  thread succeeds; if the ticks come at most \<open>gap\<close> milliseconds apart, then once the clock has
  passed a bound linear in the elements and characters waiting, exactly the elements that were
  pending and the Morse patterns of the text in capitals, without its trailing blanks, have been keyed after
  those keyed before, nothing is pending, and the key is up.
\<close>

theorem datagram_keyed_in_time:
  assumes "bs \<noteq> []" "length bs < 1024" "length (buffer u) = 1024"
    and "\<forall>c \<in> set bs. 32 \<le> c \<and> c < 126 \<and> c \<noteq> 45 \<and> c \<noteq> 43"
    and "get_speed (wk s) = Some f" "to_u8 f = Some speed" "\<not> is_tuning s"
    and "ready_for_text M (iface_env clock) (wk s)" "steady_clock (iface_env clock)"
    and "length (cb_list (winkeyer_buffer (data (wk s)))) + length bs \<le> cb_capacity (winkeyer_buffer (data (wk s)))"
  shows "\<exists>n u' s'. receive (Recvfrom_bytes bs) u = Inr (True, u') \<and> n \<le> length bs \<and> list_all blank (drop n bs)
    \<and> client_iteration (Some (last_message u')) t t' s = Inr (True, s')
    \<and> (\<forall>m gap. (\<forall>i < m. tick_time (iface_env clock) (Suc i) (wk s') \<le> tick_time (iface_env clock) i (wk s') + gap) \<longrightarrow>
         (\<exists>k'. run_ticks (iface_env clock) m (wk s') = Some k'
            \<and> (time_bound M gap (iface_env clock) (wk s') \<le> tick_time (iface_env clock) m (wk s') \<longrightarrow>
                 elements_of (trace k') = elements_of (trace (wk s)) @ pending (data (wk s))
                   @ concat (map char_elements (map toupper (take n bs)))
                 \<and> pending (data k') = [] \<and> \<not> key_line (trace k'))))"
proof -
  let ?E = "iface_env clock"
  have idle: "parser_idle (wk s)" using assms(8) by (simp add: ready_for_text_def)
  obtain n u' where r: "receive (Recvfrom_bytes bs) u = Inr (True, u')" "0 < n" "n \<le> length bs" "list_all blank (drop n bs)"
    "client_iteration (Some (last_message u')) t t' s = Inr (True, s\<lparr>wk := with_text (map toupper (take n bs)) (wk s)\<rparr>)"
    using plain_datagram [OF assms(1-4) idle assms(5-7)] by blast
  let ?cs = "map toupper (take n bs)"
  let ?k = "with_text ?cs (wk s)"
  have "?cs \<noteq> []" "\<forall>c \<in> set ?cs. 32 \<le> c" using r(2) assms(1,4) toupper_ge by (auto dest: in_set_takeD)
  then have "sending M ?E ?k \<and> key_ok ?k \<and> pending (data ?k) = pending (data (wk s)) @ concat (map char_elements ?cs)"
    using text_buffered [OF assms(8)] assms(10) r(3) by simp
  moreover have "untouched ?E" by (simp add: untouched_def iface_env_def iface_is_paddle_pressed_def)
  ultimately show ?thesis
    using r(1,3-5) text_finishes [of M ?E ?k, OF _ _ _ assms(9)]
    by (intro exI [of _ n] exI [of _ u'] exI [of _ "s\<lparr>wk := ?k\<rparr>"]) simp
qed

text \<open>The datagram \<open>a\<close> sent to the daemon as it starts: keyed after 100000 readings of a clock that
  advances by a millisecond at each.\<close>

lemma ready_init: "ready_for_text 400 E init_keyer"
proof -
  have d: "data init_keyer = keyer_internal_state_zero\<lparr>current_state := Some St_idle, mode := Mode_iambic_a,
               winkeyer_speed_wpm := Fin 24\<rparr>" "trace init_keyer = []"
    by (simp_all add: init_keyer_def keyer_zero_def)
  have "cb_list (circular_buffer_new (replicate 160 (0 :: u8))) = []" by (rule cb_list_new)
  then show ?thesis
    using init_rates parser_idle_init
    by (simp add: ready_for_text_def text_mode_def text_ok_def state_ok_def key_ok_def d keyer_internal_state_zero_def
        cb_inv_new)
qed

theorem datagram_keyed_in_time_witness:
  "\<exists>u' s' k'. receive (Recvfrom_bytes [97]) \<lparr>sockfd = 3, buffer = replicate 1024 0, message = []\<rparr> = Inr (True, u')
     \<and> client_iteration (Some (last_message u')) 0 0 client_start = Inr (True, s')
     \<and> run_ticks slow_env 100000 (wk s') = Some k'
     \<and> elements_of (trace k') = [El_dit, El_dah] \<and> pending (data k') = [] \<and> \<not> key_line (trace k')"
proof -
  let ?u = "\<lparr>sockfd = 3, buffer = replicate 1024 0, message = []\<rparr>" and ?b = "winkeyer_buffer (data (wk client_start))"
  define clock where "clock = clk slow_env"
  have E: "iface_env clock = slow_env" by (simp add: clock_def iface_env_def iface_is_paddle_pressed_def slow_env_def)
  have b: "cb_list ?b = []" "cb_capacity ?b = 160" "trace (wk client_start) = []" "\<not> is_tuning client_start"
      "pending (data (wk client_start)) = []"
    by (simp_all add: client_start_def init_keyer_def keyer_internal_state_zero_def cb_list_new keyer_zero_def
        pending_def remaining_def) (simp add: cb_capacity_def circular_buffer_new_def)
  have "ready_for_text 400 (iface_env clock) (wk client_start)" by (simp add: client_start_def ready_init)
  then obtain n u' s' where r: "receive (Recvfrom_bytes [97]) ?u = Inr (True, u')" "n \<le> 1" "list_all blank (drop n [97])"
      "client_iteration (Some (last_message u')) 0 0 client_start = Inr (True, s')"
    and t: "\<And>m gap. \<forall>i < m. tick_time slow_env (Suc i) (wk s') \<le> tick_time slow_env i (wk s') + gap \<Longrightarrow>
         \<exists>k'. run_ticks slow_env m (wk s') = Some k'
            \<and> (time_bound 400 gap slow_env (wk s') \<le> tick_time slow_env m (wk s') \<longrightarrow>
                 elements_of (trace k') = concat (map char_elements (map toupper (take n [97])))
                 \<and> pending (data k') = [] \<and> \<not> key_line (trace k'))"
    using datagram_keyed_in_time [of "[97]" ?u client_start "Fin 24" 24 400 clock 0 0] client_start_speed b steady_slow(1)
    by (auto simp: E)
  have n: "n = 1" using r(2,3) by (cases n) (auto simp: blank_def)
  obtain n' u2 where "receive (Recvfrom_bytes [97]) ?u = Inr (True, u2)" "0 < n'" "n' \<le> length [97 :: u8]"
      "client_iteration (Some (last_message u2)) 0 0 client_start
        = Inr (True, client_start\<lparr>wk := with_text (map toupper (take n' [97])) (wk client_start)\<rparr>)"
    using plain_datagram [of "[97]" ?u client_start "Fin 24" 24 0 0] client_start_speed b(4) by auto
  moreover have "toupper 97 = 65" by code_simp
  ultimately have "wk s' = with_text [65] init_keyer" using r(1,4) by (auto simp: client_start_def le_Suc_eq)
  also have "\<dots> = buffer_byte 65 init_keyer"
    using parser_idle_init by (simp add: with_text_def buffer_byte_text parser_idle_def is_winkeyer_command_def)
  finally have k: "wk s' = buffer_byte 65 init_keyer" .
  note A = ready_A(1) [of slow_env] ready_A(2-7)
  have "min (reads (wk s') + 100000) (2 ^ 31) \<le> tick_time slow_env 100000 (wk s')" using slow_gaps [OF A(1)] k by simp
  then have "time_bound 400 80 slow_env (wk s') \<le> tick_time slow_env 100000 (wk s')"
    using A by (simp add: time_bound_def k tick_time_def slow_env_def)
  moreover have "char_elements (toupper 97) = [El_dit, El_dah]" by code_simp
  ultimately show ?thesis using t [of 100000 80] slow_gaps [OF A(1)] r(1,4) k n by auto
qed

end
