(* ===== verification/Rig_Command.thy ===== *)
theory Rig_Command
  imports Cpp_Text
begin

text \<open>
  The command interpreter of the rig control server (\<open>src/rigctld_server.cpp\<close>,
  \<open>interpret_command\<close> and the functions it calls). Hamlib is not part of the repository: its
  functions and constants are the record \<open>hamlib\<close>, a parameter of the model, over an abstract rig
  state. A getter that may leave its output variable unwritten returns an option; the sources print
  the variable without checking, so \<open>None\<close> is undefined behaviour there.
\<close>

section \<open>Hamlib\<close>

record frq_range =
  startf :: flt
  endf :: flt
  modes :: nat
  low_power :: int
  high_power :: int
  range_vfo :: nat
  ant :: nat

datatype level_value = Level_float flt | Level_int int

text \<open>What \<open>dump_state\<close> reads from \<open>rig->caps\<close> and \<open>rig->state\<close>.\<close>

record rig_info =
  caps_rig_model :: int
  rx_range_list :: "frq_range list"
  tx_range_list :: "frq_range list"
  tuning_steps :: "(nat \<times> int) list"
  filters :: "(nat \<times> int) list"
  max_rit :: int
  max_xit :: int
  max_ifshift :: int
  announces :: int
  preamp :: "int list"
  attenuator :: "int list"
  has_get_func :: nat
  has_set_func :: nat
  has_get_level :: nat
  has_set_level :: nat
  has_get_parm :: nat
  has_set_parm :: nat

record hamlib_consts =
  VFO_A :: int
  VFO_B :: int
  VFO_C :: int
  VFO_CURR :: int
  VFO_NONE :: int
  MODE_USB :: int
  MODE_LSB :: int
  MODE_CW :: int
  MODE_RTTY :: int
  MODE_RTTYR :: int
  MODE_AM :: int
  MODE_FM :: int
  MODE_PKTLSB :: int
  MODE_PKTUSB :: int
  MODE_PKTFM :: int
  MODE_ALL :: int
  SPLIT_OFF :: int
  SPLIT_ON :: int
  LEVEL_AGC :: int
  AGC_OFF :: int
  AGC_FAST :: int
  MODEL_IC7300 :: int
  FRQRANGESIZ :: nat
  TSLSTSIZ :: nat
  FLTLSTSIZ :: nat
  MAXDBLSTSIZ :: nat

text \<open>The functions; a return code of 0 is \<open>RIG_OK\<close>. \<open>reported\<close> are the messages a rig has given to the debug
  callback so far. The value of \<open>rig_get_level\<close> is the union
  \<open>value_t\<close> as read through its members \<open>f\<close> and \<open>i\<close>.\<close>

record 'r hamlib = hamlib_consts +
  frng_end :: "frq_range \<Rightarrow> bool"
  ts_end :: "nat \<times> int \<Rightarrow> bool"
  flt_end :: "nat \<times> int \<Rightarrow> bool"
  info :: "'r \<Rightarrow> rig_info"
  reported :: "'r \<Rightarrow> string list"
  rig_init :: "int \<Rightarrow> 'r option"
  set_pathname :: "string \<Rightarrow> 'r \<Rightarrow> 'r"
  rig_set_conf :: "string \<Rightarrow> string \<Rightarrow> 'r \<Rightarrow> int \<times> 'r"
  rig_open :: "'r \<Rightarrow> int \<times> 'r"
  get_powerstat :: "'r \<Rightarrow> int option \<times> 'r"
  set_powerstat :: "int \<Rightarrow> 'r \<Rightarrow> 'r"
  get_lock_mode :: "'r \<Rightarrow> int option \<times> 'r"
  get_freq :: "'r \<Rightarrow> flt option \<times> 'r"
  set_freq :: "flt \<Rightarrow> 'r \<Rightarrow> 'r"
  get_split_vfo :: "'r \<Rightarrow> int \<times> int option \<times> int option \<times> 'r"
  set_split_vfo :: "int \<Rightarrow> int \<Rightarrow> 'r \<Rightarrow> 'r"
  get_ptt :: "'r \<Rightarrow> int option \<times> 'r"
  set_ptt :: "int \<Rightarrow> 'r \<Rightarrow> 'r"
  set_vfo :: "int \<Rightarrow> 'r \<Rightarrow> 'r"
  get_mode :: "'r \<Rightarrow> int option \<times> int option \<times> 'r"
  set_mode :: "int \<Rightarrow> int \<Rightarrow> 'r \<Rightarrow> 'r"
  parse_level :: "string \<Rightarrow> int"
  level_is_float :: "int \<Rightarrow> bool"
  get_level :: "int \<Rightarrow> 'r \<Rightarrow> int \<times> flt \<times> int \<times> 'r"
  set_level :: "int \<Rightarrow> level_value \<Rightarrow> 'r \<Rightarrow> int \<times> 'r"
  get_rit :: "'r \<Rightarrow> int option \<times> 'r"

section \<open>Names\<close>

definition vfo_to_string :: "'r hamlib \<Rightarrow> int \<Rightarrow> string" where
  "vfo_to_string h vfo =
     (if vfo = VFO_A h then ''VFOA'' else if vfo = VFO_B h then ''VFOB''
      else if vfo = VFO_C h then ''VFOC'' else ''UNKNOWN'')"

definition vfo_from_string :: "'r hamlib \<Rightarrow> string \<Rightarrow> int" where
  "vfo_from_string h vfo_name =
     (if vfo_name = ''VFOA'' then VFO_A h else if vfo_name = ''VFOB'' then VFO_B h
      else if vfo_name = ''VFOC'' then VFO_C h else VFO_CURR h)"

definition mode_to_string :: "'r hamlib \<Rightarrow> int \<Rightarrow> string" where
  "mode_to_string h mode =
     (if mode = MODE_USB h then ''USB'' else if mode = MODE_LSB h then ''LSB''
      else if mode = MODE_CW h then ''CW'' else if mode = MODE_RTTY h then ''RTTY''
      else if mode = MODE_RTTYR h then ''RTTYR'' else if mode = MODE_AM h then ''AM''
      else if mode = MODE_FM h then ''FM'' else if mode = MODE_PKTLSB h then ''PKTLSB''
      else if mode = MODE_PKTUSB h then ''PKTUSB'' else if mode = MODE_PKTFM h then ''PKTFM''
      else ''UNKNOWN'')"

definition mode_from_string :: "'r hamlib \<Rightarrow> string \<Rightarrow> int" where
  "mode_from_string h name =
     (if name = ''USB'' then MODE_USB h else if name = ''LSB'' then MODE_LSB h
      else if name = ''CW'' then MODE_CW h else if name = ''RTTY'' then MODE_RTTY h
      else if name = ''RTTYR'' then MODE_RTTYR h else if name = ''AM'' then MODE_AM h
      else if name = ''FM'' then MODE_FM h else if name = ''PKTLSB'' then MODE_PKTLSB h
      else if name = ''PKTUSB'' then MODE_PKTUSB h else if name = ''PKTFM'' then MODE_PKTFM h
      else MODE_ALL h)"

definition split_to_string :: "'r hamlib \<Rightarrow> int \<Rightarrow> string" where
  "split_to_string h split = (if split = SPLIT_ON h then ''1'' else ''0'')"

text \<open>\<open>char('0' + status)\<close>: the sum is converted to \<open>char\<close>, modulo 256.\<close>

definition to_client :: "int \<Rightarrow> string" where
  "to_client status = [char_of (nat ((48 + status) mod 256))]"

section \<open>The capability dump\<close>

abbreviation newline :: string where "newline \<equiv> [CHR 0x0A]"

definition dump_range :: "frq_range \<Rightarrow> string" where
  "dump_range r =
     to_string_double (startf r) @ '' '' @ to_string_double (endf r) @ '' 0x'' @ hex_of_nat (modes r)
     @ '' '' @ to_string (low_power r) @ '' '' @ to_string (high_power r)
     @ '' 0x'' @ hex_of_nat (range_vfo r) @ '' 0x'' @ hex_of_nat (ant r) @ newline"

definition dump_pair :: "nat \<times> int \<Rightarrow> string" where
  "dump_pair = (\<lambda>(m, v). ''0x'' @ hex_of_nat m @ '' '' @ to_string v @ newline)"

text \<open>A loop \<open>i < size && !end(list[i])\<close> over a Hamlib array.\<close>

definition until_end :: "nat \<Rightarrow> ('a \<Rightarrow> bool) \<Rightarrow> 'a list \<Rightarrow> 'a list" where
  "until_end n e xs = takeWhile (\<lambda>x. \<not> e x) (take n xs)"

definition dump_state :: "'r hamlib \<Rightarrow> 'r \<Rightarrow> string" where
  "dump_state h rig =
     (let rs = info h rig in
      to_string 0 @ newline @ to_string (caps_rig_model rs) @ newline @ ''0'' @ newline
      @ concat (map dump_range (until_end (FRQRANGESIZ h) (frng_end h) (rx_range_list rs)))
      @ ''0 0 0 0 0 0 0'' @ newline
      @ concat (map dump_range (until_end (FRQRANGESIZ h) (frng_end h) (tx_range_list rs)))
      @ ''0 0 0 0 0 0 0'' @ newline
      @ concat (map dump_pair (until_end (TSLSTSIZ h) (ts_end h) (tuning_steps rs)))
      @ ''0 0'' @ newline
      @ concat (map dump_pair (until_end (FLTLSTSIZ h) (flt_end h) (filters rs)))
      @ ''0 0'' @ newline
      @ to_string (max_rit rs) @ newline @ to_string (max_xit rs) @ newline
      @ to_string (max_ifshift rs) @ newline @ to_string (announces rs) @ newline
      @ concat (map (\<lambda>v. to_string v @ '' '') (until_end (MAXDBLSTSIZ h) (\<lambda>v. v = 0) (preamp rs)))
      @ newline
      @ concat (map (\<lambda>v. to_string v @ '' '') (until_end (MAXDBLSTSIZ h) (\<lambda>v. v = 0) (attenuator rs)))
      @ newline
      @ ''0x'' @ hex_of_nat (has_get_func rs) @ newline @ ''0x'' @ hex_of_nat (has_set_func rs) @ newline
      @ ''0x'' @ hex_of_nat (has_get_level rs) @ newline @ ''0x'' @ hex_of_nat (has_set_level rs) @ newline
      @ ''0x'' @ hex_of_nat (has_get_parm rs) @ newline @ ''0x'' @ hex_of_nat (has_set_parm rs) @ newline)"

section \<open>Commands\<close>

text \<open>The effect of a command: the lines it answers with and the new rig state.\<close>

type_synonym 'r reply = "(string list \<times> 'r) result"

text \<open>Printing a variable a getter was to fill.\<close>

definition print_out :: "('v \<Rightarrow> string) \<Rightarrow> 'v option \<times> 'r \<Rightarrow> 'r reply" where
  "print_out f = (\<lambda>(out, rig). case out of None \<Rightarrow> Inl Undefined_behaviour | Some v \<Rightarrow> Inr ([f v], rig))"

definition acknowledge :: "'r \<Rightarrow> 'r reply" where
  "acknowledge rig = Inr ([''RPRT 0''], rig)"

definition pieces_of :: "string \<Rightarrow> string list result" where
  "pieces_of cmd = (case split_string cmd '' '' of None \<Rightarrow> Inl Undefined_behaviour | Some ps \<Rightarrow> Inr ps)"

definition cmd_get_split :: "'r hamlib \<Rightarrow> 'r \<Rightarrow> 'r reply" where
  "cmd_get_split h rig =
     (let (rc, s, t, rig') = get_split_vfo h rig;
          split = (case s of None \<Rightarrow> SPLIT_OFF h | Some v \<Rightarrow> v);
          txvfo = (case t of None \<Rightarrow> VFO_A h | Some v \<Rightarrow> v);
          (split, txvfo) = (if rc \<noteq> 0 \<or> txvfo = VFO_NONE h then (SPLIT_OFF h, VFO_A h) else (split, txvfo));
          txvfo = (if txvfo \<noteq> VFO_A h \<and> txvfo \<noteq> VFO_B h \<and> txvfo \<noteq> VFO_C h then VFO_A h else txvfo)
      in Inr ([split_to_string h split @ newline @ vfo_to_string h txvfo], rig'))"

definition cmd_set_split :: "'r hamlib \<Rightarrow> string \<Rightarrow> 'r \<Rightarrow> 'r reply" where
  "cmd_set_split h cmd rig =
     bind_result (pieces_of cmd) (\<lambda>pieces.
       let split = (if length pieces > 1 \<and> pieces ! 1 = ''1'' then SPLIT_ON h else SPLIT_OFF h);
           txvfo = (if length pieces > 2 then vfo_from_string h (pieces ! 2) else VFO_A h)
       in acknowledge (set_split_vfo h split txvfo rig))"

definition cmd_get_mode :: "'r hamlib \<Rightarrow> 'r \<Rightarrow> 'r reply" where
  "cmd_get_mode h rig =
     (let (m, w, rig') = get_mode h rig;
          mode = (case m of None \<Rightarrow> 0 | Some v \<Rightarrow> v);
          width = (case w of None \<Rightarrow> 0 | Some v \<Rightarrow> v)
      in Inr ([mode_to_string h mode @ newline @ to_string width], rig'))"

text \<open>\<open>pieces[2]\<close> and \<open>pieces[1]\<close> are not checked against the number of pieces.\<close>

definition cmd_set_mode :: "'r hamlib \<Rightarrow> string \<Rightarrow> 'r \<Rightarrow> 'r reply" where
  "cmd_set_mode h cmd rig =
     bind_result (pieces_of cmd) (\<lambda>pieces.
       if length pieces \<le> 2 then Inl Undefined_behaviour
       else bind_result (stoi (pieces ! 2)) (\<lambda>pbwidth.
              acknowledge (set_mode h (mode_from_string h (pieces ! 1)) pbwidth rig)))"

definition cmd_get_level :: "'r hamlib \<Rightarrow> string \<Rightarrow> 'r \<Rightarrow> 'r reply" where
  "cmd_get_level h cmd rig =
     (let level = parse_level h (drop 2 cmd);
          (rc, f, i, rig') = get_level h level rig
      in Inr ([if rc \<noteq> 0 then ''RPRT '' @ to_string rc
               else if level_is_float h level then to_string_double f else to_string i], rig'))"

definition cmd_set_level :: "'r hamlib \<Rightarrow> int \<Rightarrow> string \<Rightarrow> 'r \<Rightarrow> 'r reply" where
  "cmd_set_level h model cmd rig =
     bind_result (pieces_of cmd) (\<lambda>pieces.
       let level = parse_level h (if length pieces > 1 then pieces ! 1 else '''') in
       bind_result
         (if level_is_float h level
          then (if length pieces > 2 then bind_result (stof (pieces ! 2)) (\<lambda>f. Inr (Level_float f))
                else Inr (Level_float (Fin 0)))
          else (if length pieces > 2 then bind_result (stoi (pieces ! 2)) (\<lambda>i. Inr (Level_int i))
                else Inr (Level_int 0)))
         (\<lambda>val.
            bind_result
              (if level = LEVEL_AGC h then
                 (case val of
                    Level_float _ \<Rightarrow> Inl Undefined_behaviour
                  | Level_int i \<Rightarrow>
                      Inr (if i = AGC_OFF h \<and> model = MODEL_IC7300 h then Level_int (AGC_FAST h) else val))
               else Inr val)
              (\<lambda>val. case set_level h level val rig of
                       (rc, rig') \<Rightarrow> Inr ([''RPRT '' @ to_string rc], rig'))))"

text \<open>\<open>interpret_command\<close>: the replies of the command and whether the client stays; \<open>q\<close> flushes and
  closes. Lines the server does not know get no reply. \<open>&cmd.c_str()[n]\<close> is the rest of the line.\<close>

definition interpret_command :: "'r hamlib \<Rightarrow> int \<Rightarrow> string \<Rightarrow> 'r \<Rightarrow> (bool \<times> string list \<times> 'r) result" where
  "interpret_command h model command rig =
     (let cmd = trim command;
          stay = (\<lambda>r. bind_result r (\<lambda>(out, rig'). Inr (True, out, rig')))
      in if cmd = [CHR 0x5C] @ ''get_powerstat'' then stay (print_out to_client (get_powerstat h rig))
         else if starts_with cmd ([CHR 0x5C] @ ''set_powerstat '') then
           stay (bind_result (stoi (drop 15 cmd)) (\<lambda>status. acknowledge (set_powerstat h status rig)))
         else if cmd = [CHR 0x5C] @ ''chk_vfo'' then Inr (True, [''0''], rig)
         else if cmd = [CHR 0x5C] @ ''get_lock_mode'' then
           stay (bind_result (print_out to_string (get_lock_mode h rig)) (\<lambda>(out, rig'). Inr (out @ [''''], rig')))
         else if cmd = [CHR 0x5C] @ ''dump_state'' then Inr (True, [dump_state h rig], rig)
         else if cmd = ''f'' then stay (print_out to_string_double (get_freq h rig))
         else if cmd = ''s'' then stay (cmd_get_split h rig)
         else if starts_with cmd ''S '' then stay (cmd_set_split h cmd rig)
         else if cmd = ''t'' then stay (print_out to_string (get_ptt h rig))
         else if starts_with cmd ''T '' then
           stay (bind_result (stoi (drop 2 cmd)) (\<lambda>ptt. acknowledge (set_ptt h ptt rig)))
         else if starts_with cmd ''V '' then
           stay (acknowledge (set_vfo h (vfo_from_string h (drop 2 cmd)) rig))
         else if cmd = ''m'' then stay (cmd_get_mode h rig)
         else if starts_with cmd ''M '' then stay (cmd_set_mode h cmd rig)
         else if starts_with cmd ''F '' then
           stay (bind_result (stod (drop 2 cmd)) (\<lambda>freq. acknowledge (set_freq h freq rig)))
         else if starts_with cmd ''l '' then stay (cmd_get_level h cmd rig)
         else if starts_with cmd ''L '' then stay (cmd_set_level h model cmd rig)
         else if cmd = ''q'' \<or> cmd = ''Q'' then Inr (False, [''RPRT 0''], rig)
         else if cmd = ''j'' then
           stay (case get_rit h rig of
                   (out, rig') \<Rightarrow> Inr ([to_string (case out of None \<Rightarrow> 0 | Some v \<Rightarrow> v)], rig'))
         else if cmd = ''v'' then Inr (True, [''Main''], rig)
         else Inr (True, [], rig))"

end
