(* ===== verification/Rig_Server.thy ===== *)
theory Rig_Server
  imports Rig_Command
begin

text \<open>
  The rig control server around its interpreter (\<open>src/rigctld_server.{h,cpp}\<close>): clients and their
  buffers, the poll loop of \<open>work\<close>, connecting and disconnecting the rig. The answers of the
  operating system in one iteration (\<open>poll\<close>, \<open>accept\<close>, \<open>recv\<close>, \<open>write\<close>) are a record the iteration is
  given. \<open>std::map<int, rigctld_client>\<close> is an association list in the order of its keys.
\<close>

section \<open>State\<close>

record rigctld_client =
  fd :: int
  read_buffer :: string
  write_buffer :: string
  client_is_running :: bool

definition client_zero :: rigctld_client where
  "client_zero = \<lparr>fd = 0, read_buffer = [], write_buffer = [], client_is_running = True\<rparr>"

datatype poll_flag = POLLIN | POLLOUT | POLLERR | POLLHUP | POLLNVAL

text \<open>The members of the server, and what it has done to its sockets: the bytes written and the
  descriptors closed, in order.\<close>

record 'r rigctld_server =
  rig :: "'r option"
  rig_model :: int
  device :: string
  listen_port :: u16
  serial_speed :: int
  server_fd :: int
  clients :: "(int \<times> rigctld_client) list"
  rig_disconnected :: bool
  is_running :: bool
  pfds :: "(int \<times> poll_flag set) list"
  pfd_nr :: nat
  written :: "(int \<times> string) list"
  closed :: "int list"

datatype recv_result = Recv_error | Recv_eof | Recv_bytes string

record os_answers =
  num_events :: int
  revents :: "nat \<Rightarrow> poll_flag set"
  accepted :: int
  recvd :: "int \<Rightarrow> recv_result"
  wrote :: "int \<Rightarrow> string \<Rightarrow> int"
  device_present :: bool

section \<open>The client map\<close>

definition map_insert :: "int \<Rightarrow> rigctld_client \<Rightarrow> (int \<times> rigctld_client) list \<Rightarrow> (int \<times> rigctld_client) list" where
  "map_insert k c cs = (if k \<in> fst ` set cs then cs else insort_key fst (k, c) cs)"

text \<open>A change of \<open>clients[fd]\<close>; the subscript operator inserts a missing entry.\<close>

definition modify_client ::
    "int \<Rightarrow> (rigctld_client \<Rightarrow> rigctld_client) \<Rightarrow> 'r rigctld_server \<Rightarrow> 'r rigctld_server" where
  "modify_client k f s =
     s\<lparr>clients := map (\<lambda>(j, c). (j, if j = k then f c else c)) (map_insert k client_zero (clients s))\<rparr>"

definition client_at :: "int \<Rightarrow> 'r rigctld_server \<Rightarrow> rigctld_client" where
  "client_at k s = (case map_of (clients s) k of None \<Rightarrow> client_zero | Some c \<Rightarrow> c)"

section \<open>Client operations\<close>

definition send_response_to_client :: "string \<Rightarrow> int \<Rightarrow> 'r rigctld_server \<Rightarrow> 'r rigctld_server" where
  "send_response_to_client response k =
     modify_client k (\<lambda>c. c\<lparr>write_buffer := write_buffer c @ response @ newline\<rparr>)"

definition write_from_client :: "os_answers \<Rightarrow> int \<Rightarrow> 'r rigctld_server \<Rightarrow> bool \<times> 'r rigctld_server" where
  "write_from_client io k s =
     (let c = client_at k s in
      if write_buffer c = [] then (True, modify_client k id s)
      else let n = wrote io (fd c) (write_buffer c)
           in if n < 0 then (False, s)
              else (True, (modify_client k (\<lambda>c. c\<lparr>write_buffer := drop (nat n) (write_buffer c)\<rparr>) s)
                            \<lparr>written := written s @ [(fd c, take (nat n) (write_buffer c))]\<rparr>))"

definition close_client :: "rigctld_client \<Rightarrow> 'r rigctld_server \<Rightarrow> 'r rigctld_server" where
  "close_client c s = s\<lparr>closed := closed s @ [fd c]\<rparr>"

definition accept_client :: "os_answers \<Rightarrow> 'r rigctld_server \<Rightarrow> int \<times> 'r rigctld_server" where
  "accept_client io s =
     (let client_fd = accepted io in
      (client_fd,
       if client_fd < 0 then s
       else s\<lparr>clients := map_insert client_fd (client_zero\<lparr>fd := client_fd\<rparr>) (clients s)\<rparr>))"

text \<open>Hamlib calls back with its messages while a command runs; a failed read counts as a disconnect only when
  the device node is gone. \<open>open_rig\<close> runs with the flag set, so that its messages change nothing.\<close>

definition on_rig_disconnect :: "bool \<Rightarrow> 'r rigctld_server \<Rightarrow> 'r rigctld_server" where
  "on_rig_disconnect present s = (if present then s else s\<lparr>rig_disconnected := True\<rparr>)"

definition debug_callback :: "string \<Rightarrow> bool \<Rightarrow> 'r rigctld_server \<Rightarrow> 'r rigctld_server" where
  "debug_callback message present s =
     (if string_contains message ''read failed'' then on_rig_disconnect present s else s)"

definition callbacks :: "'r hamlib \<Rightarrow> os_answers \<Rightarrow> 'r \<Rightarrow> 'r \<Rightarrow> 'r rigctld_server \<Rightarrow> 'r rigctld_server" where
  "callbacks h io r r' =
     fold (\<lambda>m. debug_callback m (device_present io)) (drop (length (reported h r)) (reported h r'))"

text \<open>\<open>interpret_command\<close> on the server: the callbacks of the rig run, the replies go to the write buffer of the
  client, and \<open>q\<close> flushes it. A command that throws does so before it has called Hamlib. A null rig is only reached with \<open>rig_disconnected\<close> false, which the server excludes.\<close>

definition run_command ::
    "'r hamlib \<Rightarrow> os_answers \<Rightarrow> string \<Rightarrow> int \<Rightarrow> 'r rigctld_server \<Rightarrow> (bool \<times> 'r rigctld_server) result" where
  "run_command h io cmd client_fd s =
     (case rig s of
        None \<Rightarrow> Inl Undefined_behaviour
      | Some r \<Rightarrow>
          bind_result (interpret_command h (rig_model s) cmd r) (\<lambda>(stay, out, r').
            let s' = fold (\<lambda>l. send_response_to_client l client_fd) out (callbacks h io r r' (s\<lparr>rig := Some r'\<rparr>))
            in Inr (stay, if stay then s' else snd (write_from_client io client_fd s'))))"

definition set_read_buffer :: "int \<Rightarrow> string \<Rightarrow> 'r rigctld_server \<Rightarrow> 'r rigctld_server" where
  "set_read_buffer k buf = modify_client k (\<lambda>c. c\<lparr>read_buffer := buf\<rparr>)"

text \<open>The loop over the complete lines of the read buffer; \<open>std::exception\<close> is caught and answered,
  undefined behaviour is not.\<close>

function read_loop ::
    "'r hamlib \<Rightarrow> os_answers \<Rightarrow> int \<Rightarrow> string \<Rightarrow> 'r rigctld_server \<Rightarrow> (bool \<times> 'r rigctld_server) result" where
  "read_loop h io k buf s =
     (let cmd = takeWhile (\<lambda>c. c \<noteq> CHR 0x0A) buf in
      if length cmd = length buf then Inr (True, s)
      else
        let rest = drop (length cmd + 1) buf in
        case run_command h io cmd k s of
          Inr (True, s') \<Rightarrow> read_loop h io k rest (set_read_buffer k rest s')
        | Inr (False, s') \<Rightarrow> Inr (False, s')
        | Inl e \<Rightarrow>
            if e = Undefined_behaviour then Inl e
            else read_loop h io k rest
                   (set_read_buffer k rest (send_response_to_client ''RPRT -1'' k s)))"
  by auto
termination
proof (relation "measure (\<lambda>(h, io, k, buf, s). length buf)", goal_cases)
  case (2 h io k buf s x xa)
  then show ?case using length_takeWhile_le [of "\<lambda>c. c \<noteq> CHR 0x0A" buf] by auto
next
  case (3 h io k buf s x xa)
  then show ?case using length_takeWhile_le [of "\<lambda>c. c \<noteq> CHR 0x0A" buf] by auto
qed auto

declare read_loop.simps [simp del]

text \<open>The bytes of one \<open>recv\<close>, appended as a C string; requests are not interpreted while the rig is
  disconnected.\<close>

definition take_bytes ::
    "'r hamlib \<Rightarrow> os_answers \<Rightarrow> int \<Rightarrow> string \<Rightarrow> 'r rigctld_server \<Rightarrow> (bool \<times> 'r rigctld_server) result" where
  "take_bytes h io k msg s =
     (let buf = read_buffer (client_at k s) @ takeWhile (\<lambda>c. c \<noteq> CHR 0x00) msg;
          s1 = set_read_buffer k buf s
      in if rig_disconnected s1 then Inr (True, s1) else read_loop h io k buf s1)"

definition read_from_client ::
    "'r hamlib \<Rightarrow> os_answers \<Rightarrow> int \<Rightarrow> 'r rigctld_server \<Rightarrow> (bool \<times> 'r rigctld_server) result" where
  "read_from_client h io k s =
     (case recvd io (fd (client_at k s)) of
        Recv_error \<Rightarrow> Inr (False, s)
      | Recv_eof \<Rightarrow> Inr (False, s)
      | Recv_bytes msg \<Rightarrow> take_bytes h io k msg s)"

section \<open>Poll descriptors\<close>

definition client_events :: "rigctld_client \<Rightarrow> poll_flag set" where
  "client_events c = (if write_buffer c = [] then {POLLIN} else {POLLIN, POLLOUT})"

definition update_poll_descriptors :: "'r rigctld_server \<Rightarrow> 'r rigctld_server" where
  "update_poll_descriptors s =
     s\<lparr>pfds := (server_fd s, {POLLIN}) # map (\<lambda>(k, c). (fd c, client_events c)) (clients s),
       pfd_nr := length (clients s) + 1\<rparr>"

definition poll_declares_error :: "poll_flag set \<Rightarrow> bool" where
  "poll_declares_error events \<longleftrightarrow> POLLERR \<in> events \<or> POLLHUP \<in> events \<or> POLLNVAL \<in> events"

text \<open>The clients are numbered from 1; a descriptor past the array is undefined behaviour.\<close>

fun set_flags :: "nat \<Rightarrow> (int \<times> rigctld_client) list \<Rightarrow> (int \<times> poll_flag set) list
    \<Rightarrow> (int \<times> poll_flag set) list result" where
  "set_flags i [] ps = Inr ps"
| "set_flags i ((k, c) # cs) ps =
     (if i < length ps
      then let (f, e) = ps ! i
           in set_flags (i + 1) cs (ps[i := (f, if write_buffer c = [] then e - {POLLOUT} else insert POLLOUT e)])
      else Inl Undefined_behaviour)"

definition update_poll_flags :: "'r rigctld_server \<Rightarrow> 'r rigctld_server result" where
  "update_poll_flags s = bind_result (set_flags 1 (clients s) (pfds s)) (\<lambda>ps. Inr (s\<lparr>pfds := ps\<rparr>))"

section \<open>The rig\<close>

definition string_of_conf :: "int \<Rightarrow> string" where "string_of_conf n = to_string n"

definition set_conf_or_throw :: "'r hamlib \<Rightarrow> string \<Rightarrow> string \<Rightarrow> string \<Rightarrow> 'r \<Rightarrow> 'r result" where
  "set_conf_or_throw h token val message r =
     (case rig_set_conf h token val r of (rc, r') \<Rightarrow> if rc \<noteq> 0 then Inl (Runtime_error message) else Inr r')"

definition open_rig :: "'r hamlib \<Rightarrow> 'r rigctld_server \<Rightarrow> (bool \<times> 'r rigctld_server) result" where
  "open_rig h s =
     (case rig_init h (rig_model s) of
        None \<Rightarrow> Inl (Runtime_error ''unknown rig num'')
      | Some r0 \<Rightarrow>
          bind_result
            (if serial_speed s \<noteq> 0
             then set_conf_or_throw h ''serial_speed'' (string_of_conf (serial_speed s))
                    ''rigctld failed to set serial_speed'' (set_pathname h (device s) r0)
             else Inr (set_pathname h (device s) r0))
            (\<lambda>r1. bind_result (set_conf_or_throw h ''rts_state'' ''OFF'' ''rigctld failed to set rts_state'' r1)
            (\<lambda>r2. bind_result (set_conf_or_throw h ''dtr_state'' ''OFF'' ''rigctld failed to set dtr_state'' r2)
            (\<lambda>r3. case rig_open h r3 of
                    (rc, r4) \<Rightarrow> if rc \<noteq> 0 then Inr (False, s\<lparr>rig := None\<rparr>)
                                else Inr (True, s\<lparr>rig := Some r4\<rparr>)))))"

section \<open>The loop\<close>

definition drop_rig :: "'r rigctld_server \<Rightarrow> 'r rigctld_server" where
  "drop_rig s =
     (if rig s = None then s
      else (update_poll_descriptors ((fold (close_client \<circ> snd) (clients s) s)\<lparr>clients := []\<rparr>))\<lparr>rig := None\<rparr>)"

definition reconnect :: "'r hamlib \<Rightarrow> 'r rigctld_server \<Rightarrow> 'r rigctld_server result" where
  "reconnect h s =
     (if rig_disconnected s
      then bind_result (open_rig h (drop_rig s)) (\<lambda>(ok, s').
             Inr (if ok then s'\<lparr>rig_disconnected := False\<rparr> else s'))
      else Inr s)"

text \<open>One descriptor: the listener has index 0. The accumulator holds the server, the accepted
  descriptor and the descriptors to remove.\<close>

definition handle_pollin :: "'r hamlib \<Rightarrow> os_answers \<Rightarrow> nat \<Rightarrow> 'r rigctld_server \<times> int \<times> int list
    \<Rightarrow> ('r rigctld_server \<times> int \<times> int list) result" where
  "handle_pollin h io i = (\<lambda>(s, fd_to_add, rm).
     if POLLIN \<in> revents io i then
       if i = 0 then (case accept_client io s of (r, s') \<Rightarrow> Inr (s', r, rm))
       else bind_result (read_from_client h io (fst (pfds s ! i)) s) (\<lambda>(ok, s').
              Inr (s', fd_to_add, if ok then rm else rm @ [fst (pfds s ! i)]))
     else Inr (s, fd_to_add, rm))"

definition handle_pollout :: "os_answers \<Rightarrow> nat \<Rightarrow> 'r rigctld_server \<times> int \<times> int list
    \<Rightarrow> 'r rigctld_server \<times> int \<times> int list" where
  "handle_pollout io i = (\<lambda>(s, fd_to_add, rm).
     if POLLOUT \<in> revents io i
     then (case write_from_client io (fst (pfds s ! i)) s of
             (ok, s') \<Rightarrow> (s', fd_to_add, if ok then rm else rm @ [fst (pfds s ! i)]))
     else (s, fd_to_add, rm))"

definition handle_event :: "'r hamlib \<Rightarrow> os_answers \<Rightarrow> nat \<Rightarrow> 'r rigctld_server \<times> int \<times> int list
    \<Rightarrow> ('r rigctld_server \<times> int \<times> int list) result" where
  "handle_event h io i = (\<lambda>(s, fd_to_add, rm).
     if poll_declares_error (revents io i) then Inr (s, fd_to_add, rm @ [fst (pfds s ! i)])
     else bind_result (handle_pollin h io i (s, fd_to_add, rm)) (\<lambda>acc. Inr (handle_pollout io i acc)))"

fun handle_events :: "'r hamlib \<Rightarrow> os_answers \<Rightarrow> nat list \<Rightarrow> 'r rigctld_server \<times> int \<times> int list
    \<Rightarrow> ('r rigctld_server \<times> int \<times> int list) result" where
  "handle_events h io [] acc = Inr acc"
| "handle_events h io (i # is) acc = bind_result (handle_event h io i acc) (handle_events h io is)"

definition remove_client :: "int \<Rightarrow> 'r rigctld_server \<Rightarrow> 'r rigctld_server" where
  "remove_client k s =
     (case map_of (clients s) k of
        None \<Rightarrow> s
      | Some c \<Rightarrow> (close_client c s)\<lparr>clients := filter (\<lambda>(j, _). j \<noteq> k) (clients s)\<rparr>)"

definition finish_events :: "'r rigctld_server \<times> int \<times> int list \<Rightarrow> 'r rigctld_server result" where
  "finish_events = (\<lambda>(s, fd_to_add, rm).
     let s1 = fold remove_client rm s;
         s2 = (if fd_to_add > 0 \<or> rm \<noteq> [] then update_poll_descriptors s1 else s1)
     in update_poll_flags s2)"

definition work_iteration :: "'r hamlib \<Rightarrow> os_answers \<Rightarrow> 'r rigctld_server \<Rightarrow> 'r rigctld_server result" where
  "work_iteration h io s =
     bind_result (reconnect h s) (\<lambda>s1.
       if num_events io > 0
       then bind_result (handle_events h io [0..<pfd_nr s1] (s1, - 1, [])) finish_events
       else Inr s1)"

text \<open>\<open>work\<close>: the iterations while \<open>is_running\<close>, one per set of answers.\<close>

fun work_loop :: "'r hamlib \<Rightarrow> os_answers list \<Rightarrow> 'r rigctld_server \<Rightarrow> 'r rigctld_server result" where
  "work_loop h [] s = Inr s"
| "work_loop h (io # ios) s =
     (if is_running s then bind_result (work_iteration h io s) (work_loop h ios) else Inr s)"

definition work :: "'r hamlib \<Rightarrow> os_answers list \<Rightarrow> 'r rigctld_server \<Rightarrow> 'r rigctld_server result" where
  "work h ios s = work_loop h ios ((update_poll_descriptors s)\<lparr>is_running := True\<rparr>)"

definition rigctld_server_new :: "string \<Rightarrow> int \<Rightarrow> u16 \<Rightarrow> int \<Rightarrow> int \<Rightarrow> 'r rigctld_server" where
  "rigctld_server_new dev model port speed listener =
     \<lparr>rig = None, rig_model = model, device = dev, listen_port = port, serial_speed = speed,
      server_fd = listener, clients = [], rig_disconnected = True, is_running = False, pfds = [],
      pfd_nr = 0, written = [], closed = []\<rparr>"

text \<open>\<open>start_listener\<close>: the results of \<open>socket\<close>, \<open>bind\<close> and \<open>listen\<close>.\<close>

definition start_listener :: "int \<Rightarrow> int \<Rightarrow> int \<Rightarrow> 'r rigctld_server \<Rightarrow> 'r rigctld_server result" where
  "start_listener sock bound listening s =
     (if sock < 0 then Inl (Runtime_error ''failed to create rigctld socket'')
      else if bound < 0 then Inl (Runtime_error ''failed to bind rigctld listener'')
      else if listening \<noteq> 0 then Inl (Runtime_error ''rigctld listen() failed'')
      else Inr (s\<lparr>server_fd := sock\<rparr>))"

definition stop :: "'r rigctld_server \<Rightarrow> 'r rigctld_server" where
  "stop s = s\<lparr>is_running := False\<rparr>"

text \<open>The destructor frees the poll array only: the listening socket, the sockets of the clients and the rig
  stay open.\<close>

definition rigctld_destroy :: "'r rigctld_server \<Rightarrow> 'r rigctld_server" where
  "rigctld_destroy s = s\<lparr>pfds := []\<rparr>"

end
