(* ===== verification/Rig_Poll.thy ===== *)
theory Rig_Poll
  imports Rig_Server
begin

text \<open>
  The poll loop of the rig control server: between iterations the descriptor array is exactly the
  listener followed by the clients in the order of their descriptors, with the write interest of
  every client that has something to send, and a server that counts as connected has a rig.
\<close>

section \<open>Invariant\<close>

definition clients_ok :: "(int \<times> rigctld_client) list \<Rightarrow> bool" where
  "clients_ok cs \<longleftrightarrow> sorted (map fst cs) \<and> distinct (map fst cs) \<and> list_all (\<lambda>(k, c). fd c = k) cs"

definition rig_ok :: "'r rigctld_server \<Rightarrow> bool" where
  "rig_ok s \<longleftrightarrow> (rig_disconnected s \<or> rig s \<noteq> None)"

definition server_ok :: "'r rigctld_server \<Rightarrow> bool" where
  "server_ok s \<longleftrightarrow> clients_ok (clients s) \<and> rig_ok s
     \<and> pfds s = (server_fd s, {POLLIN}) # map (\<lambda>(k, c). (k, client_events c)) (clients s)
     \<and> pfd_nr s = length (clients s) + 1"

text \<open>While the events of one \<open>poll\<close> are handled, \<open>acc\<close> being the server, the accepted descriptor and
  the descriptors to remove: the array is not touched; the clients are those of the array, and one
  more only when it has a positive descriptor.\<close>

definition events_ok :: "(int \<times> poll_flag set) list \<Rightarrow> 'r rigctld_server \<times> int \<times> int list \<Rightarrow> bool" where
  "events_ok ps = (\<lambda>(s, a, rm).
     clients_ok (clients s) \<and> rig_ok s \<and> pfds s = ps \<and> ps \<noteq> [] \<and> hd ps = (server_fd s, {POLLIN})
     \<and> set (map fst (tl ps)) \<subseteq> set (map fst (clients s))
     \<and> list_all (\<lambda>(f, e). POLLIN \<in> e \<and> e \<subseteq> {POLLIN, POLLOUT}) (tl ps)
     \<and> pfd_nr s = length ps
     \<and> (0 < a \<or> map fst (clients s) = map fst (tl ps)))"

lemma map_insert_present [simp]: "k \<in> fst ` set cs \<Longrightarrow> map_insert k c cs = cs"
  by (simp add: map_insert_def)

lemma map_insert_keys: "set (map fst (map_insert k c cs)) = insert k (set (map fst cs))"
  by (auto simp: map_insert_def set_insort_key)

lemma map_fst_insort_key: "map fst (insort_key fst x cs) = insort (fst x) (map fst cs)"
  by (induction cs) auto

lemma clients_ok_insert:
  "clients_ok cs \<Longrightarrow> fd c = k \<Longrightarrow> clients_ok (map_insert k c cs)"
  by (auto simp: clients_ok_def map_insert_def map_fst_insort_key distinct_insort sorted_insort list_all_iff
      set_insort_key)

lemma clients_ok_empty [simp]: "clients_ok []"
  by (simp add: clients_ok_def)

section \<open>Operations on one client\<close>

text \<open>An operation on an existing client leaves the keys and everything but the buffers and the
  record of what was written.\<close>

definition buffers_only :: "'r rigctld_server \<Rightarrow> 'r rigctld_server \<Rightarrow> bool" where
  "buffers_only s s' \<longleftrightarrow>
     (clients_ok (clients s) \<longrightarrow> clients_ok (clients s')) \<and> map fst (clients s') = map fst (clients s)
     \<and> (rig s \<noteq> None \<longrightarrow> rig s' \<noteq> None) \<and> (rig_disconnected s \<longrightarrow> rig_disconnected s')
     \<and> pfds s' = pfds s \<and> pfd_nr s' = pfd_nr s \<and> server_fd s' = server_fd s"

lemma buffers_only_refl [simp]: "buffers_only s s"
  by (simp add: buffers_only_def)

lemma buffers_only_trans: "buffers_only a b \<Longrightarrow> buffers_only b c \<Longrightarrow> buffers_only a c"
  by (simp add: buffers_only_def)

lemma buffers_only_keys: "buffers_only s s' \<Longrightarrow> fst ` set (clients s') = fst ` set (clients s)"
  by (metis buffers_only_def set_map)

lemma modify_client_buffers:
  assumes "k \<in> fst ` set (clients s)" "\<And>c. fd (f c) = fd c"
  shows "buffers_only s (modify_client k f s)"
proof -
  define cs where "cs = map (\<lambda>(j, c). (j, if j = k then f c else c)) (clients s)"
  have keys: "map fst cs = map fst (clients s)" by (simp add: cs_def case_prod_beta)
  have fds: "list_all (\<lambda>(k, c). fd c = k) cs" if "list_all (\<lambda>(k, c). fd c = k) (clients s)"
    using that assms(2) by (auto simp: cs_def list_all_iff)
  have m: "modify_client k f s = s\<lparr>clients := cs\<rparr>"
    using assms(1) by (simp add: modify_client_def cs_def)
  have "clients_ok cs" if "clients_ok (clients s)"
    using that keys fds by (simp add: clients_ok_def)
  then show ?thesis unfolding m buffers_only_def using keys by simp
qed

lemma send_response_buffers: "k \<in> fst ` set (clients s) \<Longrightarrow> buffers_only s (send_response_to_client r k s)"
  by (simp add: send_response_to_client_def modify_client_buffers)

lemma set_read_buffer_buffers: "k \<in> fst ` set (clients s) \<Longrightarrow> buffers_only s (set_read_buffer k b s)"
  by (simp add: set_read_buffer_def modify_client_buffers)

lemma fold_send_buffers:
  "k \<in> fst ` set (clients s) \<Longrightarrow> buffers_only s (fold (\<lambda>l. send_response_to_client l k) out s)"
proof (induction out arbitrary: s)
  case (Cons l out)
  have b: "buffers_only s (send_response_to_client l k s)" using Cons.prems by (rule send_response_buffers)
  then show ?case
    using Cons.IH [of "send_response_to_client l k s"] Cons.prems buffers_only_keys [OF b]
    by (auto intro: buffers_only_trans)
qed simp

lemma buffers_only_written [simp]: "buffers_only s (s'\<lparr>written := w\<rparr>) = buffers_only s s'"
  by (simp add: buffers_only_def)

lemma write_from_client_buffers:
  assumes "k \<in> fst ` set (clients s)"
  shows "buffers_only s (snd (write_from_client io k s))"
proof -
  have "buffers_only s (modify_client k (\<lambda>c. c\<lparr>write_buffer := drop n (write_buffer c)\<rparr>) s)" for n
    using assms by (rule modify_client_buffers) simp
  moreover have "buffers_only s (modify_client k id s)" using assms by (rule modify_client_buffers) simp
  ultimately show ?thesis by (simp add: write_from_client_def Let_def)
qed

text \<open>The rig is lost when it reports a failed read and its device node is gone; the callbacks of a command do
  nothing but note that.\<close>

definition lost_rig :: "'r hamlib \<Rightarrow> os_answers \<Rightarrow> 'r \<Rightarrow> 'r \<Rightarrow> bool" where
  "lost_rig h io r r' \<longleftrightarrow> \<not> device_present io
     \<and> (\<exists>m \<in> set (drop (length (reported h r)) (reported h r')). string_contains m ''read failed'')"

lemma callbacks_eq: "callbacks h io r r' s = s\<lparr>rig_disconnected := rig_disconnected s \<or> lost_rig h io r r'\<rparr>"
proof -
  have "fold (\<lambda>m. debug_callback m (device_present io)) ms s
      = s\<lparr>rig_disconnected := rig_disconnected s \<or> \<not> device_present io \<and> (\<exists>m \<in> set ms. string_contains m ''read failed'')\<rparr>" for ms
    by (induction ms arbitrary: s) (auto simp: debug_callback_def on_rig_disconnect_def)
  then show ?thesis by (simp add: callbacks_def lost_rig_def)
qed

lemma run_command_buffers:
  assumes "run_command h io cmd k s = Inr (ok, s')" "k \<in> fst ` set (clients s)"
  shows "buffers_only s s'"
proof -
  obtain r r' out where rig: "rig s = Some r" and i: "interpret_command h (rig_model s) cmd r = Inr (ok, out, r')"
    and s': "s' = (let s1 = fold (\<lambda>l. send_response_to_client l k) out (callbacks h io r r' (s\<lparr>rig := Some r'\<rparr>))
             in if ok then s1 else snd (write_from_client io k s1))"
    using assms(1) by (auto simp: run_command_def Let_def bind_result_Inr_iff split: option.splits)
  define s0 where "s0 = callbacks h io r r' (s\<lparr>rig := Some r'\<rparr>)"
  define s1 where "s1 = fold (\<lambda>l. send_response_to_client l k) out s0"
  have "buffers_only s s0" using rig by (simp add: buffers_only_def s0_def callbacks_eq)
  moreover have "buffers_only s0 s1"
    unfolding s1_def using assms(2) by (intro fold_send_buffers) (simp add: s0_def callbacks_eq)
  ultimately have b: "buffers_only s s1" by (rule buffers_only_trans)
  then have "buffers_only s1 (snd (write_from_client io k s1))"
    using buffers_only_keys [OF b] assms(2) by (intro write_from_client_buffers) simp
  then show ?thesis using s' b by (auto simp: s0_def [symmetric] s1_def [symmetric] Let_def intro: buffers_only_trans)
qed

text \<open>One step of the loop on a buffer with a complete line, and the invariance rule of the loop.\<close>

lemma read_loop_line:
  assumes "CHR 0x0A \<notin> set cmd"
  shows "read_loop h io k (cmd @ CHR 0x0A # rest) s =
    (case run_command h io cmd k s of
       Inr (True, s') \<Rightarrow> read_loop h io k rest (set_read_buffer k rest s')
     | Inr (False, s') \<Rightarrow> Inr (False, s')
     | Inl e \<Rightarrow> if e = Undefined_behaviour then Inl e
               else read_loop h io k rest (set_read_buffer k rest (send_response_to_client ''RPRT -1'' k s)))"
proof -
  have "takeWhile (\<lambda>c. c \<noteq> CHR 0x0A) (cmd @ CHR 0x0A # rest) = cmd"
    using assms by (subst takeWhile_append2) auto
  then show ?thesis by (subst read_loop.simps) (simp add: Let_def)
qed

lemma read_loop_no_line:
  assumes "CHR 0x0A \<notin> set buf"
  shows "read_loop h io k buf s = Inr (True, s)"
proof -
  have line: "takeWhile (\<lambda>c. c \<noteq> CHR 0x0A) buf = buf"
    using assms by (simp add: takeWhile_eq_all_conv) metis
  show ?thesis by (subst read_loop.simps) (simp add: Let_def line)
qed

lemma read_loop_invariant:
  assumes "read_loop h io k buf s = Inr (ok, s')" "P s"
    and "\<And>cmd t b t'. P t \<Longrightarrow> run_command h io cmd k t = Inr (b, t') \<Longrightarrow> P t'"
    and "\<And>t. P t \<Longrightarrow> P (send_response_to_client ''RPRT -1'' k t)"
    and "\<And>b t. P t \<Longrightarrow> P (set_read_buffer k b t)"
  shows "P s'"
  using assms(1,2)
proof (induction buf arbitrary: s rule: length_induct)
  case (1 buf)
  show ?case
  proof (cases "CHR 0x0A \<in> set buf")
    case False
    then show ?thesis using 1(2,3) by (simp add: read_loop_no_line)
  next
    case True
    then obtain cmd rest where b: "buf = cmd @ CHR 0x0A # rest" "CHR 0x0A \<notin> set cmd"
      by (meson split_list_first)
    have IH: "P s'" if "read_loop h io k rest (set_read_buffer k rest t) = Inr (ok, s')" "P t" for t
      using 1(1) [rule_format, OF _ that(1)] assms(5) [OF that(2)] b(1) by simp
    show ?thesis
      using 1(2,3) assms(3,4) IH
      by (auto simp: b read_loop_line split: sum.splits prod.splits bool.splits if_splits)
  qed
qed

lemma read_loop_buffers:
  assumes "read_loop h io k buf s = Inr (ok, s')" "k \<in> fst ` set (clients s)"
  shows "buffers_only s s'"
proof -
  have k: "k \<in> fst ` set (clients t)" if "buffers_only s t" for t using that assms(2) buffers_only_keys by blast
  show ?thesis
  proof (rule read_loop_invariant [OF assms(1), where P = "buffers_only s"])
    show "buffers_only s t'" if "buffers_only s t" "run_command h io cmd k t = Inr (b, t')" for cmd t b t'
      using run_command_buffers [OF that(2) k [OF that(1)]] that(1) by (rule buffers_only_trans [rotated])
    show "buffers_only s (send_response_to_client ''RPRT -1'' k t)" if "buffers_only s t" for t
      using send_response_buffers [OF k [OF that]] that by (rule buffers_only_trans [rotated])
    show "buffers_only s (set_read_buffer k b t)" if "buffers_only s t" for b t
      using set_read_buffer_buffers [OF k [OF that]] that by (rule buffers_only_trans [rotated])
  qed simp
qed

lemma read_from_client_buffers:
  assumes "read_from_client h io k s = Inr (ok, s')" "k \<in> fst ` set (clients s)"
  shows "buffers_only s s'"
proof -
  have b: "buffers_only s (set_read_buffer k buf s)" for buf using assms(2) by (rule set_read_buffer_buffers)
  have "buffers_only s s'" if "read_loop h io k buf (set_read_buffer k buf s) = Inr (ok, s')" for buf
    using read_loop_buffers [OF that] buffers_only_keys [OF b, of buf] assms(2) b [of buf]
    by (auto intro: buffers_only_trans)
  then show ?thesis
    using assms(1) b by (auto simp: read_from_client_def take_bytes_def Let_def split: recv_result.splits if_splits)
qed

section \<open>Events\<close>

lemma buffers_only_events_ok:
  assumes "buffers_only s s'" "events_ok ps (s, a, rm)"
  shows "events_ok ps (s', a, rm')"
  using assms by (auto simp: events_ok_def buffers_only_def rig_ok_def simp flip: set_map)

text \<open>What the operating system promises: \<open>poll\<close> reports nothing that was not asked for, errors apart, and \<open>accept\<close> does not return
  a descriptor that the process has open already. \<open>fds\<close> are the descriptors open before the pass.\<close>

definition os_contract :: "int set \<Rightarrow> os_answers \<Rightarrow> (int \<times> poll_flag set) list \<Rightarrow> bool" where
  "os_contract fds io ps \<longleftrightarrow> accepted io \<notin> fds
     \<and> (\<forall>i < length ps. revents io i \<subseteq> snd (ps ! i) \<union> {POLLERR, POLLHUP, POLLNVAL})"

lemma listener_event:
  assumes "handle_event h io 0 (s, -1, []) = Inr acc" "events_ok ps (s, -1, [])" "os_contract fds io ps" "0 \<in> fds"
  shows "events_ok ps acc"
proof -
  have ps: "ps \<noteq> []" "hd ps = (server_fd s, {POLLIN})" using assms(2) by (auto simp: events_ok_def)
  then have "ps ! 0 = (server_fd s, {POLLIN})" by (simp add: hd_conv_nth)
  then have no_out: "POLLOUT \<notin> revents io 0" using assms(3) ps(1) by (fastforce simp: os_contract_def)
  have acc: "events_ok ps (s, a, rm)" if "events_ok ps (s, -1, [])" for a rm
    using that by (auto simp: events_ok_def)
  have ins: "events_ok ps (s\<lparr>clients := map_insert f (client_zero\<lparr>fd := f\<rparr>) (clients s)\<rparr>, f, rm)" if "0 < f" for f rm
    using assms(2) that map_insert_keys [of f _ "clients s"]
    by (auto simp: events_ok_def rig_ok_def clients_ok_insert)
  have "accepted io \<noteq> 0" using assms(3,4) by (auto simp: os_contract_def)
  then show ?thesis
    using assms(1) no_out acc [OF assms(2)] ins
    by (auto simp: handle_event_def handle_pollin_def handle_pollout_def accept_client_def Let_def
        split: if_splits)
qed

lemma client_event:
  assumes "handle_event h io i acc = Inr acc'" "events_ok ps acc" "0 < i" "i < length ps"
  shows "events_ok ps acc'"
proof -
  obtain s a rm where acc: "acc = (s, a, rm)" by (cases acc) auto
  define k where "k = fst (ps ! i)"
  have p: "pfds s = ps" using assms(2) acc by (simp add: events_ok_def)
  have "k \<in> set (map fst (tl ps))"
    using assms(3,4) nth_mem [of "i - 1" "tl ps"] by (simp add: k_def nth_tl)
  then have k: "k \<in> fst ` set (clients s)" using assms(2) acc by (auto simp: events_ok_def)
  have keep: "events_ok ps (s, a, rm1)" for rm1 using assms(2) acc by (simp add: events_ok_def)
  have out: "events_ok ps (handle_pollout io i (s1, a, rm1))"
    if b: "buffers_only s s1" for s1 rm1
  proof -
    have e1: "events_ok ps (s1, a, rm1)" for rm1 using buffers_only_events_ok [OF b keep] .
    have p1: "fst (pfds s1 ! i) = k" using e1 by (simp add: events_ok_def k_def)
    have "k \<in> fst ` set (clients s1)" using k buffers_only_keys [OF b] by simp
    then have "events_ok ps (snd (write_from_client io k s1), a, rm2)" for rm2
      using buffers_only_events_ok [OF write_from_client_buffers e1] by blast
    then show ?thesis using e1 p1 by (simp add: handle_pollout_def split: prod.split) (metis snd_conv)
  qed
  show ?thesis
  proof (cases "poll_declares_error (revents io i)")
    case True
    then show ?thesis using assms(1) acc keep by (auto simp: handle_event_def)
  next
    case False
    then obtain acc1 where a1: "handle_pollin h io i (s, a, rm) = Inr acc1" "acc' = handle_pollout io i acc1"
      using assms(1) acc by (auto simp: handle_event_def bind_result_Inr_iff)
    obtain s1 rm1 where "acc1 = (s1, a, rm1)" "buffers_only s s1"
    proof (cases "POLLIN \<in> revents io i")
      case True
      then obtain ok s1 where "read_from_client h io k s = Inr (ok, s1)"
          "acc1 = (s1, a, if ok then rm else rm @ [k])"
        using a1(1) assms(3) p by (auto simp: handle_pollin_def bind_result_Inr_iff k_def)
      then show ?thesis using that read_from_client_buffers [OF _ k] by blast
    next
      case False
      then show ?thesis using a1(1) that [of s rm] by (simp add: handle_pollin_def)
    qed
    then show ?thesis using out a1(2) by simp
  qed
qed

lemma client_events_ok:
  "handle_events h io is acc = Inr acc' \<Longrightarrow> events_ok ps acc \<Longrightarrow> \<forall>i \<in> set is. 0 < i \<and> i < length ps
   \<Longrightarrow> events_ok ps acc'"
  by (induction "is" arbitrary: acc) (auto simp: bind_result_Inr_iff dest: client_event)

lemma client_events_flags: "POLLIN \<in> client_events c \<and> client_events c \<subseteq> {POLLIN, POLLOUT}"
  by (simp add: client_events_def)

lemma handle_events_ok:
  assumes "handle_events h io [0..<pfd_nr s] (s, -1, []) = Inr acc" "server_ok s" "os_contract fds io (pfds s)" "0 \<in> fds"
  shows "events_ok (pfds s) acc"
proof -
  have start: "events_ok (pfds s) (s, -1, [])"
    using assms(2) client_events_flags by (auto simp: server_ok_def events_ok_def list_all_iff case_prod_beta)
  have n: "0 < pfd_nr s" "pfd_nr s = length (pfds s)" using assms(2) by (simp_all add: server_ok_def)
  then have "[0..<pfd_nr s] = 0 # [1..<pfd_nr s]" by (simp add: upt_conv_Cons)
  then obtain acc1 where e: "handle_event h io 0 (s, -1, []) = Inr acc1"
    and r: "handle_events h io [1..<pfd_nr s] acc1 = Inr acc"
    using assms(1) by (auto simp: bind_result_Inr_iff)
  show ?thesis
    using client_events_ok [OF r listener_event [OF e start assms(3,4)]] n(2) by simp
qed

section \<open>After the events\<close>

lemma set_flags_all:
  "length es = length cs \<Longrightarrow> map fst es = map fst cs
   \<Longrightarrow> list_all (\<lambda>(f, e). POLLIN \<in> e \<and> e \<subseteq> {POLLIN, POLLOUT}) es
   \<Longrightarrow> set_flags (length pre) cs (pre @ es) = Inr (pre @ map (\<lambda>(k, c). (k, client_events c)) cs)"
proof (induction cs arbitrary: es pre)
  case (Cons p cs)
  obtain k c where p: "p = (k, c)" by force
  obtain e es' where es: "es = (k, e) # es'" "length es' = length cs" "map fst es' = map fst cs"
    using Cons.prems(1,2) p by (cases es) auto
  have e: "(if write_buffer c = [] then e - {POLLOUT} else insert POLLOUT e) = client_events c"
    using Cons.prems(3) es(1) by (auto simp: client_events_def)
  have "set_flags (length (pre @ [(k, client_events c)])) cs ((pre @ [(k, client_events c)]) @ es')
      = Inr ((pre @ [(k, client_events c)]) @ map (\<lambda>(k, c). (k, client_events c)) cs)"
    using Cons.prems(3) es by (intro Cons.IH) simp_all
  then show ?case using p es(1) e by (simp add: list_update_append nth_append)
qed simp

lemma remove_client_ok:
  "clients_ok (clients s) \<Longrightarrow> clients_ok (clients (remove_client k s))
     \<and> rig (remove_client k s) = rig s \<and> rig_disconnected (remove_client k s) = rig_disconnected s"
proof -
  assume ok: "clients_ok (clients s)"
  have "map fst (filter (\<lambda>(j, c). j \<noteq> k) cs) = filter (\<lambda>j. j \<noteq> k) (map fst cs)" for cs :: "(int \<times> rigctld_client) list"
    by (induction cs) auto
  then show ?thesis
    using ok sorted_filter [of "\<lambda>j. j" "map fst (clients s)"]
    by (auto simp: remove_client_def close_client_def clients_ok_def list_all_iff split: option.splits)
qed

lemma fold_remove_ok:
  "clients_ok (clients s) \<Longrightarrow> clients_ok (clients (fold remove_client rm s))
     \<and> rig (fold remove_client rm s) = rig s \<and> rig_disconnected (fold remove_client rm s) = rig_disconnected s"
  by (induction rm arbitrary: s) (auto simp: remove_client_ok)

lemma update_descriptors_ok:
  assumes "clients_ok (clients s)" "rig_ok s"
  shows "server_ok (update_poll_descriptors s)"
proof -
  have "map (\<lambda>(k, c). (fd c, client_events c)) (clients s) = map (\<lambda>(k, c). (k, client_events c)) (clients s)"
    using assms(1) by (auto simp: clients_ok_def list_all_iff)
  then show ?thesis using assms by (simp add: server_ok_def update_poll_descriptors_def rig_ok_def)
qed

lemma update_flags_ok:
  assumes "clients_ok (clients s)" "rig_ok s" "pfds s = (server_fd s, {POLLIN}) # es" "pfd_nr s = length (pfds s)"
    and "map fst es = map fst (clients s)" "list_all (\<lambda>(f, e). POLLIN \<in> e \<and> e \<subseteq> {POLLIN, POLLOUT}) es"
  shows "\<exists>s'. update_poll_flags s = Inr s' \<and> server_ok s'"
proof -
  have l: "length es = length (clients s)" using map_eq_imp_length_eq [OF assms(5)] .
  have "set_flags (length [(server_fd s, {POLLIN})]) (clients s) ([(server_fd s, {POLLIN})] @ es)
      = Inr ([(server_fd s, {POLLIN})] @ map (\<lambda>(k, c). (k, client_events c)) (clients s))"
    using l assms(5,6) by (rule set_flags_all)
  then show ?thesis
    using assms(1-4) l by (simp add: update_poll_flags_def server_ok_def rig_ok_def)
qed

lemma finish_events_ok:
  assumes "events_ok ps acc"
  shows "\<exists>s'. finish_events acc = Inr s' \<and> server_ok s'"
proof -
  obtain s a rm where acc: "acc = (s, a, rm)" by (cases acc) auto
  define s1 where "s1 = fold remove_client rm s"
  have ok: "clients_ok (clients s1)" "rig_ok s1"
    using assms acc fold_remove_ok [of s rm] by (auto simp: events_ok_def s1_def rig_ok_def)
  show ?thesis
  proof (cases "0 < a \<or> rm \<noteq> []")
    case True
    define s2 where "s2 = update_poll_descriptors s1"
    have "server_ok s2" unfolding s2_def using ok by (rule update_descriptors_ok)
    then have "\<exists>s'. update_poll_flags s2 = Inr s' \<and> server_ok s'"
      by (intro update_flags_ok [where es = "map (\<lambda>(k, c). (k, client_events c)) (clients s2)"])
        (use client_events_flags in \<open>auto simp: server_ok_def list_all_iff case_prod_beta\<close>)
    then show ?thesis using True acc by (simp add: finish_events_def Let_def s1_def s2_def)
  next
    case False
    then have "\<exists>s'. update_poll_flags s = Inr s' \<and> server_ok s'"
      using assms acc
      by (intro update_flags_ok [where es = "tl ps"]) (auto simp: events_ok_def rig_ok_def neq_Nil_conv)
    then show ?thesis using False acc by (simp add: finish_events_def Let_def)
  qed
qed

section \<open>Iterations\<close>

lemma drop_rig_ok:
  assumes "server_ok s" "rig_disconnected s"
  shows "server_ok (drop_rig s) \<and> rig_disconnected (drop_rig s)"
proof -
  have "rig_disconnected (fold (close_client \<circ> snd) cs s) = rig_disconnected s" for cs :: "(int \<times> rigctld_client) list"
    by (induction cs arbitrary: s) (auto simp: close_client_def)
  then show ?thesis
    using assms by (simp add: drop_rig_def update_poll_descriptors_def server_ok_def rig_ok_def)
qed

lemma open_rig_cases:
  assumes "open_rig h s = Inr (ok, s')"
  shows "\<exists>r. s' = s\<lparr>rig := r\<rparr> \<and> (ok \<longrightarrow> r \<noteq> None)"
  using assms
  by (auto simp: open_rig_def bind_result_Inr_iff case_prod_beta split: option.splits if_splits)

lemma reconnect_ok:
  assumes "reconnect h s = Inr s'" "server_ok s"
  shows "server_ok s'"
proof (cases "rig_disconnected s")
  case True
  obtain ok s1 where o: "open_rig h (drop_rig s) = Inr (ok, s1)"
    and s': "s' = (if ok then s1\<lparr>rig_disconnected := False\<rparr> else s1)"
    using assms(1) True by (auto simp: reconnect_def bind_result_Inr_iff)
  show ?thesis
    using open_rig_cases [OF o] drop_rig_ok [OF assms(2) True] s'
    by (auto simp: server_ok_def rig_ok_def)
next
  case False
  then show ?thesis using assms by (simp add: reconnect_def)
qed

text \<open>
  (C25) The poll loop keeps its descriptor array in step with its clients, in a process whose descriptor 0 is open: after every pass,
  with events or without, the array is the listener followed by the clients in order, with write interest exactly for those
  with unsent bytes, its length is the number of clients plus one, and a server that is not disconnected has a rig. In particular
  updating the flags never writes outside the array: a pass that fails does so when the rig is opened or a client is
  handled.
\<close>

theorem poll_array_in_step:
  assumes "server_ok s" "0 \<in> fds" "\<forall>s1. reconnect h s = Inr s1 \<longrightarrow> os_contract fds io (pfds s1)"
  shows "case work_iteration h io s of
      Inr s' \<Rightarrow> server_ok s'
    | Inl e \<Rightarrow> reconnect h s = Inl e
        \<or> (\<exists>s1. reconnect h s = Inr s1 \<and> handle_events h io [0..<pfd_nr s1] (s1, -1, []) = Inl e)"
proof (cases "reconnect h s")
  case (Inl e)
  then show ?thesis by (simp add: work_iteration_def)
next
  case (Inr s1)
  then have ok: "server_ok s1" using reconnect_ok assms(1) by blast
  show ?thesis
  proof (cases "handle_events h io [0..<pfd_nr s1] (s1, -1, [])")
    case (Inl e)
    then show ?thesis using Inr ok by (simp add: work_iteration_def)
  next
    case (Inr acc)
    then have "events_ok (pfds s1) acc" using handle_events_ok [OF _ ok] assms(2,3) \<open>reconnect h s = Inr s1\<close> by blast
    then obtain s' where "finish_events acc = Inr s'" "server_ok s'" using finish_events_ok by blast
    then show ?thesis using Inr \<open>reconnect h s = Inr s1\<close> ok by (simp add: work_iteration_def)
  qed
qed

text \<open>
  When \<open>accept\<close> returns descriptor 0, as it does in a process whose standard input is closed (\<open>daemonize\<close> closes it),
  the server registers the client but, testing \<open>fd_to_add > 0\<close>, does not extend the array: the flag
  update of the same iteration writes past its end.
\<close>

theorem descriptor_zero_overruns_array:
  assumes "server_ok s" "0 \<notin> fst ` set (clients s)" "accepted io = 0"
  shows "finish_events (snd (accept_client io s), fst (accept_client io s), []) = Inl Undefined_behaviour"
proof -
  have over: "set_flags i cs ps = Inl Undefined_behaviour" if "length ps < i + length cs" "i \<le> length ps" for i cs ps
    using that by (induction i cs ps rule: set_flags.induct) (auto split: prod.split)
  have "length (map_insert 0 client_zero (clients s)) = length (clients s) + 1"
    using assms(2) by (simp add: map_insert_def)
  moreover have "client_zero\<lparr>fd := 0\<rparr> = client_zero" by (simp add: client_zero_def)
  ultimately show ?thesis
    using assms(1,3) over [of "pfds s" 1 "map_insert 0 client_zero (clients s)"]
    by (simp add: finish_events_def accept_client_def Let_def update_poll_flags_def server_ok_def)
qed

end
