(* ===== verification/Rig_Properties.thy ===== *)
theory Rig_Properties
  imports Rig_Poll
begin

text \<open>
  Properties of the rig control server, with a concrete Hamlib to instantiate them: containment of
  malformed commands, independence of how a byte stream without zero bytes is cut into packets, delivery of the
  replies, and the names of modes.
\<close>

section \<open>A concrete rig\<close>

text \<open>A rig that remembers its frequency and answers the other getters with constants.\<close>

definition demo_hamlib :: "flt hamlib" where
  "demo_hamlib =
     \<lparr>VFO_A = 1, VFO_B = 2, VFO_C = 4, VFO_CURR = 8, VFO_NONE = 0, MODE_USB = 4, MODE_LSB = 8,
      MODE_CW = 2, MODE_RTTY = 16, MODE_RTTYR = 256, MODE_AM = 1, MODE_FM = 32, MODE_PKTLSB = 1024,
      MODE_PKTUSB = 2048, MODE_PKTFM = 4096, MODE_ALL = 65535, SPLIT_OFF = 0, SPLIT_ON = 1,
      LEVEL_AGC = 3, AGC_OFF = 0, AGC_FAST = 2, MODEL_IC7300 = 3073, FRQRANGESIZ = 30, TSLSTSIZ = 20,
      FLTLSTSIZ = 60, MAXDBLSTSIZ = 8, frng_end = (\<lambda>r. startf r = Fin 0 \<and> endf r = Fin 0),
      ts_end = (\<lambda>p. p = (0, 0)), flt_end = (\<lambda>p. p = (0, 0)),
      info = (\<lambda>_. \<lparr>caps_rig_model = 3073, rx_range_list = [], tx_range_list = [], tuning_steps = [],
        filters = [], max_rit = 0, max_xit = 0, max_ifshift = 0, announces = 0, preamp = [],
        attenuator = [], has_get_func = 0, has_set_func = 0, has_get_level = 0, has_set_level = 0,
        has_get_parm = 0, has_set_parm = 0\<rparr>), reported = (\<lambda>_. []),
      rig_init = (\<lambda>_. Some (Fin 7000000)), set_pathname = (\<lambda>_ r. r), rig_set_conf = (\<lambda>_ _ r. (0, r)),
      rig_open = (\<lambda>r. (0, r)), get_powerstat = (\<lambda>r. (Some 1, r)), set_powerstat = (\<lambda>_ r. r),
      get_lock_mode = (\<lambda>r. (Some 0, r)), get_freq = (\<lambda>r. (Some r, r)), set_freq = (\<lambda>f _. f),
      get_split_vfo = (\<lambda>r. (0, Some 0, Some 1, r)), set_split_vfo = (\<lambda>_ _ r. r),
      get_ptt = (\<lambda>r. (Some 0, r)), set_ptt = (\<lambda>_ r. r), set_vfo = (\<lambda>_ r. r),
      get_mode = (\<lambda>r. (Some 2, Some 500, r)), set_mode = (\<lambda>_ _ r. r), parse_level = (\<lambda>_. 0),
      level_is_float = (\<lambda>_. False), get_level = (\<lambda>_ r. (0, Fin 0, 0, r)), set_level = (\<lambda>_ _ r. (0, r)),
      get_rit = (\<lambda>r. (Some 0, r))\<rparr>"

text \<open>A connected server with one client, and answers that bring it one packet.\<close>

definition demo_server :: "flt rigctld_server" where
  "demo_server =
     update_poll_descriptors
       ((rigctld_server_new ''/dev/ttyACM0'' 3073 4532 0 3)
          \<lparr>rig := Some (Fin 7000000), rig_disconnected := False, is_running := True,
           clients := [(5, client_zero\<lparr>fd := 5\<rparr>)]\<rparr>)"

definition demo_os :: "string \<Rightarrow> os_answers" where
  "demo_os msg =
     \<lparr>num_events = 1, revents = (\<lambda>i. if i = 1 then {POLLIN} else {}), accepted = - 1,
      recvd = (\<lambda>_. Recv_bytes msg), wrote = (\<lambda>_ b. int (length b)), device_present = True\<rparr>"

lemma demo_server_ok: "server_ok demo_server"
  by (simp add: demo_server_def update_poll_descriptors_def server_ok_def clients_ok_def rig_ok_def)

lemma demo_contract: "os_contract {0, 1, 2, 3, 5} (demo_os msg) (pfds demo_server)"
  by (simp add: os_contract_def demo_os_def demo_server_def update_poll_descriptors_def client_events_def
      less_Suc_eq nth_Cons')

section \<open>Malformed commands\<close>

lemma read_loop_only_undefined:
  "read_loop h io k buf s = Inl e \<Longrightarrow> e = Undefined_behaviour"
proof (induction buf arbitrary: s rule: length_induct)
  case (1 buf)
  show ?case
  proof (cases "CHR 0x0A \<in> set buf")
    case False
    then show ?thesis using 1(2) by (simp add: read_loop_no_line)
  next
    case True
    then obtain cmd rest where b: "buf = cmd @ CHR 0x0A # rest" "CHR 0x0A \<notin> set cmd"
      by (meson split_list_first)
    have IH: "e = Undefined_behaviour" if "read_loop h io k rest t = Inl e" for t
      using 1(1) [rule_format, OF _ that] b(1) by simp
    show ?thesis
      using 1(2) IH by (auto simp: b read_loop_line split: sum.splits prod.splits bool.splits if_splits)
  qed
qed

lemma handle_event_only_undefined: "handle_event h io i acc = Inl e \<Longrightarrow> e = Undefined_behaviour"
  by (auto simp: handle_event_def handle_pollin_def read_from_client_def take_bytes_def Let_def bind_result_Inl_iff
      dest: read_loop_only_undefined split: if_splits recv_result.splits prod.splits)

lemma handle_events_only_undefined: "handle_events h io is acc = Inl e \<Longrightarrow> e = Undefined_behaviour"
  by (induction "is" arbitrary: acc) (auto simp: bind_result_Inl_iff dest: handle_event_only_undefined)

text \<open>
  The set-mode command reads its third word without checking that there is one: \<open>M USB\<close>, a
  command a client can send at any time, is undefined behaviour, outside the exceptions the
  server contains.
\<close>

theorem set_mode_without_width_undefined:
  "interpret_command h model ''M USB'' r = Inl Undefined_behaviour"
proof -
  have t: "trim ''M USB'' = ''M USB''" by code_simp
  have s: "starts_with ''M USB'' ''M ''" "\<not> starts_with ''M USB'' ''S ''" "\<not> starts_with ''M USB'' ''T ''"
    "\<not> starts_with ''M USB'' ''V ''" "\<not> starts_with ''M USB'' ([CHR 0x5C] @ ''set_powerstat '')"
    by code_simp+
  have p: "split_string ''M USB'' '' '' = Some [''M'', ''USB'']" by code_simp
  show ?thesis
    unfolding interpret_command_def Let_def t
    using s p by (simp add: cmd_set_mode_def pieces_of_def)
qed

section \<open>Names\<close>

text \<open>
  The ten modes the server knows survive the text protocol: the mode reported by \<open>m\<close>, sent back
  with \<open>M\<close>, is the same Hamlib constant, provided Hamlib's constants are distinct.
\<close>

theorem mode_name_roundtrip:
  assumes "distinct [MODE_USB h, MODE_LSB h, MODE_CW h, MODE_RTTY h, MODE_RTTYR h, MODE_AM h, MODE_FM h,
      MODE_PKTLSB h, MODE_PKTUSB h, MODE_PKTFM h]"
    and "mode_to_string h m \<noteq> ''UNKNOWN''"
  shows "mode_from_string h (mode_to_string h m) = m"
  using assms by (auto simp: mode_to_string_def mode_from_string_def split: if_splits)

theorem mode_name_roundtrip_witness:
  "mode_from_string demo_hamlib (mode_to_string demo_hamlib 2048) = 2048"
  by (rule mode_name_roundtrip) (simp_all add: demo_hamlib_def mode_to_string_def)

section \<open>The byte stream\<close>

lemma modify_client_comp: "modify_client k f (modify_client k g s) = modify_client k (f \<circ> g) s"
proof -
  have "k \<in> fst ` set (map_insert k client_zero (clients s))"
    using map_insert_keys [of k client_zero "clients s"] by simp
  then have "k \<in> fst ` set (map (\<lambda>(j, c). (j, if j = k then g c else c)) (map_insert k client_zero (clients s)))"
    by force
  then show ?thesis by (simp add: modify_client_def case_prod_beta comp_def)
qed

lemma modify_client_rig: "modify_client k f (s\<lparr>rig := r\<rparr>) = (modify_client k f s)\<lparr>rig := r\<rparr>"
  by (simp add: modify_client_def)

lemma modify_client_connection:
  "modify_client k f (s\<lparr>rig_disconnected := d\<rparr>) = (modify_client k f s)\<lparr>rig_disconnected := d\<rparr>"
  by (simp add: modify_client_def)

lemma modify_client_fields [simp]:
  "rig (modify_client k f s) = rig s" "rig_model (modify_client k f s) = rig_model s"
  "rig_disconnected (modify_client k f s) = rig_disconnected s"
  by (simp_all add: modify_client_def)

lemma set_read_buffer_twice: "set_read_buffer k b (set_read_buffer k b' s) = set_read_buffer k b s"
  by (simp add: set_read_buffer_def modify_client_comp comp_def)

lemma set_read_buffer_send:
  "send_response_to_client l k (set_read_buffer k b s) = set_read_buffer k b (send_response_to_client l k s)"
proof -
  have "(\<lambda>c :: rigctld_client. c\<lparr>read_buffer := b, write_buffer := write_buffer c @ l @ newline\<rparr>)
      = (\<lambda>c. c\<lparr>write_buffer := write_buffer c @ l @ newline, read_buffer := b\<rparr>)"
    by (rule ext) simp
  then show ?thesis
    by (simp add: set_read_buffer_def send_response_to_client_def modify_client_comp comp_def)
qed

lemma set_read_buffer_fold_send:
  "fold (\<lambda>l. send_response_to_client l k) out (set_read_buffer k b s)
   = set_read_buffer k b (fold (\<lambda>l. send_response_to_client l k) out s)"
  by (induction out arbitrary: s) (simp_all add: set_read_buffer_send)

lemma set_read_buffer_rig: "set_read_buffer k b (s\<lparr>rig := r\<rparr>) = (set_read_buffer k b s)\<lparr>rig := r\<rparr>"
  by (simp add: set_read_buffer_def modify_client_rig)

lemma set_read_buffer_callbacks:
  "set_read_buffer k b (callbacks h io r r' s) = callbacks h io r r' (set_read_buffer k b s)"
  by (simp add: callbacks_eq set_read_buffer_def modify_client_connection)

lemma map_of_modify:
  "map_of (map (\<lambda>(j, c). (j, if j = k then f c else c)) cs) k = map_option f (map_of cs k)"
  by (induction cs) auto

lemma read_buffer_set: "read_buffer (client_at k (set_read_buffer k b s)) = b"
proof -
  have "map_of (map_insert k client_zero (clients s)) k \<noteq> None"
    using map_insert_keys [of k client_zero "clients s"] by (simp add: map_of_eq_None_iff)
  then show ?thesis by (auto simp: client_at_def set_read_buffer_def modify_client_def map_of_modify)
qed

lemma set_read_buffer_fields [simp]:
  "rig (set_read_buffer k b s) = rig s" "rig_model (set_read_buffer k b s) = rig_model s"
  "rig_disconnected (set_read_buffer k b s) = rig_disconnected s"
  by (simp_all add: set_read_buffer_def)

text \<open>A command does not look at the read buffer.\<close>

lemma run_command_read_buffer:
  "run_command h io cmd k s = Inr (True, s') \<Longrightarrow> run_command h io cmd k (set_read_buffer k b s) = Inr (True, set_read_buffer k b s')"
  "run_command h io cmd k s = Inr (False, s') \<Longrightarrow> \<exists>s''. run_command h io cmd k (set_read_buffer k b s) = Inr (False, s'')"
  "run_command h io cmd k s = Inl e \<Longrightarrow> run_command h io cmd k (set_read_buffer k b s) = Inl e"
proof -
  have r: "run_command h io cmd k (set_read_buffer k b s) =
     (case rig s of
        None \<Rightarrow> Inl Undefined_behaviour
      | Some r \<Rightarrow>
          bind_result (interpret_command h (rig_model s) cmd r) (\<lambda>(stay, out, r').
            let s' = set_read_buffer k b (fold (\<lambda>l. send_response_to_client l k) out (callbacks h io r r' (s\<lparr>rig := Some r'\<rparr>)))
            in Inr (stay, if stay then s' else snd (write_from_client io k s'))))"
    by (simp add: run_command_def flip: set_read_buffer_fold_send set_read_buffer_rig set_read_buffer_callbacks cong: option.case_cong)
  show "run_command h io cmd k s = Inr (True, s') \<Longrightarrow> run_command h io cmd k (set_read_buffer k b s) = Inr (True, set_read_buffer k b s')"
    "run_command h io cmd k s = Inr (False, s') \<Longrightarrow> \<exists>s''. run_command h io cmd k (set_read_buffer k b s) = Inr (False, s'')"
    "run_command h io cmd k s = Inl e \<Longrightarrow> run_command h io cmd k (set_read_buffer k b s) = Inl e"
    unfolding r by (auto simp: run_command_def Let_def bind_result_def split: option.splits sum.splits prod.splits)
qed

lemma read_loop_append:
  "read_loop h io k a (set_read_buffer k a s) = Inr (True, s1)
   \<Longrightarrow> \<exists>r. read_buffer (client_at k s1) = r
     \<and> read_loop h io k (a @ b) (set_read_buffer k (a @ b) s) = read_loop h io k (r @ b) (set_read_buffer k (r @ b) s1)"
proof (induction a arbitrary: s rule: length_induct)
  case (1 a)
  note IH = 1(1) [rule_format] and prem = 1(2)
  show ?case
  proof (cases "CHR 0x0A \<in> set a")
    case False
    then have "s1 = set_read_buffer k a s" using prem by (simp add: read_loop_no_line)
    then show ?thesis by (simp add: read_buffer_set set_read_buffer_twice)
  next
    case True
    then obtain cmd rest where a: "a = cmd @ CHR 0x0A # rest" "CHR 0x0A \<notin> set cmd"
      by (meson split_list_first)
    note unf = read_loop_line [OF a(2), of h io k]
    have short: "length rest < length a" using a(1) by simp
    have go: ?thesis if "read_loop h io k rest (set_read_buffer k rest t) = Inr (True, s1)"
      and "read_loop h io k (a @ b) (set_read_buffer k (a @ b) s) = read_loop h io k (rest @ b) (set_read_buffer k (rest @ b) t)" for t
      using IH [OF short that(1)] that(2) by simp
    show ?thesis
    proof (cases "run_command h io cmd k s")
      case (Inl e)
      show ?thesis
        using prem run_command_read_buffer(3) [OF Inl]
        by (intro go [of "send_response_to_client ''RPRT -1'' k s"])
          (auto simp: a(1) unf set_read_buffer_send set_read_buffer_twice split: if_splits)
    next
      case (Inr p)
      obtain stay t where p: "p = (stay, t)" by force
      show ?thesis
      proof (cases stay)
        case True
        then show ?thesis
          using prem run_command_read_buffer(1) [of h io cmd k s t] Inr p
          by (intro go [of t]) (auto simp: a(1) unf set_read_buffer_twice)
      next
        case False
        then show ?thesis
          using prem run_command_read_buffer(2) [of h io cmd k s t a] Inr p by (auto simp: a(1) unf)
      qed
    qed
  qed
qed

text \<open>
  (C28) Commands are read from the byte stream, not from packets: if the bytes \<open>m1\<close> contain no zero byte and are handled,
  the client stays and the rig is not lost meanwhile, then receiving \<open>m1\<close> and \<open>m2\<close> in one piece has the same effect, on the rig and on
  every buffer, as receiving them one after the other, wherever the cut falls.
\<close>

theorem stream_not_packets:
  assumes "take_bytes h io k m1 s = Inr (True, s1)" "\<not> rig_disconnected s" "\<not> rig_disconnected s1" "CHR 0x00 \<notin> set m1"
  shows "take_bytes h io k (m1 @ m2) s = take_bytes h io k m2 s1"
proof -
  define a where "a = read_buffer (client_at k s) @ m1"
  define b where "b = takeWhile (\<lambda>c. c \<noteq> CHR 0x00) m2"
  have m1: "takeWhile (\<lambda>c. c \<noteq> CHR 0x00) m1 = m1" using assms(4) by (simp add: takeWhile_eq_all_conv) metis
  have m12: "takeWhile (\<lambda>c. c \<noteq> CHR 0x00) (m1 @ m2) = m1 @ b"
    unfolding b_def using assms(4) by (subst takeWhile_append2) auto
  have l: "read_loop h io k a (set_read_buffer k a s) = Inr (True, s1)"
    using assms(1,2) by (simp add: take_bytes_def Let_def m1 a_def)
  obtain r where "read_buffer (client_at k s1) = r"
    and "read_loop h io k (a @ b) (set_read_buffer k (a @ b) s) = read_loop h io k (r @ b) (set_read_buffer k (r @ b) s1)"
    using read_loop_append [OF l] by blast
  then show ?thesis
    using assms(2,3) unfolding take_bytes_def Let_def m12 b_def [symmetric] by (simp add: a_def)
qed

theorem stream_not_packets_witness:
  "take_bytes demo_hamlib (demo_os []) 5 (''v'' @ newline) demo_server
   = take_bytes demo_hamlib (demo_os []) 5 newline
       (set_read_buffer 5 ''v'' demo_server)"
proof -
  have b: "read_buffer (client_at 5 demo_server) = []"
    by (simp add: demo_server_def update_poll_descriptors_def client_at_def client_zero_def)
  have c: "\<not> rig_disconnected demo_server" by (simp add: demo_server_def update_poll_descriptors_def)
  have "take_bytes demo_hamlib (demo_os []) 5 ''v'' demo_server = Inr (True, set_read_buffer 5 ''v'' demo_server)"
    using b c by (simp add: take_bytes_def Let_def read_loop.simps)
  from stream_not_packets [OF this c, of newline] c show ?thesis by simp
qed

text \<open>The cut does matter after a zero byte: what one \<open>recv\<close> brings behind it is dropped, since the bytes are appended as a C string.\<close>

theorem zero_byte_drops_rest: "take_bytes h io k (m @ CHR 0x00 # lost) s = take_bytes h io k m s"
proof -
  have "takeWhile (\<lambda>c. c \<noteq> CHR 0x00) (m @ CHR 0x00 # lost) = takeWhile (\<lambda>c. c \<noteq> CHR 0x00) m" by (induction m) auto
  then show ?thesis by (simp add: take_bytes_def)
qed

section \<open>Replies\<close>

lemma write_buffer_send:
  assumes "k \<in> fst ` set (clients s)"
  shows "write_buffer (client_at k (send_response_to_client l k s)) = write_buffer (client_at k s) @ l @ newline"
proof -
  obtain c where "map_of (clients s) k = Some c" using assms by (metis map_of_eq_None_iff not_None_eq)
  then show ?thesis using assms by (simp add: client_at_def send_response_to_client_def modify_client_def map_of_modify)
qed

lemma write_buffer_set_read:
  assumes "k \<in> fst ` set (clients s)"
  shows "write_buffer (client_at k (set_read_buffer k b s)) = write_buffer (client_at k s)"
proof -
  obtain c where "map_of (clients s) k = Some c" using assms by (metis map_of_eq_None_iff not_None_eq)
  then show ?thesis using assms by (simp add: client_at_def set_read_buffer_def modify_client_def map_of_modify)
qed

lemma other_client:
  assumes "k \<in> fst ` set (clients s)" "j \<noteq> k"
  shows "client_at j (modify_client k f s) = client_at j s"
proof -
  have "map_of (map (\<lambda>(i, c). (i, if i = k then f c else c)) cs) j = map_of cs j" for cs
    using assms(2) by (induction cs) auto
  then show ?thesis using assms(1) by (simp add: client_at_def modify_client_def)
qed

text \<open>
  (C30) A command that throws does no harm: its client gets an error report and stays, the rest of what it has sent is read as if
  nothing had happened, the rig and the other clients are untouched; and whatever bytes the clients send, no exception
  leaves the loop over the descriptors. Only undefined behaviour is not contained.
\<close>

theorem exceptions_contained:
  assumes "rig s = Some r" "interpret_command h (rig_model s) cmd r = Inl e" "e \<noteq> Undefined_behaviour"
    and "CHR 0x0A \<notin> set cmd" "k \<in> fst ` set (clients s)"
  shows "(\<exists>s'. read_loop h io k (cmd @ newline @ rest) s = read_loop h io k rest s'
      \<and> write_buffer (client_at k s') = write_buffer (client_at k s) @ ''RPRT -1'' @ newline
      \<and> read_buffer (client_at k s') = rest \<and> rig s' = rig s \<and> rig_disconnected s' = rig_disconnected s
      \<and> map fst (clients s') = map fst (clients s) \<and> (\<forall>j. j \<noteq> k \<longrightarrow> client_at j s' = client_at j s))
    \<and> (\<forall>is acc e'. handle_events h io is acc = Inl e' \<longrightarrow> e' = Undefined_behaviour)"
proof -
  let ?s = "send_response_to_client ''RPRT -1'' k s"
  let ?s' = "set_read_buffer k rest ?s"
  have "run_command h io cmd k s = Inl e" using assms(1,2) by (simp add: run_command_def)
  then have l: "read_loop h io k (cmd @ newline @ rest) s = read_loop h io k rest ?s'"
    using read_loop_line [OF assms(4), of h io k rest s] assms(3) by simp
  have b: "buffers_only s ?s" using assms(5) by (rule send_response_buffers)
  have k: "k \<in> fst ` set (clients ?s)" using buffers_only_keys [OF b] assms(5) by simp
  have w: "write_buffer (client_at k ?s') = write_buffer (client_at k s) @ ''RPRT -1'' @ newline"
    using write_buffer_set_read [OF k] write_buffer_send [OF assms(5)] by simp
  have c: "map fst (clients ?s') = map fst (clients s)"
    using b set_read_buffer_buffers [OF k, of rest] by (simp add: buffers_only_def)
  have o: "client_at j ?s' = client_at j s" if "j \<noteq> k" for j
    using other_client [OF k that] other_client [OF assms(5) that] by (simp add: set_read_buffer_def send_response_to_client_def)
  have f: "rig ?s' = rig s" "rig_disconnected ?s' = rig_disconnected s" by (simp_all add: send_response_to_client_def)
  show ?thesis
    using l w c o f read_buffer_set [of k rest ?s] handle_events_only_undefined by blast
qed

theorem exceptions_contained_witness:
  "\<exists>s'. read_loop demo_hamlib (demo_os []) 5 (''F x'' @ newline @ ''f'') demo_server = read_loop demo_hamlib (demo_os []) 5 ''f'' s'
     \<and> write_buffer (client_at 5 s') = ''RPRT -1'' @ newline \<and> rig s' = Some (Fin 7000000)"
proof -
  have t: "trim ''F x'' = ''F x''" "stod ''x'' = Inl Invalid_argument" by code_simp+
  then have i: "interpret_command demo_hamlib (rig_model demo_server) ''F x'' (Fin 7000000) = Inl Invalid_argument"
    by (simp add: interpret_command_def starts_with_def numeral_2_eq_2)
  have s: "rig demo_server = Some (Fin 7000000)" "5 \<in> fst ` set (clients demo_server)" "write_buffer (client_at 5 demo_server) = []"
    by (simp_all add: demo_server_def update_poll_descriptors_def client_at_def client_zero_def)
  from exceptions_contained [OF s(1) i _ _ s(2), of "demo_os []" "''f''"] s(1,3) show ?thesis by auto
qed

text \<open>The bytes a client has been sent and those still in its buffer.\<close>

definition sent_to :: "int \<Rightarrow> 'r rigctld_server \<Rightarrow> string" where
  "sent_to f s = concat (map snd (filter (\<lambda>(g, _). g = f) (written s)))"

text \<open>
  (C29) A write to a client, complete or partial, moves bytes from its buffer to its socket without
  losing or repeating any: what was sent followed by what is still buffered stays the same.
\<close>

theorem write_conserves_output:
  assumes "clients_ok (clients s)" "k \<in> fst ` set (clients s)" "write_from_client io k s = (True, s')"
  shows "sent_to k s' @ write_buffer (client_at k s') = sent_to k s @ write_buffer (client_at k s)"
proof -
  obtain c where c: "map_of (clients s) k = Some c"
    using assms(2) by (metis map_of_eq_None_iff not_None_eq)
  then have "(k, c) \<in> set (clients s)" by (rule map_of_SomeD)
  then have "fd c = k" using assms(1) by (auto simp: clients_ok_def list_all_iff)
  then show ?thesis
    using assms(2,3) c
    by (auto simp: write_from_client_def Let_def client_at_def modify_client_def map_of_modify sent_to_def split: if_splits)
qed

theorem write_conserves_output_witness:
  "\<exists>s'. write_from_client (demo_os []\<lparr>wrote := (\<lambda>_ _. 2)\<rparr>) 5 (send_response_to_client ''RPRT 0'' 5 demo_server) = (True, s')
     \<and> sent_to 5 s' = ''RP'' \<and> sent_to 5 s' @ write_buffer (client_at 5 s') = ''RPRT 0'' @ newline"
proof -
  define s where "s = send_response_to_client ''RPRT 0'' 5 demo_server"
  have k: "5 \<in> fst ` set (clients demo_server)" by (simp add: demo_server_def update_poll_descriptors_def)
  have b: "buffers_only demo_server s" unfolding s_def using k by (rule send_response_buffers)
  have ok: "clients_ok (clients s)" "5 \<in> fst ` set (clients s)"
    using b demo_server_ok k buffers_only_keys [OF b] by (auto simp: buffers_only_def server_ok_def)
  have w: "write_buffer (client_at 5 s) = ''RPRT 0'' @ newline" "sent_to 5 s = []" "fd (client_at 5 s) = 5" "written s = []"
    by (simp_all add: s_def send_response_to_client_def modify_client_def map_insert_def demo_server_def
        update_poll_descriptors_def client_at_def client_zero_def sent_to_def rigctld_server_new_def)
  obtain s' where s': "write_from_client (demo_os []\<lparr>wrote := (\<lambda>_ _. 2)\<rparr>) 5 s = (True, s')" "sent_to 5 s' = ''RP''"
    using w by (simp add: write_from_client_def Let_def sent_to_def numeral_2_eq_2)
  then show ?thesis using write_conserves_output [OF ok s'(1)] w by (auto simp: s_def)
qed

section \<open>The flag of the loop\<close>

text \<open>A pass of the loop does not touch the flag that ends it.\<close>

lemma modify_client_running [simp]: "is_running (modify_client k f s) = is_running s"
  by (simp add: modify_client_def)

lemma send_running [simp]: "is_running (send_response_to_client l k s) = is_running s"
  by (simp add: send_response_to_client_def)

lemma fold_send_running [simp]: "is_running (fold (\<lambda>l. send_response_to_client l k) out s) = is_running s"
  by (induction out arbitrary: s) simp_all

lemma write_running [simp]: "is_running (snd (write_from_client io k s)) = is_running s"
  by (simp add: write_from_client_def Let_def)

lemma run_command_running: "run_command h io cmd k s = Inr (b, t) \<Longrightarrow> is_running t = is_running s"
  by (auto simp: run_command_def Let_def bind_result_Inr_iff callbacks_eq split: option.splits if_splits)

lemma read_loop_running:
  assumes "read_loop h io k buf s = Inr (ok, s')"
  shows "is_running s' = is_running s"
  by (rule read_loop_invariant [OF assms, where P = "\<lambda>t. is_running t = is_running s"])
    (simp_all add: run_command_running set_read_buffer_def)

lemma read_from_client_running: "read_from_client h io k s = Inr (ok, s') \<Longrightarrow> is_running s' = is_running s"
  by (auto simp: read_from_client_def take_bytes_def Let_def set_read_buffer_def dest: read_loop_running
      split: recv_result.splits if_splits)

lemma handle_event_running: "handle_event h io i (s, a, rm) = Inr (s', a', rm') \<Longrightarrow> is_running s' = is_running s"
proof -
  have out: "is_running (fst (handle_pollout io i acc)) = is_running (fst acc)" for acc :: "'a rigctld_server \<times> int \<times> int list"
    by (simp add: handle_pollout_def case_prod_beta)
  have inn: "is_running (fst acc') = is_running (fst acc)"
    if "handle_pollin h io i acc = Inr acc'" for acc acc' :: "'a rigctld_server \<times> int \<times> int list"
    using that
    by (cases acc) (auto simp: handle_pollin_def accept_client_def Let_def bind_result_Inr_iff
        dest: read_from_client_running split: if_splits)
  assume e: "handle_event h io i (s, a, rm) = Inr (s', a', rm')"
  then show ?thesis
  proof (cases "poll_declares_error (revents io i)")
    case True
    then show ?thesis using e by (simp add: handle_event_def)
  next
    case False
    then obtain acc where "handle_pollin h io i (s, a, rm) = Inr acc" "handle_pollout io i acc = (s', a', rm')"
      using e by (auto simp: handle_event_def bind_result_Inr_iff)
    then show ?thesis using inn out [of acc] by fastforce
  qed
qed

lemma handle_events_running: "handle_events h io is (s, a, rm) = Inr (s', a', rm') \<Longrightarrow> is_running s' = is_running s"
  by (induction "is" arbitrary: s a rm) (auto simp: bind_result_Inr_iff dest: handle_event_running)

lemma work_iteration_running: "work_iteration h io s = Inr s' \<Longrightarrow> is_running s' = is_running s"
proof -
  have rm: "is_running (fold remove_client ks s) = is_running s" for ks and s :: "'a rigctld_server"
    by (induction ks arbitrary: s) (simp_all add: remove_client_def close_client_def split: option.splits)
  have fin: "finish_events acc = Inr s' \<Longrightarrow> is_running s' = is_running (fst acc)" for acc and s' :: "'a rigctld_server"
    by (cases acc) (auto simp: finish_events_def Let_def update_poll_flags_def bind_result_Inr_iff update_poll_descriptors_def rm split: if_splits)
  have cl: "is_running (fold (close_client \<circ> snd) cs s) = is_running s" for cs and s :: "'a rigctld_server"
    by (induction cs arbitrary: s) (simp_all add: close_client_def)
  have rc: "reconnect h s = Inr s1 \<Longrightarrow> is_running s1 = is_running s" for s s1
    by (auto simp: reconnect_def bind_result_Inr_iff drop_rig_def update_poll_descriptors_def cl dest!: open_rig_cases split: if_splits)
  assume "work_iteration h io s = Inr s'"
  then show ?thesis
    using rc fin by (fastforce simp: work_iteration_def bind_result_Inr_iff dest: handle_events_running split: if_splits)
qed

section \<open>Losing the rig\<close>

lemma fold_close_clients:
  "fold (close_client \<circ> snd) cs s = s\<lparr>closed := closed s @ map (fd \<circ> snd) cs\<rparr>"
  by (induction cs arbitrary: s) (simp_all add: close_client_def)

lemma fold_send_frame:
  "closed (fold (\<lambda>l. send_response_to_client l k) out s) = closed s
   \<and> rig_disconnected (fold (\<lambda>l. send_response_to_client l k) out s) = rig_disconnected s"
  by (induction out arbitrary: s) (simp_all add: send_response_to_client_def modify_client_def)

lemma write_frame:
  "closed (snd (write_from_client io k s)) = closed s \<and> rig_disconnected (snd (write_from_client io k s)) = rig_disconnected s"
  by (simp add: write_from_client_def modify_client_def Let_def)

text \<open>A reconnection closes every client once, in order, before the rig is opened again.\<close>

lemma reconnect_after_loss:
  assumes "rig_disconnected s" "rig s \<noteq> None" "clients_ok (clients s)" "reconnect h s = Inr s'"
  shows "clients s' = [] \<and> closed s' = closed s @ map fst (clients s) \<and> (rig_disconnected s' \<longleftrightarrow> rig s' = None)"
proof -
  have "map (fd \<circ> snd) (clients s) = map fst (clients s)"
    using assms(3) by (auto simp: clients_ok_def list_all_iff)
  then have d: "clients (drop_rig s) = []" "closed (drop_rig s) = closed s @ map fst (clients s)" "rig_disconnected (drop_rig s)"
    using assms(1,2) by (auto simp: drop_rig_def fold_close_clients update_poll_descriptors_def)
  obtain ok t where o: "open_rig h (drop_rig s) = Inr (ok, t)"
      "s' = (if ok then t\<lparr>rig_disconnected := False\<rparr> else t)"
    using assms(1,4) by (auto simp: reconnect_def bind_result_Inr_iff)
  have "\<exists>r. t = (drop_rig s)\<lparr>rig := r\<rparr> \<and> (ok \<longleftrightarrow> r \<noteq> None)"
    using o(1) by (auto simp: open_rig_def bind_result_Inr_iff case_prod_beta split: option.splits if_splits)
  then show ?thesis using o(2) d by auto
qed

text \<open>
  (C31) A rig that stops answering is told apart from one that was unplugged, and an unplugged one is given up
  cleanly. After a command of a client the server counts as disconnected exactly if the rig reported a failed
  read and its device node is gone, so that a rig on standby stays reachable; and when it is
  disconnected, the next pass, before it looks at its sockets, closes every client once and forgets
  it, and has either opened the rig anew or still counts as disconnected, without a rig.
\<close>

theorem rig_loss_contained:
  assumes "server_ok s" "rig s = Some r" "\<not> rig_disconnected s" "k \<in> fst ` set (clients s)"
    and "interpret_command h (rig_model s) cmd r = Inr (stay, out, r')"
  shows "\<exists>s1. run_command h io cmd k s = Inr (stay, s1)
    \<and> (rig_disconnected s1 \<longleftrightarrow> \<not> device_present io
         \<and> (\<exists>m \<in> set (drop (length (reported h r)) (reported h r')). string_contains m ''read failed''))
    \<and> (rig_disconnected s1 \<longrightarrow> (\<forall>s2. reconnect h s1 = Inr s2 \<longrightarrow>
         clients s2 = [] \<and> closed s2 = closed s @ map fst (clients s) \<and> (rig_disconnected s2 \<longleftrightarrow> rig s2 = None)))"
proof -
  obtain s1 where s1: "run_command h io cmd k s = Inr (stay, s1)" using assms(2,5) by (simp add: run_command_def Let_def)
  have b: "buffers_only s s1" using run_command_buffers [OF s1 assms(4)] .
  have f: "closed s1 = closed s" "rig_disconnected s1 = lost_rig h io r r'"
    using s1 assms(2,3,5) by (auto simp: run_command_def Let_def fold_send_frame write_frame callbacks_eq split: if_splits)
  have k: "rig s1 \<noteq> None" "clients_ok (clients s1)" "map fst (clients s1) = map fst (clients s)"
    using b assms(1,2) by (auto simp: buffers_only_def server_ok_def)
  show ?thesis
    using s1 f k reconnect_after_loss [of s1 h] by (auto simp: lost_rig_def)
qed

text \<open>A rig that fails when it is asked for its frequency.\<close>

definition failing_hamlib :: "flt hamlib" where
  "failing_hamlib = demo_hamlib\<lparr>get_freq := (\<lambda>r. (Some r, Fin 0)),
     reported := (\<lambda>r. if r = Fin 0 then [''serial: read failed''] else [])\<rparr>"

theorem rig_loss_contained_witness:
  "\<exists>s1 s2. run_command failing_hamlib (demo_os []\<lparr>device_present := False\<rparr>) ''f'' 5 demo_server = Inr (True, s1)
     \<and> rig_disconnected s1 \<and> reconnect failing_hamlib s1 = Inr s2 \<and> clients s2 = [] \<and> closed s2 = [5] \<and> rig s2 \<noteq> None"
proof -
  let ?h = failing_hamlib and ?io = "demo_os []\<lparr>device_present := False\<rparr>"
  have t: "trim ''f'' = ''f''" "string_contains ''serial: read failed'' ''read failed''" by code_simp+
  have s: "rig demo_server = Some (Fin 7000000)" "\<not> rig_disconnected demo_server" "5 \<in> fst ` set (clients demo_server)"
    "map fst (clients demo_server) = [5]" "closed demo_server = []"
    by (simp_all add: demo_server_def update_poll_descriptors_def rigctld_server_new_def)
  obtain out where "interpret_command ?h (rig_model demo_server) ''f'' (Fin 7000000) = Inr (True, out, Fin 0)"
    by (simp add: interpret_command_def t starts_with_def print_out_def failing_hamlib_def)
  from rig_loss_contained [OF demo_server_ok s(1-3) this, of ?io]
  obtain s1 where s1: "run_command ?h ?io ''f'' 5 demo_server = Inr (True, s1)" "rig_disconnected s1"
      "\<forall>s2. reconnect ?h s1 = Inr s2 \<longrightarrow> clients s2 = [] \<and> closed s2 = [5] \<and> (rig_disconnected s2 \<longleftrightarrow> rig s2 = None)"
    using t(2) s(4,5) by (auto simp: failing_hamlib_def demo_os_def)
  have "\<exists>s2. reconnect ?h s1 = Inr s2 \<and> \<not> rig_disconnected s2"
    using s1(2) by (simp add: reconnect_def open_rig_def set_conf_or_throw_def failing_hamlib_def demo_hamlib_def)
  then show ?thesis using s1 by metis
qed

section \<open>Poll loop instances\<close>

theorem poll_array_in_step_witness:
  "\<exists>s'. work_iteration demo_hamlib (demo_os ''f'') demo_server = Inr s' \<and> server_ok s'"
proof -
  have r: "reconnect demo_hamlib demo_server = Inr demo_server"
    by (simp add: reconnect_def demo_server_def update_poll_descriptors_def)
  have h: "\<exists>acc. handle_events demo_hamlib (demo_os ''f'') [0..<pfd_nr demo_server] (demo_server, -1, []) = Inr acc"
    by (simp add: demo_server_def update_poll_descriptors_def handle_event_def handle_pollin_def handle_pollout_def demo_os_def
        poll_declares_error_def read_from_client_def take_bytes_def Let_def client_at_def client_zero_def
        read_loop.simps rigctld_server_new_def set_read_buffer_def modify_client_def)
  have "case work_iteration demo_hamlib (demo_os ''f'') demo_server of
      Inr s' \<Rightarrow> server_ok s'
    | Inl e \<Rightarrow> reconnect demo_hamlib demo_server = Inl e
        \<or> (\<exists>s1. reconnect demo_hamlib demo_server = Inr s1 \<and> handle_events demo_hamlib (demo_os ''f'') [0..<pfd_nr s1] (s1, -1, []) = Inl e)"
    using r demo_contract by (intro poll_array_in_step [OF demo_server_ok, where fds = "{0, 1, 2, 3, 5}"]) auto
  then show ?thesis using r h by (auto split: sum.splits)
qed

theorem descriptor_zero_overruns_array_witness:
  "finish_events (snd (accept_client (demo_os []\<lparr>accepted := 0\<rparr>) demo_server),
                  fst (accept_client (demo_os []\<lparr>accepted := 0\<rparr>) demo_server), []) = Inl Undefined_behaviour"
  by (rule descriptor_zero_overruns_array [OF demo_server_ok])
    (simp_all add: demo_server_def update_poll_descriptors_def)

end
