(* ===== verification/Rig_Protocol.thy ===== *)
theory Rig_Protocol
  imports Rig_Properties
begin

text \<open>
  The text protocol of the rig control server: what a client prints is what the rig is set to, what the rig
  reports is what the client reads, and which lines are answered.
\<close>

section \<open>Frequencies as text\<close>

lemma rnd64_of_nat: "n < 2 ^ 53 \<Longrightarrow> rnd64 (of_nat n) = Fin (of_nat n)"
  using rnd64_of_int [of "int n"] by simp

lemma print_whole: "to_string_double (Fin (of_nat n)) = string_of_nat n @ ''.000000''"
proof -
  have "(of_nat n :: rat) * 1000000 = of_int (int n * 1000000)" by simp
  then have m: "round_even (\<bar>of_nat n\<bar> * 1000000) = int n * 1000000" by (simp only: abs_of_nat round_even_of_int)
  have z: "pad_left 6 (string_of_nat 0) = ''000000''" by code_simp
  have "nat (int n * 1000000) = n * 1000000" by (simp add: nat_mult_distrib)
  then show ?thesis using m z by (simp add: fixed6_def Let_def)
qed

lemma digits_value_append: "digits_value (xs @ ys) = digits_value xs * 10 ^ length ys + digits_value ys"
proof (induction ys rule: rev_induct)
  case (snoc y ys)
  then show ?case using digits_value_snoc [of "xs @ ys" y] digits_value_snoc [of ys y] by (simp add: algebra_simps)
qed (simp add: digits_value_def)

lemma digit_lower: "is_digit c \<Longrightarrow> lower c = c"
  by (auto simp: is_digit_def lower_def)

text \<open>\<open>std::stod\<close> reads a whole number, with or without the decimals that \<open>std::to_string\<close> prints.\<close>

definition whole_text :: "nat \<Rightarrow> string \<Rightarrow> bool" where
  "whole_text n s \<longleftrightarrow> s = string_of_nat n \<or> s = string_of_nat n @ ''.000000''"

lemma whole_text_Cons:
  assumes "whole_text n s"
  obtains c u where "s = c # u" "is_digit c" "\<forall>a \<in> set u. is_digit a \<or> a = CHR ''.''"
proof -
  obtain c cs where ds: "string_of_nat n = c # cs" "is_digit c" "\<forall>a \<in> set cs. is_digit a"
    using string_of_nat_digits [of n] by (cases "string_of_nat n") (auto simp: list_all_iff)
  have "is_digit (CHR ''0'')" by (simp add: is_digit_def)
  then show ?thesis using that [of c "tl s"] assms ds by (auto simp: whole_text_def)
qed

lemma scan_mantissa_whole:
  assumes "whole_text n s"
  shows "\<exists>zeros. scan_mantissa is_digit s = (string_of_nat n, zeros, []) \<and> digits_value zeros = 0"
proof -
  have d: "\<forall>c \<in> set (string_of_nat n). is_digit c" using string_of_nat_digits [of n] by (simp add: list_all_iff)
  then have "takeWhile is_digit (string_of_nat n) = string_of_nat n" "dropWhile is_digit (string_of_nat n) = []"
    by (simp_all add: takeWhile_eq_all_conv dropWhile_eq_Nil_conv)
  moreover have "\<not> is_digit (CHR ''.'')" "is_digit (CHR ''0'')" by (simp_all add: is_digit_def)
  moreover have "digits_value ''000000'' = 0" "digits_value [] = 0" by code_simp+
  ultimately show ?thesis
    using assms d by (auto simp: whole_text_def scan_mantissa_def takeWhile_append2 dropWhile_append2)
qed

lemma scan_whole:
  assumes "whole_text n s"
  shows "scan_unsigned s = Some (Fin (of_nat n))"
proof -
  obtain c u where s: "s = c # u" "is_digit c" "\<forall>a \<in> set u. is_digit a \<or> a = CHR ''.''" using whole_text_Cons [OF assms] .
  have l: "lower c = c" "c \<noteq> CHR ''i''" "c \<noteq> CHR ''n''" using digit_lower s(2) by (auto simp: is_digit_def)
  have nx: "lower a \<noteq> CHR ''x''" if "is_digit a \<or> a = CHR ''.''" for a
    using that digit_lower [of a] by (auto simp: is_digit_def lower_def)
  have not_special: "take 3 (map lower s) \<noteq> ''inf''" "take 3 (map lower s) \<noteq> ''nan''"
    using l s(1) by (simp_all add: numeral_3_eq_3)
  have not_hex: "take 2 (map lower s) \<noteq> ''0x''" using nx s(1,3) by (cases u) (simp_all add: numeral_2_eq_2)
  obtain zeros where z: "scan_mantissa is_digit s = (string_of_nat n, zeros, [])" "digits_value zeros = 0"
    using scan_mantissa_whole [OF assms] by blast
  have v: "digits_value (string_of_nat n @ zeros) = n * 10 ^ length zeros"
    using digits_value_append [of "string_of_nat n" zeros] z(2) by (simp add: digits_value_string_of_nat)
  show ?thesis
    using not_special not_hex z(1) v string_of_nat_digits [of n] by (simp add: scan_unsigned_def scan_exponent_def Let_def)
qed

lemma stod_whole:
  assumes "n < 2 ^ 53" "whole_text n s"
  shows "stod s = Inr (Fin (of_nat n))"
proof -
  obtain c u where s: "s = c # u" "is_digit c" using whole_text_Cons [OF assms(2)] by blast
  then have "dropWhile is_space s = s" "hd s \<noteq> CHR ''-''" "hd s \<noteq> CHR ''+''" using digit_not_sign [OF s(2)] by simp_all
  then show ?thesis
    using scan_whole [OF assms(2)] rnd64_of_nat [OF assms(1)] by (simp add: stod_def sto_float_def Let_def)
qed

section \<open>Setting and reading the frequency\<close>

lemma trim_word:
  assumes "s \<noteq> []" "hd s \<notin> set whitespace" "last s \<notin> set whitespace"
  shows "trim s = s"
proof -
  have "dropWhile (\<lambda>c. c \<in> set whitespace) (rev s) = rev s"
    using assms(1,3) by (cases "rev s") (auto simp: hd_rev [symmetric])
  moreover have "dropWhile (\<lambda>c. c \<in> set whitespace) s = s" using assms(1,2) by (cases s) auto
  ultimately show ?thesis by (simp add: trim_def ltrim_def rtrim_def)
qed

lemma whole_text_last:
  assumes "whole_text n s"
  shows "s \<noteq> []" "last s \<notin> set whitespace" "CHR 0x0A \<notin> set s" "CHR 0x00 \<notin> set s"
proof -
  obtain c u where s: "s = c # u" "is_digit c" "\<forall>a \<in> set u. is_digit a \<or> a = CHR ''.''" using whole_text_Cons [OF assms] .
  moreover have "a \<notin> set whitespace \<and> a \<noteq> CHR 0x0A \<and> a \<noteq> CHR 0x00" if "is_digit a \<or> a = CHR ''.''" for a
    using that by (auto simp: is_digit_def whitespace_def)
  ultimately have "\<forall>a \<in> set s. a \<notin> set whitespace \<and> a \<noteq> CHR 0x0A \<and> a \<noteq> CHR 0x00" by auto
  moreover show "s \<noteq> []" using s(1) by simp
  ultimately show "last s \<notin> set whitespace" "CHR 0x0A \<notin> set s" "CHR 0x00 \<notin> set s" using last_in_set [of s] by blast+
qed

lemma set_freq_command:
  assumes "n < 2 ^ 53" "whole_text n s"
  shows "interpret_command h model (''F '' @ s) r = Inr (True, [''RPRT 0''], set_freq h (Fin (of_nat n)) r)"
proof -
  have "trim (''F '' @ s) = ''F '' @ s"
    using whole_text_last [OF assms(2)] by (intro trim_word) (simp_all add: whitespace_def)
  then show ?thesis
    using stod_whole [OF assms]
    by (simp add: interpret_command_def Let_def starts_with_def acknowledge_def numeral_2_eq_2)
qed

lemma get_freq_command:
  "interpret_command h model ''f'' r =
     bind_result (print_out to_string_double (get_freq h r)) (\<lambda>(out, r'). Inr (True, out, r'))"
proof -
  have "trim ''f'' = ''f''" by code_simp
  then show ?thesis by (simp add: interpret_command_def starts_with_def)
qed

text \<open>One line of a client whose command succeeds: its replies are appended to the write buffer.\<close>

lemma read_loop_answered:
  assumes "CHR 0x0A \<notin> set cmd" "rig s = Some r" "interpret_command h (rig_model s) cmd r = Inr (True, [l], r')"
    "k \<in> fst ` set (clients s)"
  shows "\<exists>s'. read_loop h io k (cmd @ newline @ rest) s = read_loop h io k rest s' \<and> rig s' = Some r'
    \<and> rig_model s' = rig_model s \<and> k \<in> fst ` set (clients s')
    \<and> write_buffer (client_at k s') = write_buffer (client_at k s) @ l @ newline"
proof -
  let ?called = "callbacks h io r r' (s\<lparr>rig := Some r'\<rparr>)"
  let ?s = "send_response_to_client l k ?called"
  have s0: "clients ?called = clients s" "rig ?called = Some r'" "rig_model ?called = rig_model s" by (simp_all add: callbacks_eq)
  have k: "k \<in> fst ` set (clients ?s)"
    using buffers_only_keys [OF send_response_buffers [of k ?called l]] assms(4) s0(1) by simp
  have "run_command h io cmd k s = Inr (True, ?s)" using assms(2,3) by (simp add: run_command_def)
  then have "read_loop h io k (cmd @ newline @ rest) s = read_loop h io k rest (set_read_buffer k rest ?s)"
    using read_loop_line [OF assms(1), of h io k rest s] by simp
  moreover have "write_buffer (client_at k (set_read_buffer k rest ?s)) = write_buffer (client_at k s) @ l @ newline"
    using write_buffer_set_read [OF k] write_buffer_send [of k ?called l] assms(4) s0(1)
    by (simp add: client_at_def)
  moreover have "k \<in> fst ` set (clients (set_read_buffer k rest ?s))"
    using buffers_only_keys [OF set_read_buffer_buffers [OF k]] k by simp
  moreover have "rig ?s = Some r'" "rig_model ?s = rig_model s" using s0 by (simp_all add: send_response_to_client_def)
  ultimately show ?thesis by (intro exI [of _ "set_read_buffer k rest ?s"]) simp
qed

text \<open>
  (C26) A frequency survives the text protocol: when a client sets a whole number \<open>n\<close> of hertz below \<open>2 ^ 53\<close>, written with or without the six
  decimals of \<open>std::to_string\<close>, and asks for the frequency in the next line, both lines in one piece, the rig is set to exactly
  \<open>n\<close>, and the client is acknowledged and answered with the text of the frequency \<open>v\<close> that the rig then reports. If that is a whole
  number, the text is its digits and six zero decimals; so a rig that stays at the frequency it was set to gives back the
  text that was sent, if it was sent with its decimals.
\<close>

theorem frequency_roundtrip:
  assumes "n < 2 ^ 53" "whole_text n freq" "get_freq h (set_freq h (Fin (of_nat n)) r) = (Some v, r')"
    and "rig s = Some r" "\<not> rig_disconnected s" "k \<in> fst ` set (clients s)" "read_buffer (client_at k s) = []"
  shows "\<exists>s'. take_bytes h io k (''F '' @ freq @ newline @ ''f'' @ newline) s = Inr (True, s') \<and> rig s' = Some r'
    \<and> write_buffer (client_at k s') = write_buffer (client_at k s) @ ''RPRT 0'' @ newline @ to_string_double v @ newline
    \<and> (\<forall>m. v = Fin (of_nat m) \<longrightarrow> to_string_double v = string_of_nat m @ ''.000000'')"
proof -
  let ?F = "''F '' @ freq" and ?buf = "(''F '' @ freq) @ newline @ ''f'' @ newline @ []"
  have nl: "CHR 0x0A \<notin> set ?F" "CHR 0x00 \<notin> set ?buf" using whole_text_last [OF assms(2)] by auto
  let ?s = "set_read_buffer k ?buf s"
  have k: "k \<in> fst ` set (clients ?s)" using buffers_only_keys [OF set_read_buffer_buffers [OF assms(6)]] assms(6) by simp
  have rs: "rig ?s = Some r" using assms(4) by simp
  have a1: "interpret_command h (rig_model ?s) ?F r = Inr (True, [''RPRT 0''], set_freq h (Fin (of_nat n)) r)"
    using assms(1,2) by (rule set_freq_command)
  obtain s1 where s1: "read_loop h io k ?buf ?s = read_loop h io k (''f'' @ newline @ []) s1"
      "rig s1 = Some (set_freq h (Fin (of_nat n)) r)" "k \<in> fst ` set (clients s1)"
      "write_buffer (client_at k s1) = write_buffer (client_at k ?s) @ ''RPRT 0'' @ newline"
    using read_loop_answered [OF nl(1) rs a1 k, of io "''f'' @ newline @ []"] by blast
  have "interpret_command h (rig_model s1) ''f'' (set_freq h (Fin (of_nat n)) r) = Inr (True, [to_string_double v], r')"
    using assms(3) by (simp add: get_freq_command print_out_def)
  then obtain s2 where s2: "read_loop h io k (''f'' @ newline @ []) s1 = read_loop h io k [] s2" "rig s2 = Some r'"
      "write_buffer (client_at k s2) = write_buffer (client_at k s1) @ to_string_double v @ newline"
    using read_loop_answered [of "''f''" s1, OF _ s1(2) _ s1(3), of h "to_string_double v" r' io "[]"] by auto
  have "takeWhile (\<lambda>c. c \<noteq> CHR 0x00) ?buf = ?buf" using nl(2) by (simp only: takeWhile_eq_all_conv) metis
  then have "take_bytes h io k ?buf s = read_loop h io k [] s2"
    using assms(5,7) s1(1) s2(1) by (simp add: take_bytes_def)
  then show ?thesis
    using s2 s1(4) print_whole read_loop_no_line [of "[]" h io k s2] write_buffer_set_read [OF assms(6), of ?buf] by auto
qed

theorem frequency_roundtrip_witness:
  "\<exists>s'. take_bytes demo_hamlib (demo_os []) 5 (''F 7030000'' @ newline @ ''f'' @ newline) demo_server = Inr (True, s')
     \<and> rig s' = Some (Fin 7030000)
     \<and> write_buffer (client_at 5 s') = ''RPRT 0'' @ newline @ ''7030000.000000'' @ newline"
proof -
  have t: "string_of_nat 7030000 = ''7030000''" by (simp add: string_of_nat.simps) code_simp
  then have w: "whole_text 7030000 ''7030000''" by (simp add: whole_text_def)
  have g: "get_freq demo_hamlib (set_freq demo_hamlib (Fin (of_nat 7030000)) (Fin 7000000)) = (Some (Fin (of_nat 7030000)), Fin 7030000)"
    by (simp add: demo_hamlib_def)
  have s: "rig demo_server = Some (Fin 7000000)" "\<not> rig_disconnected demo_server" "5 \<in> fst ` set (clients demo_server)"
    "read_buffer (client_at 5 demo_server) = []" "write_buffer (client_at 5 demo_server) = []"
    by (simp_all add: demo_server_def update_poll_descriptors_def client_at_def client_zero_def)
  from frequency_roundtrip [OF _ w g s(1-4), of "demo_os []"] s(5) t print_whole [of 7030000] show ?thesis by auto
qed

section \<open>Which lines are answered\<close>

text \<open>The lines the server knows: whole commands, and commands followed by a blank and an argument.\<close>

definition recognised :: "string \<Rightarrow> bool" where
  "recognised cmd \<longleftrightarrow>
     cmd \<in> {[CHR 0x5C] @ ''get_powerstat'', [CHR 0x5C] @ ''chk_vfo'', [CHR 0x5C] @ ''get_lock_mode'',
            [CHR 0x5C] @ ''dump_state'', ''f'', ''s'', ''t'', ''m'', ''q'', ''Q'', ''j'', ''v''}
     \<or> (\<exists>p \<in> {[CHR 0x5C] @ ''set_powerstat '', ''S '', ''T '', ''V '', ''M '', ''F '', ''l '', ''L ''}. starts_with cmd p)"

definition answers :: "'r reply \<Rightarrow> bool" where
  "answers m \<longleftrightarrow> (\<forall>out r. m = Inr (out, r) \<longrightarrow> out \<noteq> [])"

lemma answers_bind: "(\<And>x. answers (f x)) \<Longrightarrow> answers (bind_result m f)"
  by (auto simp: answers_def bind_result_Inr_iff)

lemma answers_reply: "answers (acknowledge r)" "answers (print_out f p)" "answers (Inr (l # ls, r))" "answers (Inl e)"
  by (auto simp: answers_def acknowledge_def print_out_def split: option.splits prod.splits)

lemma answers_commands:
  "answers (cmd_get_split h r)" "answers (cmd_set_split h cmd r)" "answers (cmd_get_mode h r)"
  "answers (cmd_set_mode h cmd r)" "answers (cmd_get_level h cmd r)" "answers (cmd_set_level h model cmd r)"
  unfolding cmd_get_split_def cmd_set_split_def cmd_get_mode_def cmd_set_mode_def cmd_get_level_def cmd_set_level_def
    Let_def case_prod_beta
  by (auto intro!: answers_bind answers_reply)

lemma answers_stay: "bind_result m (\<lambda>(out, r). Inr (True, out, r)) = Inr (stay, out, r') \<Longrightarrow> answers m \<Longrightarrow> out \<noteq> []"
  by (auto simp: answers_def bind_result_Inr_iff)

text \<open>
  (C27) A line that is handled without an exception is answered exactly if the server knows it, whatever the rig
  does: every known command gets a reply, so that its client does not stall, and any other line gets none,
  so that a client that waits for its reply waits for ever.
\<close>

theorem answered_iff_recognised:
  assumes "interpret_command h model line r = Inr (stay, out, r')"
  shows "out \<noteq> [] \<longleftrightarrow> recognised (trim line)"
proof (cases "recognised (trim line)")
  case False
  then have "out = []" using assms unfolding interpret_command_def Let_def recognised_def by (simp split: if_splits)
  then show ?thesis using False by simp
next
  case True
  have l: "answers (bind_result (print_out to_string (get_lock_mode h r)) (\<lambda>(out, r'). Inr (out @ [[]], r')))"
    by (auto simp: answers_def bind_result_Inr_iff)
  have j: "answers (case get_rit h r of (v, r') \<Rightarrow> Inr ([to_string (case v of None \<Rightarrow> 0 | Some v \<Rightarrow> v)], r'))"
    by (simp add: answers_def split: prod.splits)
  have "out \<noteq> []"
    using assms True unfolding interpret_command_def Let_def recognised_def
    by (auto split: if_splits dest!: answers_stay intro!: answers_bind answers_reply answers_commands l j)
  then show ?thesis using True by simp
qed

theorem answered_iff_recognised_witness:
  "interpret_command demo_hamlib 3073 ''v'' (Fin 7000000) = Inr (True, [''Main''], Fin 7000000) \<and> recognised (trim ''v'')"
proof -
  have t: "trim ''v'' = ''v''" by code_simp
  have "interpret_command demo_hamlib 3073 ''v'' (Fin 7000000) = Inr (True, [''Main''], Fin 7000000)"
    unfolding interpret_command_def Let_def t by (simp add: starts_with_def)
  with answered_iff_recognised [OF this] show ?thesis by simp
qed

end
