(* ===== verification/Audio_Stream.thy ===== *)
theory Audio_Stream
  imports String_Util
begin

text \<open>
  \<open>src/audio_stream_server.{h,cpp}\<close>: audio is captured, encoded and sent to every subscriber.
  The Opus encoder is a parameter; what ALSA, the socket and the clock answer in one pass of the
  worker thread is an argument of that pass. The datagrams sent are recorded in \<open>outbox\<close>. The
  hash map of the subscribers is a list of entries with distinct keys; the order of its entries, which
  the C++ library leaves open, is the order in which they are served.
\<close>

section \<open>Configuration and state\<close>

record audio_stream_config =
  aud_enabled :: bool
  aud_device :: string
  aud_port :: u16
  sample_rate :: u32
  channels :: int
  bitrate :: int
  frame_ms :: int
  client_timeout_ms :: int
  fec_loss_perc :: int

definition audio_stream_config_default :: audio_stream_config where
  "audio_stream_config_default =
     \<lparr>aud_enabled = False, aud_device = ''default'', aud_port = 0, sample_rate = 8000, channels = 1,
      bitrate = 96000, frame_ms = 20, client_timeout_ms = 10000, fec_loss_perc = 10\<rparr>"

record sockaddr_in =
  s_addr :: u32
  sin_port :: u16

record subscriber =
  addr :: sockaddr_in
  last_seen_ms :: u32

text \<open>The encoder, an opaque state \<open>'e\<close>: it is created or the text of the error is given; \<open>opus_encode\<close> is given the samples, the number of frames and
  the size of the output buffer, and answers with an error code or the bytes of the packet.\<close>

record 'e opus =
  opus_encoder_create :: "int \<Rightarrow> int \<Rightarrow> string + 'e"
  opus_set_bitrate :: "int \<Rightarrow> 'e \<Rightarrow> 'e"
  opus_set_inband_fec :: "int \<Rightarrow> 'e \<Rightarrow> 'e"
  opus_set_packet_loss_perc :: "int \<Rightarrow> 'e \<Rightarrow> 'e"
  opus_encode :: "'e \<Rightarrow> 16 word list \<Rightarrow> int \<Rightarrow> nat \<Rightarrow> (int + u8 list) \<times> 'e"

record 'e audio_stream_server =
  config :: audio_stream_config
  pcm :: bool
  encoder :: 'e
  sockfd :: int
  subscribers :: "(u64 \<times> subscriber) list"
  frame_size :: u32
  sequence :: u32
  capture_was_open :: bool
  audio_running :: bool
  outbox :: "(sockaddr_in \<times> u8 list) list"

section \<open>Wire format\<close>

definition AUDIO_HEADER_BYTES :: nat where "AUDIO_HEADER_BYTES = 4"

definition MAX_PACKET :: nat where "MAX_PACKET = 1500"

definition put_be32 :: "u32 \<Rightarrow> u8 list" where
  "put_be32 v = [ucast (drop_bit 24 v), ucast (drop_bit 16 v), ucast (drop_bit 8 v), ucast v]"

definition client_key :: "sockaddr_in \<Rightarrow> u64" where
  "client_key a = (push_bit 16 (ucast (s_addr a))) OR ucast (sin_port a)"

section \<open>Construction\<close>

definition open_socket :: "int \<Rightarrow> int \<Rightarrow> 'e audio_stream_server \<Rightarrow> bool \<times> 'e audio_stream_server" where
  "open_socket socket_answer bind_answer s =
     (let s1 = s\<lparr>sockfd := socket_answer\<rparr> in
      (\<not> socket_answer < 0 \<and> \<not> bind_answer < 0, s1))"

text \<open>\<open>sample_rate / 1000 * frame_ms\<close> is computed in \<open>uint32_t\<close>; \<open>static_cast<opus_int32>\<close> reads the rate
  as a signed number.\<close>

definition audio_stream_server_new ::
    "'e opus \<Rightarrow> int \<Rightarrow> int \<Rightarrow> audio_stream_config \<Rightarrow> 'e audio_stream_server result" where
  "audio_stream_server_new op socket_answer bind_answer cfg =
     (case opus_encoder_create op (sint (sample_rate cfg)) (channels cfg) of
        Inl err \<Rightarrow> Inl (Runtime_error (''opus_encoder_create failed: '' @ err))
      | Inr e0 \<Rightarrow>
          let e1 = opus_set_bitrate op (bitrate cfg) e0;
              e2 = (if fec_loss_perc cfg > 0
                    then opus_set_packet_loss_perc op (fec_loss_perc cfg) (opus_set_inband_fec op 1 e1)
                    else e1);
              s0 = \<lparr>config = cfg, pcm = False, encoder = e2, sockfd = -1, subscribers = [],
                    frame_size = sample_rate cfg div 1000 * of_int (frame_ms cfg), sequence = 0,
                    capture_was_open = False, audio_running = False, outbox = []\<rparr>;
              (ok, s) = open_socket socket_answer bind_answer s0
          in if \<not> ok then Inl (Runtime_error (''audio: failed to bind UDP socket on port '' @ to_string (uint (aud_port cfg))))
             else Inr (s\<lparr>audio_running := True\<rparr>))"

definition audio_stop :: "'e audio_stream_server \<Rightarrow> 'e audio_stream_server" where
  "audio_stop s = s\<lparr>audio_running := False\<rparr>"

section \<open>Capture\<close>

text \<open>The hardware parameters the device is asked for.\<close>

record hw_request =
  req_channels :: int
  req_rate :: u32
  req_period :: u32
  req_buffer :: u32

definition capture_request :: "audio_stream_config \<Rightarrow> hw_request" where
  "capture_request cfg =
     \<lparr>req_channels = channels cfg, req_rate = sample_rate cfg, req_period = sample_rate cfg div 8,
      req_buffer = sample_rate cfg div 8 * 4\<rparr>"

text \<open>What the outside answers in one pass: \<open>snd_pcm_open\<close>, \<open>snd_pcm_hw_params\<close> for a request,
  \<open>snd_pcm_readi\<close> (the frame count or a negative error, and the samples), the datagrams waiting on the
  socket with the clock reading of each, and the clock reading of the expiry.\<close>

record audio_answers =
  pcm_open_err :: int
  hw_params_err :: "hw_request \<Rightarrow> int"
  readi_frames :: "u32 \<Rightarrow> int"
  readi_samples :: "16 word list"
  arrived :: "(sockaddr_in \<times> u32) list"
  expiry_now :: u32

definition open_capture :: "audio_answers \<Rightarrow> 'e audio_stream_server \<Rightarrow> bool \<times> 'e audio_stream_server" where
  "open_capture io s =
     (if pcm_open_err io < 0 then (False, s\<lparr>pcm := False\<rparr>)
      else if hw_params_err io (capture_request (config s)) < 0 then (False, s\<lparr>pcm := False\<rparr>)
      else (True, s\<lparr>pcm := True\<rparr>))"

definition close_capture :: "'e audio_stream_server \<Rightarrow> 'e audio_stream_server" where
  "close_capture s = s\<lparr>pcm := False\<rparr>"

text \<open>The destructor; the first component is the encoder given to \<open>opus_encoder_destroy\<close>.\<close>

definition audio_destroy :: "'e audio_stream_server \<Rightarrow> 'e \<times> 'e audio_stream_server" where
  "audio_destroy s =
     (let s1 = close_capture (audio_stop s)
      in (encoder s1, if sockfd s1 \<ge> 0 then s1\<lparr>sockfd := -1\<rparr> else s1))"

section \<open>Subscribers\<close>

definition register :: "sockaddr_in \<times> u32 \<Rightarrow> (u64 \<times> subscriber) list \<Rightarrow> (u64 \<times> subscriber) list" where
  "register d cs =
     (case d of (a, now) \<Rightarrow>
        if client_key a \<in> fst ` set cs
        then map (\<lambda>(k, c). (k, if k = client_key a then c\<lparr>last_seen_ms := now\<rparr> else c)) cs
        else cs @ [(client_key a, \<lparr>addr = a, last_seen_ms = now\<rparr>)])"

definition expired :: "audio_stream_config \<Rightarrow> u32 \<Rightarrow> subscriber \<Rightarrow> bool" where
  "expired cfg now c \<longleftrightarrow> now - last_seen_ms c \<ge> of_int (client_timeout_ms cfg)"

definition poll_clients :: "audio_answers \<Rightarrow> 'e audio_stream_server \<Rightarrow> 'e audio_stream_server" where
  "poll_clients io s =
     (let cs = fold register (arrived io) (subscribers s)
      in s\<lparr>subscribers := filter (\<lambda>(k, c). \<not> expired (config s) (expiry_now io) c) cs\<rparr>)"

definition broadcast :: "u8 list \<Rightarrow> 'e audio_stream_server \<Rightarrow> 'e audio_stream_server" where
  "broadcast payload s =
     (if subscribers s = [] \<or> length payload = 0 then s
      else if AUDIO_HEADER_BYTES + length payload > MAX_PACKET then s
      else
        let packet = put_be32 (sequence s) @ payload
        in s\<lparr>sequence := sequence s + 1,
             outbox := outbox s @ map (\<lambda>(k, c). (addr c, packet)) (subscribers s)\<rparr>)"

section \<open>The worker thread\<close>

text \<open>\<open>EPIPE\<close> is 32 on Linux.\<close>

definition EPIPE :: int where "EPIPE = 32"

text \<open>From the read on, with an open device.\<close>

definition stream_frame :: "'e opus \<Rightarrow> audio_answers \<Rightarrow> 'e audio_stream_server \<Rightarrow> 'e audio_stream_server" where
  "stream_frame op io s =
     (let frames = readi_frames io (frame_size s) in
      if frames = - EPIPE then s
      else if frames < 0 then close_capture s
      else
        let s1 = poll_clients io s;
            (encoded, e) = opus_encode op (encoder s1) (readi_samples io) frames MAX_PACKET;
            s2 = s1\<lparr>encoder := e\<rparr>
        in case encoded of Inl err \<Rightarrow> s2 | Inr payload \<Rightarrow> broadcast payload s2)"

definition audio_iteration :: "'e opus \<Rightarrow> audio_answers \<Rightarrow> 'e audio_stream_server \<Rightarrow> 'e audio_stream_server" where
  "audio_iteration op io s =
     (if \<not> pcm s then
        case open_capture io s of
          (False, s1) \<Rightarrow> poll_clients io (s1\<lparr>capture_was_open := False\<rparr>)
        | (True, s1) \<Rightarrow> stream_frame op io (s1\<lparr>capture_was_open := True\<rparr>)
      else stream_frame op io s)"

fun audio_work :: "'e opus \<Rightarrow> audio_answers list \<Rightarrow> 'e audio_stream_server \<Rightarrow> 'e audio_stream_server" where
  "audio_work op [] s = s"
| "audio_work op (io # ios) s = (if audio_running s then audio_work op ios (audio_iteration op io s) else s)"

section \<open>Addresses and keys\<close>

lemma client_key_parts:
  "ucast (drop_bit 16 (client_key a)) = s_addr a" "ucast (client_key a) = sin_port a"
  unfolding client_key_def
  by (auto intro!: bit_word_eqI simp: bit_simps) (auto dest: bit_imp_le_length)

text \<open>Two senders with different address or port never share an entry.\<close>

lemma client_key_inject [simp]: "client_key a = client_key b \<longleftrightarrow> a = b"
proof
  assume "client_key a = client_key b"
  then have "s_addr a = s_addr b" "sin_port a = sin_port b"
    using client_key_parts [of a] client_key_parts [of b] by simp_all
  then show "a = b" by simp
qed simp

section \<open>The subscriber table as a map\<close>

text \<open>When an address was last heard, for the addresses subscribed.\<close>

definition heard :: "(u64 \<times> subscriber) list \<Rightarrow> sockaddr_in \<Rightarrow> u32 option" where
  "heard cs a = map_option last_seen_ms (map_of cs (client_key a))"

definition table_ok :: "(u64 \<times> subscriber) list \<Rightarrow> bool" where
  "table_ok cs \<longleftrightarrow> distinct (map fst cs) \<and> (\<forall>(k, c) \<in> set cs. k = client_key (addr c))"

lemma table_ok_Nil [simp]: "table_ok []"
  by (simp add: table_ok_def)

lemma map_of_map_if:
  "map_of (map (\<lambda>(k, c). (k, if k = j then f c else c)) cs) k
   = (if k = j then map_option f (map_of cs k) else map_of cs k)"
  by (induction cs) auto

lemma heard_register: "heard (register (a, now) cs) = (heard cs)(a \<mapsto> now)"
proof (rule ext)
  fix b
  show "heard (register (a, now) cs) b = ((heard cs)(a \<mapsto> now)) b"
  proof (cases "client_key a \<in> fst ` set cs")
    case True
    then obtain c where "map_of cs (client_key a) = Some c"
      by (metis map_of_eq_None_iff not_None_eq)
    with True show ?thesis by (auto simp: heard_def register_def map_of_map_if)
  next
    case False
    then have "map_of cs (client_key a) = None" by (simp add: map_of_eq_None_iff)
    with False show ?thesis by (auto simp: heard_def register_def map_add_def split: option.splits)
  qed
qed

lemma map_fst_keep: "map (fst \<circ> (\<lambda>(k, c). (k, f k c))) cs = map fst cs"
  by (simp add: case_prod_unfold)

lemma register_table_ok:
  assumes "table_ok cs"
  shows "table_ok (register d cs)"
proof -
  obtain a now where d: "d = (a, now)" by fastforce
  show ?thesis using assms by (auto simp: table_ok_def register_def d map_fst_keep)
qed

lemma heard_filter:
  assumes "table_ok cs"
  shows "heard (filter (\<lambda>(k, c). P (last_seen_ms c)) cs) a
    = (case heard cs a of Some t \<Rightarrow> if P t then Some t else None | None \<Rightarrow> None)"
proof -
  have "distinct (map fst cs)" using assms by (simp add: table_ok_def)
  then have "map_of (filter (\<lambda>(k, c). P (last_seen_ms c)) cs) k
      = (case map_of cs k of Some c \<Rightarrow> if P (last_seen_ms c) then Some c else None | None \<Rightarrow> None)" for k
    by (induction cs) (auto simp: map_of_eq_None_iff split: option.splits dest: map_of_SomeD)
  then show ?thesis by (simp add: heard_def split: option.splits)
qed

lemma filter_table_ok: "table_ok cs \<Longrightarrow> table_ok (filter P cs)"
  by (auto simp: table_ok_def distinct_map_filter)

text \<open>What the stream relies on: a table that notes when an address was heard and drops the addresses whose time
  is too old behaves as a map. A sweep notes every waiting datagram and then drops.\<close>

locale timed_map =
  fixes mark :: "'a \<times> 't \<Rightarrow> 's \<Rightarrow> 's"
    and expire :: "('t \<Rightarrow> bool) \<Rightarrow> 's \<Rightarrow> 's"
    and last_heard :: "'s \<Rightarrow> 'a \<Rightarrow> 't option"
    and well_formed :: "'s \<Rightarrow> bool"
  assumes mark_heard: "last_heard (mark (a, t) s) = (last_heard s)(a \<mapsto> t)"
    and mark_ok: "well_formed s \<Longrightarrow> well_formed (mark d s)"
    and expire_heard: "well_formed s \<Longrightarrow> last_heard (expire old s) a
      = (case last_heard s a of Some t \<Rightarrow> if old t then None else Some t | None \<Rightarrow> None)"
    and expire_ok: "well_formed s \<Longrightarrow> well_formed (expire old s)"
begin

lemma marks_heard: "last_heard (fold mark ds s) = fold (\<lambda>(a, t) m. m(a \<mapsto> t)) ds (last_heard s)"
  by (induction ds arbitrary: s) (auto simp: mark_heard)

lemma marks_ok: "well_formed s \<Longrightarrow> well_formed (fold mark ds s)"
  by (induction ds arbitrary: s) (simp_all add: mark_ok)

lemma sweep_heard:
  "well_formed s \<Longrightarrow> last_heard (expire old (fold mark ds s)) a
   = (case fold (\<lambda>(a, t) m. m(a \<mapsto> t)) ds (last_heard s) a of Some t \<Rightarrow> if old t then None else Some t | None \<Rightarrow> None)"
  by (simp add: expire_heard marks_ok marks_heard)

lemma sweep_ok: "well_formed s \<Longrightarrow> well_formed (expire old (fold mark ds s))"
  by (simp add: expire_ok marks_ok)

end

interpretation table: timed_map register "\<lambda>old. filter (\<lambda>(k, c). \<not> old (last_seen_ms c))" heard table_ok
  by unfold_locales
    (auto simp: heard_register register_table_ok heard_filter [of _ "\<lambda>t. \<not> old t" for old] filter_table_ok split: option.splits)

text \<open>\<open>poll_clients\<close> is a sweep.\<close>

lemma poll_clients_sweep:
  "subscribers (poll_clients io s) = filter (\<lambda>(k, c). \<not> of_int (client_timeout_ms (config s)) \<le> expiry_now io - last_seen_ms c)
     (fold register (arrived io) (subscribers s))"
  by (simp add: poll_clients_def expired_def)

lemma poll_clients_table_ok: "table_ok (subscribers s) \<Longrightarrow> table_ok (subscribers (poll_clients io s))"
  unfolding poll_clients_sweep by (rule table.sweep_ok)

end
