(* ===== verification/Config.thy ===== *)
theory Config
  imports Audio_Stream Remote_Key_Server String_Util
begin

text \<open>
  The configuration: \<open>cwsd_config\<close> of \<open>src/cwsd.h\<close> and \<open>read_config\<close> of \<open>main.cpp\<close>. A YAML document is
  a tree of nodes with the operations of \<open>src/libs/node.hpp\<close> that \<open>read_config\<close> uses (keys that are not
  strings are left out: they match no key asked for); the text of the
  file is parsed by a parameter. A subscript with a missing key inserts and returns a null node there; every
  such node is then asked for a value, which throws, so the insertion is never seen.
\<close>

section \<open>YAML nodes\<close>

datatype node =
    Null_node
  | Bool_node bool
  | Int_node int
  | Float_node
  | String_node string
  | Sequence_node "node list"
  | Mapping_node "(string \<times> node) list"

text \<open>\<open>fkyaml::type_error\<close> and \<open>fkyaml::exception\<close> derive from \<open>std::exception\<close>.\<close>

abbreviation type_error :: "'a result" where
  "type_error \<equiv> Inl (Runtime_error ''type_error'')"

fun contains :: "string \<Rightarrow> node \<Rightarrow> bool" where
  "contains key (Mapping_node m) = (map_of m key \<noteq> None)"
| "contains key _ = False"

fun subscript :: "string \<Rightarrow> node \<Rightarrow> node result" where
  "subscript key (Mapping_node m) = Inr (case map_of m key of None \<Rightarrow> Null_node | Some n \<Rightarrow> n)"
| "subscript key _ = type_error"

fun get_bool :: "node \<Rightarrow> bool result" where
  "get_bool (Bool_node b) = Inr b"
| "get_bool _ = type_error"

fun get_string :: "node \<Rightarrow> string result" where
  "get_string (String_node s) = Inr s"
| "get_string _ = type_error"

text \<open>\<open>get_value<IntegerType>\<close> checks the range of the type.\<close>

fun get_range :: "int \<Rightarrow> int \<Rightarrow> node \<Rightarrow> int result" where
  "get_range lo hi (Int_node i) =
     (if i < lo \<or> hi < i then Inl (Runtime_error ''Integer value overflow detected.'') else Inr i)"
| "get_range lo hi _ = type_error"

definition get_int :: "node \<Rightarrow> int result" where
  "get_int = get_range (- (2 ^ 31)) (2 ^ 31 - 1)"

definition get_uint32 :: "node \<Rightarrow> u32 result" where
  "get_uint32 n = bind_result (get_range 0 (2 ^ 32 - 1) n) (\<lambda>i. Inr (of_int i))"

definition get_uint16 :: "node \<Rightarrow> u16 result" where
  "get_uint16 n = bind_result (get_range 0 (2 ^ 16 - 1) n) (\<lambda>i. Inr (of_int i))"

text \<open>\<open>n[key].get_value<T>()\<close>, and the same under a check with \<open>contains\<close>, which keeps a default.\<close>

definition field :: "(node \<Rightarrow> 'a result) \<Rightarrow> string \<Rightarrow> node \<Rightarrow> 'a result" where
  "field get key n = bind_result (subscript key n) get"

definition optional :: "(node \<Rightarrow> 'a result) \<Rightarrow> string \<Rightarrow> node \<Rightarrow> 'a \<Rightarrow> 'a result" where
  "optional get key n dflt = (if contains key n then field get key n else Inr dflt)"

section \<open>The configuration\<close>

record cwdaemon_config =
  cwd_enabled :: bool
  cwd_port :: int
  initial_wpm :: int

record rigctld_config =
  rigctld_enabled :: bool
  rigctld_port :: int

record rig_config =
  rig_port :: string
  model :: int
  rig_serial_speed :: int

record logging_config =
  filename :: string
  log_level :: string
  max_size :: u32

record cwsd_config =
  cwdaemon_cfg :: cwdaemon_config
  rigctld_cfg :: rigctld_config
  rig_cfg :: rig_config
  audio_cfg :: audio_stream_config
  remote_key_cfg :: remote_key_config
  logging_cfg :: logging_config

definition logging_default :: logging_config where
  "logging_default = \<lparr>filename = ''cwsd.log'', log_level = ''info'', max_size = 1048576\<rparr>"

section \<open>Reading the document\<close>

definition read_rig :: "node \<Rightarrow> rig_config result" where
  "read_rig root =
     bind_result (subscript ''rig'' root) (\<lambda>rig.
     bind_result (field get_int ''model'' rig) (\<lambda>m.
     bind_result (field get_string ''port'' rig) (\<lambda>p.
     bind_result (optional get_int ''serial_speed'' rig 0) (\<lambda>v.
     Inr \<lparr>rig_port = p, model = m, rig_serial_speed = v\<rparr>))))"

definition read_cwdaemon :: "node \<Rightarrow> cwdaemon_config result" where
  "read_cwdaemon root =
     bind_result (subscript ''cwdaemon'' root) (\<lambda>n.
     bind_result (field get_bool ''enabled'' n) (\<lambda>e.
     bind_result (field get_int ''port'' n) (\<lambda>p.
     bind_result (field get_int ''initial_wpm'' n) (\<lambda>w.
     Inr \<lparr>cwd_enabled = e, cwd_port = p, initial_wpm = w\<rparr>))))"

definition read_rigctld :: "node \<Rightarrow> rigctld_config result" where
  "read_rigctld root =
     bind_result (subscript ''rigctld'' root) (\<lambda>n.
     bind_result (field get_bool ''enabled'' n) (\<lambda>e.
     bind_result (field get_int ''port'' n) (\<lambda>p.
     Inr \<lparr>rigctld_enabled = e, rigctld_port = p\<rparr>)))"

definition read_audio :: "node \<Rightarrow> audio_stream_config result" where
  "read_audio root =
     (let d = audio_stream_config_default in
      if \<not> contains ''audio'' root then Inr d
      else
        bind_result (subscript ''audio'' root) (\<lambda>n.
        bind_result (field get_bool ''enabled'' n) (\<lambda>e.
        if \<not> e then Inr (d\<lparr>aud_enabled := False\<rparr>)
        else
          bind_result (field get_uint16 ''port'' n) (\<lambda>p.
          bind_result (optional get_string ''device'' n (aud_device d)) (\<lambda>dev.
          bind_result (optional get_uint32 ''sample_rate'' n (sample_rate d)) (\<lambda>sr.
          bind_result (optional get_int ''channels'' n (channels d)) (\<lambda>ch.
          bind_result (optional get_int ''bitrate'' n (bitrate d)) (\<lambda>br.
          bind_result (optional get_int ''frame_ms'' n (frame_ms d)) (\<lambda>fm.
          bind_result (optional get_int ''client_timeout_ms'' n (client_timeout_ms d)) (\<lambda>ct.
          bind_result (optional get_int ''fec_loss_perc'' n (fec_loss_perc d)) (\<lambda>fl.
          Inr \<lparr>aud_enabled = True, aud_device = dev, aud_port = p, sample_rate = sr, channels = ch,
               bitrate = br, frame_ms = fm, client_timeout_ms = ct, fec_loss_perc = fl\<rparr>)))))))))))"

definition read_remote_key :: "rig_config \<Rightarrow> node \<Rightarrow> remote_key_config result" where
  "read_remote_key rig root =
     (let d = remote_key_config_default in
      if \<not> contains ''remote_key'' root then Inr d
      else
        bind_result (subscript ''remote_key'' root) (\<lambda>n.
        bind_result (field get_bool ''enabled'' n) (\<lambda>e.
        if \<not> e then Inr (d\<lparr>rkc_enabled := False\<rparr>)
        else
          bind_result (field get_int ''port'' n) (\<lambda>p.
          bind_result (optional get_string ''device'' n (rig_port rig)) (\<lambda>dev.
          bind_result (optional get_uint32 ''playout_ms'' n (playout_ms d)) (\<lambda>po.
          bind_result (optional get_uint32 ''silence_ms'' n (silence_ms d)) (\<lambda>si.
          bind_result (optional get_uint32 ''max_key_down_ms'' n (max_key_down_ms d)) (\<lambda>mk.
          bind_result (optional get_uint32 ''ptt_lead_ms'' n (ptt_lead_ms d)) (\<lambda>pl.
          bind_result (optional get_uint32 ''ptt_tail_ms'' n (ptt_tail_ms d)) (\<lambda>pt.
          Inr \<lparr>rkc_enabled = True, rkc_port = p, rkc_device = dev, playout_ms = po, silence_ms = si,
               max_key_down_ms = mk, ptt_lead_ms = pl, ptt_tail_ms = pt\<rparr>))))))))))"

definition read_logging :: "node \<Rightarrow> logging_config result" where
  "read_logging root =
     (let d = logging_default in
      if \<not> contains ''logging'' root then Inr d
      else
        bind_result (subscript ''logging'' root) (\<lambda>n.
        bind_result (optional get_string ''level'' n (log_level d)) (\<lambda>l.
        bind_result (optional get_string ''filename'' n (filename d)) (\<lambda>f.
        bind_result (optional get_uint32 ''max_size'' n (max_size d)) (\<lambda>m.
        Inr \<lparr>filename = f, log_level = l, max_size = m\<rparr>)))))"

definition config_of_node :: "node \<Rightarrow> cwsd_config result" where
  "config_of_node root =
     bind_result (read_rig root) (\<lambda>rig.
     bind_result (read_cwdaemon root) (\<lambda>cwd.
     bind_result (read_rigctld root) (\<lambda>rct.
     bind_result (read_audio root) (\<lambda>aud.
     bind_result (read_remote_key rig root) (\<lambda>rk.
     bind_result (read_logging root) (\<lambda>lg.
     Inr \<lparr>cwdaemon_cfg = cwd, rigctld_cfg = rct, rig_cfg = rig, audio_cfg = aud, remote_key_cfg = rk,
          logging_cfg = lg\<rparr>))))))"

text \<open>\<open>read_config\<close>: \<open>home\<close> is the environment variable, \<open>files\<close> the readable files, and
  \<open>deserialize\<close> the YAML parser. Without \<open>HOME\<close> a string is made from a null pointer.\<close>

definition read_config ::
    "string option \<Rightarrow> (string \<Rightarrow> string option) \<Rightarrow> (string \<Rightarrow> node result) \<Rightarrow> string \<Rightarrow> cwsd_config result" where
  "read_config home files deserialize path0 =
     bind_result
       (if path0 \<noteq> [] \<and> hd path0 = CHR ''~''
        then case home of None \<Rightarrow> Inl Undefined_behaviour | Some h \<Rightarrow> Inr (h @ tl path0)
        else Inr path0)
       (\<lambda>path. case files path of
          None \<Rightarrow> Inl (Runtime_error (''could not find config file '' @ path))
        | Some content \<Rightarrow> bind_result (deserialize content) config_of_node)"

section \<open>Documents for configurations\<close>

text \<open>The document that says everything a configuration holds; sections of disabled servers say only
  that.\<close>

definition audio_node :: "audio_stream_config \<Rightarrow> node" where
  "audio_node c =
     Mapping_node (if \<not> aud_enabled c then [(''enabled'', Bool_node False)]
       else [(''enabled'', Bool_node True), (''port'', Int_node (uint (aud_port c))),
             (''device'', String_node (aud_device c)), (''sample_rate'', Int_node (uint (sample_rate c))),
             (''channels'', Int_node (channels c)), (''bitrate'', Int_node (bitrate c)),
             (''frame_ms'', Int_node (frame_ms c)), (''client_timeout_ms'', Int_node (client_timeout_ms c)),
             (''fec_loss_perc'', Int_node (fec_loss_perc c))])"

definition remote_key_node :: "remote_key_config \<Rightarrow> node" where
  "remote_key_node c =
     Mapping_node (if \<not> rkc_enabled c then [(''enabled'', Bool_node False)]
       else [(''enabled'', Bool_node True), (''port'', Int_node (rkc_port c)),
             (''device'', String_node (rkc_device c)), (''playout_ms'', Int_node (uint (playout_ms c))),
             (''silence_ms'', Int_node (uint (silence_ms c))),
             (''max_key_down_ms'', Int_node (uint (max_key_down_ms c))),
             (''ptt_lead_ms'', Int_node (uint (ptt_lead_ms c))),
             (''ptt_tail_ms'', Int_node (uint (ptt_tail_ms c)))])"

definition config_node :: "cwsd_config \<Rightarrow> node" where
  "config_node c =
     Mapping_node
       [(''rig'', Mapping_node [(''model'', Int_node (model (rig_cfg c))), (''port'', String_node (rig_port (rig_cfg c))),
           (''serial_speed'', Int_node (rig_serial_speed (rig_cfg c)))]),
        (''cwdaemon'', Mapping_node [(''enabled'', Bool_node (cwd_enabled (cwdaemon_cfg c))),
           (''port'', Int_node (cwd_port (cwdaemon_cfg c))), (''initial_wpm'', Int_node (initial_wpm (cwdaemon_cfg c)))]),
        (''rigctld'', Mapping_node [(''enabled'', Bool_node (rigctld_enabled (rigctld_cfg c))),
           (''port'', Int_node (rigctld_port (rigctld_cfg c)))]),
        (''audio'', audio_node (audio_cfg c)),
        (''remote_key'', remote_key_node (remote_key_cfg c)),
        (''logging'', Mapping_node [(''level'', String_node (log_level (logging_cfg c))),
           (''filename'', String_node (filename (logging_cfg c))), (''max_size'', Int_node (uint (max_size (logging_cfg c))))])]"

text \<open>The configurations that can be written down: numbers in the range of \<open>int\<close>, and a disabled
  server keeps its defaults.\<close>

abbreviation fits_int :: "int \<Rightarrow> bool" where
  "fits_int i \<equiv> - (2 ^ 31) \<le> i \<and> i < 2 ^ 31"

definition audio_config_ok :: "audio_stream_config \<Rightarrow> bool" where
  "audio_config_ok c \<longleftrightarrow>
     (if aud_enabled c then fits_int (channels c) \<and> fits_int (bitrate c) \<and> fits_int (frame_ms c)
        \<and> fits_int (client_timeout_ms c) \<and> fits_int (fec_loss_perc c)
      else c = audio_stream_config_default)"

definition remote_key_config_ok :: "remote_key_config \<Rightarrow> bool" where
  "remote_key_config_ok c \<longleftrightarrow>
     (if rkc_enabled c then fits_int (rkc_port c) else c = remote_key_config_default)"

definition config_ok :: "cwsd_config \<Rightarrow> bool" where
  "config_ok c \<longleftrightarrow> fits_int (model (rig_cfg c)) \<and> fits_int (rig_serial_speed (rig_cfg c))
     \<and> fits_int (cwd_port (cwdaemon_cfg c)) \<and> fits_int (initial_wpm (cwdaemon_cfg c))
     \<and> fits_int (rigctld_port (rigctld_cfg c)) \<and> audio_config_ok (audio_cfg c)
     \<and> remote_key_config_ok (remote_key_cfg c)"

named_theorems node_simps \<open>reading nodes\<close>

lemma get_int_Int [node_simps]: "get_int (Int_node i) = Inr i \<longleftrightarrow> fits_int i"
  by (auto simp: get_int_def)

lemma get_int_fits [node_simps]: "fits_int i \<Longrightarrow> get_int (Int_node i) = Inr i"
  by (auto simp: get_int_def)

lemma get_uint32_uint [node_simps]: "get_uint32 (Int_node (uint w)) = Inr w"
  using uint_lt2p [of w] by (simp add: get_uint32_def)

lemma get_uint16_uint [node_simps]: "get_uint16 (Int_node (uint w)) = Inr w"
  using uint_lt2p [of w] by (simp add: get_uint16_def)

lemma field_Mapping [node_simps]:
  "map_of m key = Some n \<Longrightarrow> field get key (Mapping_node m) = get n"
  by (simp add: field_def)

lemma optional_Mapping [node_simps]:
  "map_of m key = Some n \<Longrightarrow> optional get key (Mapping_node m) d = get n"
  by (simp add: optional_def field_def)

lemma read_audio_node:
  assumes "audio_config_ok c" "contains ''audio'' root" "subscript ''audio'' root = Inr (audio_node c)"
  shows "read_audio root = Inr c"
  using assms
  by (cases c) (auto simp: read_audio_def audio_node_def audio_config_ok_def node_simps Let_def
      audio_stream_config_default_def split: if_splits)

lemma read_remote_key_node:
  assumes "remote_key_config_ok c" "contains ''remote_key'' root"
    "subscript ''remote_key'' root = Inr (remote_key_node c)"
  shows "read_remote_key rig root = Inr c"
  using assms
  by (cases c) (auto simp: read_remote_key_def remote_key_node_def remote_key_config_ok_def node_simps Let_def
      remote_key_config_default_def split: if_splits)

lemma read_logging_node:
  assumes "contains ''logging'' root"
    "subscript ''logging'' root = Inr (Mapping_node [(''level'', String_node (log_level c)),
       (''filename'', String_node (filename c)), (''max_size'', Int_node (uint (max_size c)))])"
  shows "read_logging root = Inr c"
  using assms by (cases c) (simp add: read_logging_def node_simps Let_def)

lemma config_of_config_node:
  assumes "config_ok c"
  shows "config_of_node (config_node c) = Inr c"
proof -
  let ?root = "config_node c"
  have "read_rig ?root = Inr (rig_cfg c)" "read_cwdaemon ?root = Inr (cwdaemon_cfg c)"
    "read_rigctld ?root = Inr (rigctld_cfg c)"
    using assms by (simp_all add: config_ok_def config_node_def read_rig_def read_cwdaemon_def read_rigctld_def node_simps)
  moreover have "read_audio ?root = Inr (audio_cfg c)"
    using assms by (intro read_audio_node) (simp_all add: config_ok_def config_node_def)
  moreover have "read_remote_key (rig_cfg c) ?root = Inr (remote_key_cfg c)"
    using assms by (intro read_remote_key_node) (simp_all add: config_ok_def config_node_def)
  moreover have "read_logging ?root = Inr (logging_cfg c)"
    by (rule read_logging_node) (simp_all add: config_node_def)
  ultimately show ?thesis by (simp add: config_of_node_def)
qed

text \<open>
  (C36) Every setting reaches the program: reading the document that spells out a configuration gives
  that configuration, for every value of every setting that fits its type, whichever servers are
  enabled, with the path given as it is or relative to the home directory.
\<close>

theorem configuration_read_back:
  assumes "config_ok c" "deserialize content = Inr (config_node c)"
    and "files (h @ q) = Some content" "h @ q \<noteq> []" "hd (h @ q) \<noteq> CHR ''~''"
  shows "read_config (Some h) files deserialize (CHR ''~'' # q) = Inr c
       \<and> read_config home files deserialize (h @ q) = Inr c"
  using assms by (simp add: read_config_def config_of_config_node)

definition demo_config :: cwsd_config where
  "demo_config =
     \<lparr>cwdaemon_cfg = \<lparr>cwd_enabled = True, cwd_port = 6789, initial_wpm = 24\<rparr>,
      rigctld_cfg = \<lparr>rigctld_enabled = True, rigctld_port = 4532\<rparr>,
      rig_cfg = \<lparr>rig_port = ''/dev/ttyUSB0'', model = 3073, rig_serial_speed = 0\<rparr>,
      audio_cfg = audio_stream_config_default\<lparr>aud_enabled := True, aud_port := 7355\<rparr>,
      remote_key_cfg = remote_key_config_default\<lparr>rkc_enabled := True, rkc_port := 7356,
        rkc_device := ''/dev/ttyUSB0''\<rparr>,
      logging_cfg = logging_default\<rparr>"

theorem configuration_read_back_witness:
  "read_config (Some ''/root'') [''/root/.config/cwsdrc'' \<mapsto> ''text''] (\<lambda>_. Inr (config_node demo_config))
     ''~/.config/cwsdrc'' = Inr demo_config"
proof -
  have "config_ok demo_config"
    by (simp add: config_ok_def demo_config_def audio_config_ok_def remote_key_config_ok_def
        audio_stream_config_default_def)
  then show ?thesis
    using configuration_read_back [of demo_config "\<lambda>_. Inr (config_node demo_config)" "''text''"
        "[''/root/.config/cwsdrc'' \<mapsto> ''text'']" "''/root''" "''/.config/cwsdrc''"] by simp
qed

end
