(* ===== verification/Logging.thy ===== *)
theory Logging
  imports String_Util
begin

text \<open>
  The logging of \<open>main.cpp\<close>: the level of the configuration, which levels it enables, the
  rotation of the log files and the version string. Files are a map from paths to contents.
\<close>

section \<open>Levels\<close>

text \<open>\<open>el::Level\<close>.\<close>

datatype level =
  Global | Trace | Debug | Fatal | Error | Warning | Verbose | Info | Unknown

definition tolower :: "char \<Rightarrow> char" where
  "tolower c = (if 65 \<le> (of_char c :: nat) \<and> (of_char c :: nat) \<le> 90 then char_of ((of_char c :: nat) + 32) else c)"

definition to_logging_level :: "string \<Rightarrow> level" where
  "to_logging_level level_as_str =
     (let s = map tolower level_as_str in
      if s = ''info'' then Info
      else if s = ''debug'' then Debug
      else if s = ''error'' then Error
      else if s = ''warning'' then Warning
      else Info)"

fun severity_of :: "level \<Rightarrow> int" where
  "severity_of Trace = 0"
| "severity_of Debug = 1"
| "severity_of Verbose = 1"
| "severity_of Info = 2"
| "severity_of Warning = 3"
| "severity_of Error = 4"
| "severity_of Fatal = 5"
| "severity_of _ = 2"

section \<open>Configuration of the loggers\<close>

record log_conf =
  conf_format :: string
  conf_filename :: string
  conf_max_size :: string
  conf_enabled :: "level \<Rightarrow> bool"

definition enable :: "int \<Rightarrow> level \<Rightarrow> log_conf \<Rightarrow> log_conf" where
  "enable threshold l conf =
     conf\<lparr>conf_enabled := (conf_enabled conf)(l := (severity_of l \<ge> threshold))\<rparr>"

text \<open>\<open>configure_logging\<close>, from the library's default configuration: the configuration of the loggers
  and the two lines written first.\<close>

definition configure_logging :: "log_conf \<Rightarrow> string \<Rightarrow> level \<Rightarrow> string \<Rightarrow> string \<Rightarrow> log_conf \<times> string list" where
  "configure_logging defaults version lvl filename max_file_size =
     (let conf = defaults\<lparr>conf_format := ''%datetime %level %msg'', conf_filename := filename,
                          conf_max_size := max_file_size\<rparr>;
          threshold = severity_of lvl
      in (fold (enable threshold) [Trace, Debug, Verbose, Info, Warning, Error, Fatal] conf,
          [replicate 92 (CHR ''-''), ''starting cwsd v'' @ version]))"

text \<open>The version, from what the build generates: version, distance from the tag, hash, and whether
  the tree was modified.\<close>

definition cwsd_version_string :: "string \<Rightarrow> int \<Rightarrow> string \<Rightarrow> bool \<Rightarrow> string" where
  "cwsd_version_string version distance shorthash dirty =
     version @ (if distance > 0 then to_string distance else []) @ '' ('' @ shorthash
       @ (if dirty then ''-dirty'' else []) @ '')''"

lemma configured_levels:
  "conf_enabled (fst (configure_logging defaults v (to_logging_level s) f m)) l
   = (if l \<in> {Global, Unknown} then conf_enabled defaults l
      else severity_of (to_logging_level s) \<le> severity_of l)"
  by (cases l) (simp_all add: configure_logging_def enable_def Let_def)

section \<open>Log rotation\<close>

type_synonym files = "string \<Rightarrow> string option"

text \<open>\<open>rename\<close>: fails without effect when there is no such file, and replaces the target otherwise.\<close>

definition rename :: "string \<Rightarrow> string \<Rightarrow> files \<Rightarrow> files" where
  "rename older newer fs =
     (case fs older of
        None \<Rightarrow> fs
      | Some content \<Rightarrow> if older = newer then fs else fs(older := None, newer \<mapsto> content))"

definition log_slot :: "string \<Rightarrow> nat \<Rightarrow> string" where
  "log_slot full_path i = full_path @ ''.'' @ [char_of (48 + i)]"

definition pre_rollout_callback :: "string \<Rightarrow> files \<Rightarrow> files" where
  "pre_rollout_callback full_path fs =
     rename full_path (log_slot full_path 1)
       (fold (\<lambda>i. rename (log_slot full_path (i - 1)) (log_slot full_path i)) (rev [1..<10]) fs)"

lemma rename_alt:
  "older \<noteq> newer \<Longrightarrow> rename older newer fs
     = fs(newer := (case fs older of None \<Rightarrow> fs newer | Some c \<Rightarrow> Some c), older := None)"
  by (auto simp: rename_def fun_eq_iff split: option.splits)

lemma log_slot_inject [simp]:
  assumes "i < 10" "j < 10"
  shows "log_slot p i = log_slot p j \<longleftrightarrow> i = j"
proof -
  have "(of_char (char_of (48 + k :: nat)) :: nat) = 48 + k" if "k < 10" for k
    using that by (simp add: take_bit_eq_mod)
  then have "char_of (48 + i) = (char_of (48 + j) :: char) \<Longrightarrow> i = j"
    using assms by (metis add_left_cancel)
  then show ?thesis by (auto simp: log_slot_def)
qed

lemma log_slot_not_path [simp]: "log_slot p i \<noteq> p" "p \<noteq> log_slot p i"
  by (auto simp: log_slot_def)

text \<open>The loop moves every slot up by one, from the highest number \<open>n\<close> down.\<close>

definition or_else :: "'a option \<Rightarrow> 'a option \<Rightarrow> 'a option" where
  "or_else a b = (case a of None \<Rightarrow> b | Some c \<Rightarrow> Some c)"

lemma or_else_None [simp]: "or_else None b = b" "or_else a None = a"
  by (simp_all add: or_else_def split: option.splits)

definition shift_slots :: "string \<Rightarrow> nat \<Rightarrow> files \<Rightarrow> files" where
  "shift_slots p n = fold (\<lambda>i. rename (log_slot p (i - 1)) (log_slot p i)) (rev [1..<Suc n])"

lemma shift_slots_rec:
  assumes "0 < n" "n < 10"
  shows "shift_slots p n fs
    = shift_slots p (n - 1) (fs(log_slot p n := or_else (fs (log_slot p (n - 1))) (fs (log_slot p n)), log_slot p (n - 1) := None))"
  using assms by (cases n) (simp_all add: shift_slots_def rename_alt or_else_def)

lemma shift_slots_values:
  assumes "0 < n" "n < 10"
  shows "shift_slots p n fs (log_slot p n) = or_else (fs (log_slot p (n - 1))) (fs (log_slot p n))
    \<and> (\<forall>i. 0 < i \<and> i < n \<longrightarrow> shift_slots p n fs (log_slot p i) = fs (log_slot p (i - 1)))
    \<and> shift_slots p n fs (log_slot p 0) = None
    \<and> (\<forall>q. (\<forall>i \<le> n. q \<noteq> log_slot p i) \<longrightarrow> shift_slots p n fs q = fs q)"
  using assms
proof (induction n arbitrary: fs)
  case (Suc n)
  define f where "f = fs(log_slot p (Suc n) := or_else (fs (log_slot p n)) (fs (log_slot p (Suc n))), log_slot p n := None)"
  have r: "shift_slots p (Suc n) fs = shift_slots p n f"
    using shift_slots_rec [OF Suc.prems, of p fs] by (simp add: f_def)
  have f: "f (log_slot p (Suc n)) = or_else (fs (log_slot p n)) (fs (log_slot p (Suc n)))" "f (log_slot p n) = None"
    "\<And>i. i < n \<Longrightarrow> f (log_slot p i) = fs (log_slot p i)"
    "\<And>q. q \<noteq> log_slot p n \<Longrightarrow> q \<noteq> log_slot p (Suc n) \<Longrightarrow> f q = fs q"
    using Suc.prems by (simp_all add: f_def)
  show ?case
  proof (cases "n = 0")
    case True
    then have "shift_slots p n f = f" by (simp add: shift_slots_def)
    then show ?thesis using f True r by (auto simp: le_Suc_eq)
  next
    case False
    then have IH: "shift_slots p n f (log_slot p n) = fs (log_slot p (n - 1))"
      "\<And>i. 0 < i \<Longrightarrow> i < n \<Longrightarrow> shift_slots p n f (log_slot p i) = fs (log_slot p (i - 1))"
      "shift_slots p n f (log_slot p 0) = None"
      "\<And>q. \<forall>i \<le> n. q \<noteq> log_slot p i \<Longrightarrow> shift_slots p n f q = f q"
      using Suc.IH [of f] Suc.prems f by simp_all
    have "shift_slots p n f (log_slot p (Suc n)) = or_else (fs (log_slot p n)) (fs (log_slot p (Suc n)))"
      using IH(4) [of "log_slot p (Suc n)"] f(1) Suc.prems by simp
    then show ?thesis
      using IH f(4) by (auto simp: r less_Suc_eq le_Suc_eq)
  qed
qed simp

text \<open>
  (C38) Rotating the log files keeps the order and loses only the oldest: the current file becomes number
  1, each of the numbers 1 to 7 moves up by one, number 8 replaces number 9, and if it was
  missing number 9 stays; no other file is touched. Number 0, which the rotation never makes, is
  only used for number 1 when there is no current file.
\<close>

theorem rotation_shifts:
  assumes "fs' = pre_rollout_callback p fs"
  shows "fs' p = None \<and> fs' (log_slot p 0) = None
    \<and> fs' (log_slot p 1) = (case fs p of None \<Rightarrow> fs (log_slot p 0) | Some c \<Rightarrow> Some c)
    \<and> (\<forall>i. 1 \<le> i \<and> i \<le> 7 \<longrightarrow> fs' (log_slot p (i + 1)) = fs (log_slot p i))
    \<and> fs' (log_slot p 9) = (case fs (log_slot p 8) of None \<Rightarrow> fs (log_slot p 9) | Some c \<Rightarrow> Some c)
    \<and> (\<forall>q. q \<noteq> p \<and> (\<forall>i < 10. q \<noteq> log_slot p i) \<longrightarrow> fs' q = fs q)"
proof -
  have fs': "fs' = (shift_slots p 9 fs)(log_slot p 1 := or_else (shift_slots p 9 fs p) (shift_slots p 9 fs (log_slot p 1)), p := None)"
    using assms by (simp add: pre_rollout_callback_def shift_slots_def rename_alt or_else_def)
  have v: "shift_slots p 9 fs (log_slot p 9) = or_else (fs (log_slot p 8)) (fs (log_slot p 9))"
    "\<And>i. 0 < i \<Longrightarrow> i < 9 \<Longrightarrow> shift_slots p 9 fs (log_slot p i) = fs (log_slot p (i - 1))"
    "shift_slots p 9 fs (log_slot p 0) = None"
    "\<And>q. \<forall>i \<le> 9. q \<noteq> log_slot p i \<Longrightarrow> shift_slots p 9 fs q = fs q"
    using shift_slots_values [of 9 p fs] by simp_all
  have "fs' (log_slot p (i + 1)) = fs (log_slot p i)" if "1 \<le> i" "i \<le> 7" for i
    using that v(2) [of "i + 1"] by (simp add: fs')
  moreover have "fs' q = fs q" if "q \<noteq> p" "\<forall>i < 10. q \<noteq> log_slot p i" for q
    using that v(4) [of q] by (simp add: fs')
  ultimately show ?thesis
    using v(1,3) v(2) [of 1] v(4) [of p] by (simp add: fs' or_else_def)
qed

theorem rotation_shifts_witness:
  "pre_rollout_callback ''l'' [''l'' \<mapsto> ''new'', ''l.1'' \<mapsto> ''old''] ''l.2'' = Some ''old''"
proof -
  let ?fs = "[''l'' \<mapsto> ''new'', ''l.1'' \<mapsto> ''old'']"
  have s: "log_slot ''l'' 1 = ''l.1''" "log_slot ''l'' 2 = ''l.2''" by (simp_all only: log_slot_def) code_simp+
  have "pre_rollout_callback ''l'' ?fs (log_slot ''l'' (1 + 1)) = ?fs (log_slot ''l'' 1)"
    using rotation_shifts [of _ "''l''" ?fs] by (meson le_numeral_extra(4) one_le_numeral)
  then show ?thesis by (simp only: s one_add_one) simp
qed

end
