(* ===== verification/Cwdaemon_Client.thy ===== *)
theory Cwdaemon_Client
  imports Cwdaemon_Server
begin

text \<open>
  The client thread of the CW daemon (\<open>client_worker\<close> of \<open>src/cwdaemon_server.cpp\<close>) in the steps in which it
  touches the keyer. The keyer is locked for one byte at a time, so that ticks of the keyer thread fall
  between the bytes of a message; \<open>ct_acts\<close> is what is left of the current pass. Run without interruption
  the steps are exactly \<open>client_iteration\<close>.
\<close>

section \<open>Steps\<close>

datatype client_act = Feed u8 | Check_time

record client_thread =
  ct_acts :: "client_act list"
  ct_tuning :: bool
  ct_tune_end :: u32

definition client_thread_new :: client_thread where
  "client_thread_new = \<lparr>ct_acts = [], ct_tuning = False, ct_tune_end = 0\<rparr>"

definition key_off :: "client_act list" where
  "key_off = [Feed 0x0B, Feed 0x00]"

text \<open>From the message to the bytes that have to be fed; the flag is false when the loop is left.\<close>

definition client_message :: "u32 \<Rightarrow> u8 list \<Rightarrow> keyer \<Rightarrow> client_thread \<Rightarrow> (bool \<times> client_thread) result" where
  "client_message now m k c =
     bind_result (undefined_if_none (Option.bind (get_speed k) to_u8)) (\<lambda>speed.
       if is_exit_cmd m then Inr (False, c)
       else if ct_tuning c \<and> is_abort_send_cmd m
       then Inr (True, c\<lparr>ct_acts := key_off, ct_tuning := False\<rparr>)
       else bind_result (to_winkeyer m speed) (\<lambda>wk_data.
         Inr (True,
              if is_tuning_command wk_data
              then c\<lparr>ct_acts := map Feed (butlast wk_data) @ [Check_time], ct_tuning := True,
                     ct_tune_end := now + 1000 * ucast (last wk_data)\<rparr>
              else c\<lparr>ct_acts := map Feed wk_data @ [Check_time]\<rparr>)))"

text \<open>One step inside a pass.\<close>

fun client_act_step :: "u32 \<Rightarrow> client_act \<Rightarrow> client_act list \<Rightarrow> keyer \<Rightarrow> client_thread \<Rightarrow> (keyer \<times> client_thread) result" where
  "client_act_step now (Feed b) rest k c =
     bind_result (undefined_if_none (winkeyer_data b k)) (\<lambda>k'. Inr (k', c\<lparr>ct_acts := rest\<rparr>))"
| "client_act_step now Check_time rest k c =
     Inr (k, if ct_tuning c \<and> now > ct_tune_end c
             then c\<lparr>ct_acts := key_off @ rest, ct_tuning := False\<rparr>
             else c\<lparr>ct_acts := rest\<rparr>)"

text \<open>The head of the loop: the flag is read, and a message is waited for.\<close>

definition client_head :: "bool \<Rightarrow> u8 list option \<Rightarrow> u32 \<Rightarrow> keyer \<Rightarrow> client_thread \<Rightarrow> (bool \<times> client_thread) result" where
  "client_head is_running received now k c =
     (if \<not> is_running then Inr (False, c)
      else case received of
             None \<Rightarrow> Inr (True, c\<lparr>ct_acts := [Check_time]\<rparr>)
           | Some m \<Rightarrow> client_message now m k c)"

section \<open>A pass without interruption\<close>

definition act_weight :: "client_act \<Rightarrow> nat" where
  "act_weight a = (case a of Feed _ \<Rightarrow> 1 | Check_time \<Rightarrow> 3)"

text \<open>The weight of what is left bounds the steps to the head of the loop.\<close>

definition client_work :: "client_thread \<Rightarrow> nat" where
  "client_work c = sum_list (map act_weight (ct_acts c))"

lemma client_act_step_work:
  "client_act_step now a rest k c = Inr (k', c') \<Longrightarrow> ct_acts c = a # rest \<Longrightarrow> client_work c' < client_work c"
  by (cases a) (auto simp: bind_result_Inr_iff client_work_def act_weight_def key_off_def split: if_splits)

function client_finish :: "u32 \<Rightarrow> keyer \<Rightarrow> client_thread \<Rightarrow> (keyer \<times> client_thread) result" where
  "client_finish now k c =
     (case ct_acts c of
        [] \<Rightarrow> Inr (k, c)
      | a # rest \<Rightarrow> bind_result (client_act_step now a rest k c) (\<lambda>(k', c'). client_finish now k' c'))"
  by auto

termination
  by (relation "measure (\<lambda>(now, k, c). client_work c)") (auto dest: client_act_step_work)

declare client_finish.simps [simp del]

lemma client_finish_done [simp]: "ct_acts c = [] \<Longrightarrow> client_finish now k c = Inr (k, c)"
  by (simp add: client_finish.simps)

lemma client_finish_feed:
  "ct_acts c = map Feed bs @ rest \<Longrightarrow>
   client_finish now k c = bind_result (undefined_if_none (feed bs k)) (\<lambda>k'. client_finish now k' (c\<lparr>ct_acts := rest\<rparr>))"
proof (induction bs arbitrary: k c)
  case Nil
  then have "c\<lparr>ct_acts := rest\<rparr> = c" by simp
  then show ?case by (simp add: undefined_if_none_def)
next
  case (Cons b bs)
  show ?case
  proof (cases "winkeyer_data b k")
    case None
    then show ?thesis using Cons.prems by (subst client_finish.simps) (simp add: undefined_if_none_def)
  next
    case (Some k1)
    then have "client_finish now k c = client_finish now k1 (c\<lparr>ct_acts := map Feed bs @ rest\<rparr>)"
      using Cons.prems by (subst client_finish.simps) (simp add: undefined_if_none_def)
    then show ?thesis using Some Cons.IH [of "c\<lparr>ct_acts := map Feed bs @ rest\<rparr>" k1] by simp
  qed
qed

text \<open>The local variables of a pass as the iteration has them.\<close>

definition thread_of :: "client_state \<Rightarrow> client_thread" where
  "thread_of s = \<lparr>ct_acts = [], ct_tuning = is_tuning s, ct_tune_end = tune_end_time s\<rparr>"

definition state_of :: "keyer \<Rightarrow> client_thread \<Rightarrow> client_state" where
  "state_of k c = \<lparr>wk = k, is_tuning = ct_tuning c, tune_end_time = ct_tune_end c\<rparr>"

lemma client_finish_check:
  assumes "ct_acts c = [Check_time]"
  shows "bind_result (client_finish now k c) (\<lambda>(k', c'). Inr (True, state_of k' c'))
    = bind_result (check_tune_time now (state_of k c)) (\<lambda>s. Inr (True, s))"
proof (cases "ct_tuning c \<and> now > ct_tune_end c")
  case True
  let ?c = "c\<lparr>ct_acts := key_off, ct_tuning := False\<rparr>"
  have "client_finish now k c = client_finish now k ?c"
    using assms True by (subst client_finish.simps) simp
  also have "\<dots> = bind_result (undefined_if_none (feed [0x0B, 0x00] k)) (\<lambda>k'. Inr (k', ?c\<lparr>ct_acts := []\<rparr>))"
    using client_finish_feed [of ?c "[0x0B, 0x00]" "[]" now k] by (simp add: key_off_def)
  finally show ?thesis
    using True
    by (cases "feed [0x0B, 0x00] k") (auto simp: check_tune_time_def stop_tuning_def state_of_def undefined_if_none_def)
next
  case False
  then have "client_finish now k c = Inr (k, c\<lparr>ct_acts := []\<rparr>)"
    using assms by (subst client_finish.simps) auto
  then show ?thesis using False by (auto simp: check_tune_time_def state_of_def)
qed

lemma client_finish_message:
  assumes "ct_acts c = map Feed bs @ [Check_time]"
  shows "bind_result (client_finish now k c) (\<lambda>(k', c'). Inr (True, state_of k' c'))
    = bind_result (undefined_if_none (feed bs k)) (\<lambda>k'.
        bind_result (check_tune_time now (state_of k' c)) (\<lambda>s. Inr (True, s)))"
  using assms client_finish_check [of "c\<lparr>ct_acts := [Check_time]\<rparr>" now]
  by (cases "feed bs k") (simp_all add: client_finish_feed undefined_if_none_def state_of_def)

text \<open>
  Nothing is lost by cutting a pass into steps: a pass that is not interrupted, from the head of the loop to the
  end of its steps, is the iteration of the client thread, errors included.
\<close>

theorem client_steps_are_iteration:
  "client_iteration received now1 now2 s =
     bind_result (client_head True received now1 (wk s) (thread_of s)) (\<lambda>(go, c).
     bind_result (client_finish now2 (wk s) c) (\<lambda>(k, c'). Inr (go, state_of k c')))"
proof (cases received)
  case None
  have "state_of (wk s) ((thread_of s)\<lparr>ct_acts := [Check_time]\<rparr>) = s" by (simp add: state_of_def thread_of_def)
  then show ?thesis
    using None client_finish_check [of "(thread_of s)\<lparr>ct_acts := [Check_time]\<rparr>" now2 "wk s"]
    by (simp add: client_iteration_def client_head_def)
next
  case (Some m)
  show ?thesis
  proof (cases "Option.bind (get_speed (wk s)) to_u8")
    case None
    then show ?thesis using Some by (simp add: client_iteration_def client_head_def handle_message_def client_message_def undefined_if_none_def)
  next
    case (Some speed)
    have abort: "bind_result (client_finish now2 (wk s) ((thread_of s)\<lparr>ct_acts := key_off, ct_tuning := False\<rparr>))
        (\<lambda>(k, c'). Inr (True, state_of k c')) = bind_result (stop_tuning s) (\<lambda>s'. Inr (True, s'))"
      using client_finish_feed [of "(thread_of s)\<lparr>ct_acts := key_off, ct_tuning := False\<rparr>" "[0x0B, 0x00]" "[]" now2 "wk s"]
      by (cases "feed [0x0B, 0x00] (wk s)")
        (auto simp: key_off_def stop_tuning_def undefined_if_none_def state_of_def thread_of_def)
    have locals: "ct_tuning (thread_of s) = is_tuning s"
      "state_of k ((thread_of s)\<lparr>ct_acts := xs\<rparr>) = s\<lparr>wk := k\<rparr>"
      "state_of k ((thread_of s)\<lparr>ct_acts := xs, ct_tuning := True, ct_tune_end := e\<rparr>)
         = s\<lparr>is_tuning := True, tune_end_time := e, wk := k\<rparr>"
      "state_of (wk s) (thread_of s) = s" "ct_acts (thread_of s) = []" for k xs e
      by (simp_all add: state_of_def thread_of_def)
    show ?thesis
      using Some \<open>received = Some m\<close> abort
      by (cases "to_winkeyer m speed")
        (simp_all add: client_iteration_def client_head_def handle_message_def client_message_def undefined_if_none_def
          client_finish_message locals bind_result_assoc Let_def)
  qed
qed

end
