(* ===== verification/Cwsd.thy ===== *)
theory Cwsd
  imports Config Logging Rig_Server Cwdaemon_Client
begin

text \<open>
  The program: \<open>main\<close>, its arguments and \<open>daemonize\<close> of \<open>main.cpp\<close>, and the class \<open>cwsd\<close> of
  \<open>src/cwsd.{h,cpp}\<close>, which starts the enabled servers, waits for a signal and stops them. What the
  operating system answers to the constructors is an argument.
\<close>

section \<open>Arguments\<close>

text \<open>A process that has ended with an exit code and the lines it printed last, one that was taken down by
  an error nothing catches, or one that goes on.\<close>

datatype 'a process = Exits int "string list" | Dies cpp_error | Runs 'a

record proc =
  cwd :: string
  creation_mask :: nat
  open_fds :: "int set"
  config_path :: string

text \<open>\<open>fork\<close>, \<open>setsid\<close>, \<open>fork\<close> and \<open>sysconf\<close>.\<close>

record fork_answers =
  first_fork :: int
  session :: int
  second_fork :: int
  open_max :: int

definition daemonize :: "fork_answers \<Rightarrow> proc \<Rightarrow> proc process" where
  "daemonize a p =
     (if first_fork a < 0 then Exits 1 []
      else if first_fork a > 0 then Exits 0 []
      else if session a < 0 then Exits 1 []
      else if second_fork a < 0 then Exits 1 []
      else if second_fork a > 0 then Exits 0 []
      else Runs (p\<lparr>creation_mask := 0, cwd := ''/'', open_fds := open_fds p - {0..open_max a}\<rparr>))"

definition usage :: "string list" where
  "usage =
     [''Usage: cwsd [options]'',
      ''  -c, --config <path>   config file (default: ~/.config/cwsdrc)'',
      ''  -d                    daemonize (double-fork)'',
      ''      --version         print version and exit'',
      ''  -h, --help            show this help'']"

text \<open>The loop over the arguments; \<open>usage\<close> ends the process with a failure.\<close>

fun parse_args :: "string \<Rightarrow> fork_answers \<Rightarrow> string list \<Rightarrow> proc \<Rightarrow> proc process" where
  "parse_args version a [] p = Runs p"
| "parse_args version a (arg # args) p =
     (if arg = ''-d'' then
        (case daemonize a p of Runs p' \<Rightarrow> parse_args version a args p' | e \<Rightarrow> e)
      else if arg = ''--version'' then Exits 0 [''cwsd v'' @ version]
      else if arg = ''-c'' \<or> arg = ''--config'' then
        (case args of
           [] \<Rightarrow> Exits 1 [arg @ '' requires a path argument'']
         | path # rest \<Rightarrow> parse_args version a rest (p\<lparr>config_path := path\<rparr>))
      else if arg = ''-h'' \<or> arg = ''--help'' then Exits 1 usage
      else Exits 1 ((''unknown argument: '' @ arg) # usage))"

section \<open>The servers\<close>

record cwdaemon_server =
  cw_thread :: keyer_thread
  cw_client :: client_thread
  cw_udp :: udp_server
  cw_running :: bool

record ('r, 'e) cwsd =
  rigctld :: "'r rigctld_server option"
  cwdaemon :: "cwdaemon_server option"
  audio :: "'e audio_stream_server option"
  remote_key :: "(rk \<times> bool) option"
  main_running :: bool

text \<open>The answers to the system calls of the constructors.\<close>

record boot_answers =
  rig_socket :: int
  rig_bind :: int
  rig_listen :: int
  cw_socket :: int
  cw_setsockopt :: int
  cw_bind :: int
  cw_garbage :: "u8 list"
  audio_socket :: int
  audio_bind :: int
  rk_socket :: int
  rk_bind :: int

definition start_rigctld :: "boot_answers \<Rightarrow> cwsd_config \<Rightarrow> 'r rigctld_server result" where
  "start_rigctld b cfg =
     start_listener (rig_socket b) (rig_bind b) (rig_listen b)
       (rigctld_server_new (rig_port (rig_cfg cfg)) (model (rig_cfg cfg)) (of_int (rigctld_port (rigctld_cfg cfg)))
          (rig_serial_speed (rig_cfg cfg)) (rig_socket b))"

definition start_cwdaemon :: "hw_env \<Rightarrow> boot_answers \<Rightarrow> cwsd_config \<Rightarrow> cwdaemon_server result" where
  "start_cwdaemon E b cfg =
     bind_result (undefined_if_none (cwdaemon_server_new E (initial_wpm (cwdaemon_cfg cfg)))) (\<lambda>k.
     bind_result (udp_server_new (cw_socket b) (cw_setsockopt b) (cw_bind b) (cw_garbage b)) (\<lambda>u.
     Inr \<lparr>cw_thread = \<lparr>kt_keyer = k, kt_iface = key_interface_new, iface_check_divider = 0\<rparr>,
          cw_client = client_thread_new, cw_udp = u, cw_running = True\<rparr>))"

definition remote_key_server_new :: "boot_answers \<Rightarrow> remote_key_config \<Rightarrow> (rk \<times> bool) result" where
  "remote_key_server_new b c =
     (if rk_socket b < 0 then Inl (Runtime_error ''remote_key: socket creation failed'')
      else if rk_bind b < 0 then Inl (Runtime_error ''remote_key: bind failed'')
      else Inr (((rks_init c)\<lparr>rk_sockfd := rk_socket b\<rparr>, replay_init), True))"

definition cwsd_zero :: "('r, 'e) cwsd" where
  "cwsd_zero = \<lparr>rigctld = None, cwdaemon = None, audio = None, remote_key = None, main_running = False\<rparr>"

text \<open>One server of the constructor: nothing when it is disabled; the exception and what was started
  so far when its constructor throws.\<close>

definition start_if :: "bool \<Rightarrow> 'v result \<Rightarrow> ('v \<Rightarrow> ('r, 'e) cwsd \<Rightarrow> ('r, 'e) cwsd)
    \<Rightarrow> cpp_error option \<times> ('r, 'e) cwsd \<Rightarrow> cpp_error option \<times> ('r, 'e) cwsd" where
  "start_if on r store es =
     (case es of
        (Some e, s) \<Rightarrow> (Some e, s)
      | (None, s) \<Rightarrow>
          if \<not> on then (None, s)
          else case r of Inl e \<Rightarrow> (Some e, s) | Inr v \<Rightarrow> (None, store v s))"

definition cwsd_new :: "'e opus \<Rightarrow> hw_env \<Rightarrow> boot_answers \<Rightarrow> cwsd_config \<Rightarrow> cpp_error option \<times> ('r, 'e) cwsd" where
  "cwsd_new op E b cfg =
     start_if (rkc_enabled (remote_key_cfg cfg)) (remote_key_server_new b (remote_key_cfg cfg))
         (\<lambda>v s. s\<lparr>remote_key := Some v\<rparr>)
       (start_if (aud_enabled (audio_cfg cfg)) (audio_stream_server_new op (audio_socket b) (audio_bind b) (audio_cfg cfg))
           (\<lambda>v s. s\<lparr>audio := Some v\<rparr>)
         (start_if (cwd_enabled (cwdaemon_cfg cfg)) (start_cwdaemon E b cfg) (\<lambda>v s. s\<lparr>cwdaemon := Some v\<rparr>)
           (start_if (rigctld_enabled (rigctld_cfg cfg)) (start_rigctld b cfg) (\<lambda>v s. s\<lparr>rigctld := Some v\<rparr>)
             (None, cwsd_zero))))"

definition signal_handler :: "('r, 'e) cwsd \<Rightarrow> ('r, 'e) cwsd" where
  "signal_handler s = s\<lparr>main_running := False\<rparr>"

text \<open>The signals the handler is installed for: SIGINT, SIGKILL and SIGTERM are asked for, and the system
  refuses SIGKILL (as it does SIGSTOP).\<close>

definition sigaction :: "int \<Rightarrow> int set \<Rightarrow> int set" where
  "sigaction sig handled = (if sig \<in> {9, 19} then handled else insert sig handled)"

definition initialize_signal_handler :: "int set \<Rightarrow> int set" where
  "initialize_signal_handler handled = sigaction 15 (sigaction 9 (sigaction 2 handled))"

lemma kill_not_handled: "initialize_signal_handler {} = {2, 15}"
  by (auto simp: initialize_signal_handler_def sigaction_def)

section \<open>Stopping\<close>

text \<open>What \<open>stop\<close> of a server does before it waits for its threads: the flag of the server goes down.
  (\<open>rigctld_server::stop\<close> and \<open>audio_stream_server::stop\<close> are \<open>stop\<close> and \<open>audio_stop\<close>.)\<close>

definition cwdaemon_stop :: "cwdaemon_server \<Rightarrow> cwdaemon_server" where
  "cwdaemon_stop c = c\<lparr>cw_running := False\<rparr>"

definition remote_key_clear :: "rk \<times> bool \<Rightarrow> rk \<times> bool" where
  "remote_key_clear = (\<lambda>(sr, alive). (sr, False))"

definition remote_key_close :: "rk \<times> bool \<Rightarrow> rk \<times> bool" where
  "remote_key_close = (\<lambda>((s, r), alive). ((rk_close s, r), alive))"

text \<open>The destructor, when the threads have ended: the servers as their destructors leave them. The one of the
  remote key calls \<open>stop\<close>, which returns at once when it was called before; \<open>cwdaemon_server\<close> has none of its own.\<close>

definition remote_key_destroy :: "rk \<times> bool \<Rightarrow> rk \<times> bool" where
  "remote_key_destroy x = (if snd x then remote_key_close (remote_key_clear x) else x)"

definition cwsd_destroy ::
    "('r, 'e) cwsd \<Rightarrow> (rk \<times> bool) option \<times> ('e \<times> 'e audio_stream_server) option \<times> 'r rigctld_server option" where
  "cwsd_destroy s =
     (map_option remote_key_destroy (remote_key s), map_option audio_destroy (audio s), map_option rigctld_destroy (rigctld s))"

end
