(* ===== verification/Fair_Run.thy ===== *)
theory Fair_Run
  imports Prelude
begin

text \<open>
  Runs of a system in which several actors take turns, and a rule for liveness under fair
  scheduling. A turn changes the state or ends the run with an error. The locale \<open>fair_progress\<close> is
  what a system has to promise: a rank that no turn raises, and in every state an actor whose turn lowers
  it. Then a schedule that lets every actor act again and again ends, whatever else happens in it.
\<close>

fun run_turns :: "('a \<Rightarrow> 's \<Rightarrow> 's result) \<Rightarrow> 'a list \<Rightarrow> 's \<Rightarrow> 's result" where
  "run_turns step [] s = Inr s"
| "run_turns step (a # as) s = bind_result (step a s) (run_turns step as)"

lemma run_turns_append: "run_turns step (as @ bs) s = bind_result (run_turns step as s) (run_turns step bs)"
  by (induction as arbitrary: s) (simp_all add: bind_result_def split: sum.splits)

lemma run_turns_invariant:
  assumes "run_turns step as s = Inr s'" "P s" "\<And>a t t'. P t \<Longrightarrow> step a t = Inr t' \<Longrightarrow> P t'"
  shows "P s'"
  using assms(1,2) by (induction as arbitrary: s) (auto simp: bind_result_Inr_iff dest: assms(3))

locale fair_progress =
  fixes step :: "'a \<Rightarrow> 's \<Rightarrow> 's result"
    and actor :: "'a \<Rightarrow> 'p"
    and good :: "'s \<Rightarrow> bool"
    and needed :: "'s \<Rightarrow> 'p"
    and rank :: "'s \<Rightarrow> nat \<times> nat"
  assumes good_step: "good s \<Longrightarrow> step a s = Inr s' \<Longrightarrow> good s'"
    and rank_step: "good s \<Longrightarrow> step a s = Inr s' \<Longrightarrow>
      rank s' = rank s \<and> needed s' = needed s \<or> (rank s', rank s) \<in> less_than <*lex*> less_than"
    and needed_step: "good s \<Longrightarrow> step a s = Inr s' \<Longrightarrow> actor a = needed s \<Longrightarrow> rank s \<noteq> (0, 0)
      \<Longrightarrow> (rank s', rank s) \<in> less_than <*lex*> less_than"
begin

lemma rank_trans:
  "(x, y) \<in> less_than <*lex*> less_than \<Longrightarrow> (y, z) \<in> less_than <*lex*> less_than
   \<Longrightarrow> (x :: nat \<times> nat, z) \<in> less_than <*lex*> less_than"
  by (cases x; cases y; cases z) auto

lemma good_run: "run_turns step as s = Inr s' \<Longrightarrow> good s \<Longrightarrow> good s'"
  by (erule run_turns_invariant) (auto intro: good_step)

lemma rank_run:
  "run_turns step as s = Inr s' \<Longrightarrow> good s \<Longrightarrow> rank s' = rank s \<or> (rank s', rank s) \<in> less_than <*lex*> less_than"
proof (induction as arbitrary: s)
  case (Cons a as)
  obtain t where t: "step a s = Inr t" "run_turns step as t = Inr s'" using Cons.prems(1) by (auto simp: bind_result_Inr_iff)
  then show ?case
    using Cons.IH [OF t(2) good_step [OF Cons.prems(2) t(1)]] rank_step [OF Cons.prems(2) t(1)] rank_trans by metis
qed simp

text \<open>A round in which the needed actor acts lowers the rank.\<close>

lemma round_lowers:
  assumes "run_turns step as s = Inr s'" "good s" "needed s \<in> actor ` set as" "rank s \<noteq> (0, 0)"
  shows "(rank s', rank s) \<in> less_than <*lex*> less_than"
  using assms
proof (induction as arbitrary: s)
  case (Cons a as)
  obtain t where t: "step a s = Inr t" "run_turns step as t = Inr s'" using Cons.prems(1) by (auto simp: bind_result_Inr_iff)
  note good = good_step [OF Cons.prems(2) t(1)]
  show ?case
  proof (cases "(rank t, rank s) \<in> less_than <*lex*> less_than")
    case True
    then show ?thesis using rank_run [OF t(2) good] rank_trans by metis
  next
    case False
    then have same: "rank t = rank s" "needed t = needed s" using rank_step [OF Cons.prems(2) t(1)] by auto
    have "actor a \<noteq> needed s" using needed_step [OF Cons.prems(2) t(1)] Cons.prems(4) False by blast
    then have "needed t \<in> actor ` set as" using Cons.prems(3) same by auto
    then show ?thesis using Cons.IH [OF t(2) good] Cons.prems(4) same by simp
  qed
qed simp

lemma eventually_done:
  assumes "good s" "\<And>i t. good t \<Longrightarrow> needed t \<in> actor ` set (rounds i)"
  shows "\<exists>n. case run_turns step (concat (map rounds [0..<n])) s of Inl e \<Rightarrow> True | Inr s' \<Rightarrow> good s' \<and> rank s' = (0, 0)"
proof -
  have wf: "wf (inv_image (less_than <*lex*> less_than) rank)" by (intro wf_inv_image wf_lex_prod wf_less_than)
  show ?thesis using assms
  proof (induction s arbitrary: rounds rule: wf_induct_rule [OF wf])
    case (1 s)
    show ?case
    proof (cases "rank s = (0, 0)")
      case True
      then show ?thesis using 1(2) by (intro exI [of _ 0]) simp
    next
      case False
      have unroll: "concat (map rounds [0..<Suc n]) = rounds 0 @ concat (map (\<lambda>i. rounds (Suc i)) [0..<n])" for n
        by (simp add: upt_conv_Cons map_Suc_upt [symmetric] comp_def del: upt_Suc)
      show ?thesis
      proof (cases "run_turns step (rounds 0) s")
        case (Inl e)
        then show ?thesis by (intro exI [of _ "Suc 0"]) (simp add: unroll del: upt_Suc)
      next
        case (Inr t)
        have "good t" using good_run [OF Inr 1(2)] .
        moreover have "(rank t, rank s) \<in> less_than <*lex*> less_than"
          using round_lowers [OF Inr 1(2) 1(3) [OF 1(2)] False] .
        ultimately obtain n where "case run_turns step (concat (map (\<lambda>i. rounds (Suc i)) [0..<n])) t of
            Inl e \<Rightarrow> True | Inr s' \<Rightarrow> good s' \<and> rank s' = (0, 0)"
          using 1(1) [of t "\<lambda>i. rounds (Suc i)"] 1(3) by (auto simp: in_inv_image)
        then show ?thesis using Inr by (intro exI [of _ "Suc n"]) (simp add: unroll run_turns_append del: upt_Suc)
      qed
    qed
  qed
qed

end

end
