(* ===== verification/Cwsd_Threads.thy ===== *)
theory Cwsd_Threads
  imports Cwsd Fair_Run
begin

text \<open>
  The threads of the program: the main thread in \<open>run\<close> of \<open>src/cwsd.cpp\<close> and the threads the servers have started. A turn
  of a thread is one pass of its loop, from the test of the flag on (for the client thread of the CW daemon
  one step of a pass), and the schedule is a list of turns in any order. A pass does not look at the
  flag, so that a flag that goes down during a pass is as good as one that goes down after it. The finer interleavings
  inside one server are in \<open>Remote_Key_Server\<close> and \<open>Cwdaemon_Server\<close>. An error in a thread takes the process
  down.
\<close>

section \<open>Threads\<close>

datatype server = Rigctld | Cwdaemon | Audio | Remote_key

datatype thread = Rig_worker | Keyer_worker | Client_worker | Audio_worker | Rx_worker | Replay_worker

fun server_of :: "thread \<Rightarrow> server" where
  "server_of Rig_worker = Rigctld"
| "server_of Keyer_worker = Cwdaemon"
| "server_of Client_worker = Cwdaemon"
| "server_of Audio_worker = Audio"
| "server_of Rx_worker = Remote_key"
| "server_of Replay_worker = Remote_key"

text \<open>A thread has been created and has done nothing yet, is in its loop, or has ended.\<close>

datatype phase = Fresh | Looping | Ended

text \<open>\<open>work\<close> sets its own flag when the thread starts.\<close>

definition rig_turn :: "'r hamlib \<Rightarrow> os_answers \<Rightarrow> phase \<Rightarrow> 'r rigctld_server \<Rightarrow> (phase \<times> 'r rigctld_server) result" where
  "rig_turn h io ph r =
     (case ph of
        Fresh \<Rightarrow> Inr (Looping, (update_poll_descriptors r)\<lparr>is_running := True\<rparr>)
      | Looping \<Rightarrow> if is_running r then bind_result (work_iteration h io r) (\<lambda>r'. Inr (Looping, r')) else Inr (Ended, r)
      | Ended \<Rightarrow> Inr (Ended, r))"

text \<open>\<open>keyer_worker\<close> begins by opening the port.\<close>

definition keyer_turn :: "hw_env \<Rightarrow> bool \<Rightarrow> int \<Rightarrow> phase \<Rightarrow> cwdaemon_server \<Rightarrow> (phase \<times> cwdaemon_server) result" where
  "keyer_turn E tty opened ph c =
     (let t = cw_thread c in
      case ph of
        Fresh \<Rightarrow> Inr (Looping, c\<lparr>cw_thread := t\<lparr>kt_iface := iface_update tty opened (kt_iface t)\<rparr>\<rparr>)
      | Looping \<Rightarrow>
          if cw_running c
          then bind_result (undefined_if_none (keyer_iteration E tty opened t)) (\<lambda>t'. Inr (Looping, c\<lparr>cw_thread := t'\<rparr>))
          else Inr (Ended, c)
      | Ended \<Rightarrow> Inr (Ended, c))"

text \<open>\<open>client_worker\<close>: a step of the pass, or the head of the loop, which the exit command leaves.\<close>

definition client_turn :: "recvfrom_result \<Rightarrow> u32 \<Rightarrow> phase \<Rightarrow> cwdaemon_server \<Rightarrow> (phase \<times> cwdaemon_server) result" where
  "client_turn answer now ph c =
     (let t = cw_thread c; k = kt_keyer t in
      case ph of
        Fresh \<Rightarrow> Inr (Looping, c)
      | Looping \<Rightarrow>
          (case ct_acts (cw_client c) of
             a # rest \<Rightarrow>
               bind_result (client_act_step now a rest k (cw_client c)) (\<lambda>(k', cl).
                 Inr (Looping, c\<lparr>cw_client := cl, cw_thread := t\<lparr>kt_keyer := k', kt_iface := drive k k' (kt_iface t)\<rparr>\<rparr>))
           | [] \<Rightarrow>
               if \<not> cw_running c then Inr (Ended, c)
               else
                 bind_result (receive answer (cw_udp c)) (\<lambda>(got, u).
                 bind_result (client_head True (if got then Some (last_message u) else None) now k (cw_client c))
                   (\<lambda>(go, cl). Inr (if go then Looping else Ended, c\<lparr>cw_udp := u, cw_client := cl\<rparr>))))
      | Ended \<Rightarrow> Inr (Ended, c))"

definition audio_turn :: "'e opus \<Rightarrow> audio_answers \<Rightarrow> phase \<Rightarrow> 'e audio_stream_server \<Rightarrow> (phase \<times> 'e audio_stream_server) result" where
  "audio_turn op io ph a =
     (case ph of
        Fresh \<Rightarrow> Inr (Looping, a)
      | Looping \<Rightarrow> Inr (if audio_running a then (Looping, audio_iteration op io a) else (Ended, a))
      | Ended \<Rightarrow> Inr (Ended, a))"

text \<open>\<open>receive_worker\<close>: a datagram, or nothing within the time limit.\<close>

definition rx_turn :: "u8 list option \<Rightarrow> u64 \<Rightarrow> phase \<Rightarrow> rk \<times> bool \<Rightarrow> (phase \<times> rk \<times> bool) result" where
  "rx_turn received now ph = (\<lambda>((s, r), alive).
     case ph of
       Fresh \<Rightarrow> Inr (Looping, (s, r), alive)
     | Looping \<Rightarrow>
         Inr (if alive
              then (Looping, ((case received of None \<Rightarrow> s | Some buf \<Rightarrow> receive_datagram buf now s), r), alive)
              else (Ended, (s, r), alive))
     | Ended \<Rightarrow> Inr (Ended, (s, r), alive))"

text \<open>\<open>replay_worker\<close> begins by opening the port and ends with both lines safe.\<close>

definition replay_turn :: "u64 \<Rightarrow> int \<Rightarrow> phase \<Rightarrow> rk \<times> bool \<Rightarrow> (phase \<times> rk \<times> bool) result" where
  "replay_turn t ret ph = (\<lambda>((s, r), alive).
     case ph of
       Fresh \<Rightarrow> Inr (Looping, (snd (open_port ret s), r), alive)
     | Looping \<Rightarrow>
         Inr (if alive then (Looping, replay_iteration t ret (s, r), alive) else (Ended, replay_shutdown (s, r), alive))
     | Ended \<Rightarrow> Inr (Ended, (s, r), alive))"

section \<open>The main thread\<close>

fun constructed :: "('r, 'e) cwsd \<Rightarrow> server \<Rightarrow> bool" where
  "constructed s Rigctld = (rigctld s \<noteq> None)"
| "constructed s Cwdaemon = (cwdaemon s \<noteq> None)"
| "constructed s Audio = (audio s \<noteq> None)"
| "constructed s Remote_key = (remote_key s \<noteq> None)"

text \<open>What is left of \<open>run\<close> after its loop: flags to clear, threads to wait for, and the descriptors of the
  remote key to close. The servers of the configuration are those that were constructed. The early return of
  \<open>remote_key_server::stop\<close> and of \<open>audio_stream_server::stop\<close> is for a second call.\<close>

datatype main_act = Clear server | Join thread | Close_remote_key

definition shutdown_acts :: "('r, 'e) cwsd \<Rightarrow> main_act list" where
  "shutdown_acts s =
     (if constructed s Rigctld then [Clear Rigctld, Join Rig_worker] else [])
     @ (if constructed s Cwdaemon then [Clear Cwdaemon, Join Keyer_worker, Join Client_worker] else [])
     @ (if constructed s Audio then [Clear Audio, Join Audio_worker] else [])
     @ (if constructed s Remote_key then [Clear Remote_key, Join Rx_worker, Join Replay_worker, Close_remote_key] else [])"

fun clear_flag :: "server \<Rightarrow> ('r, 'e) cwsd \<Rightarrow> ('r, 'e) cwsd" where
  "clear_flag Rigctld s = s\<lparr>rigctld := map_option stop (rigctld s)\<rparr>"
| "clear_flag Cwdaemon s = s\<lparr>cwdaemon := map_option cwdaemon_stop (cwdaemon s)\<rparr>"
| "clear_flag Audio s = s\<lparr>audio := map_option audio_stop (audio s)\<rparr>"
| "clear_flag Remote_key s = s\<lparr>remote_key := map_option remote_key_clear (remote_key s)\<rparr>"

datatype main_pc = In_loop | Halting "main_act list"

record ('r, 'e) program =
  servers :: "('r, 'e) cwsd"
  phase_of :: "thread \<Rightarrow> phase"
  main_at :: main_pc

text \<open>A turn of the main thread: a test of its flag, or the next statement of the shutdown; it waits in \<open>join\<close>. The
  \<open>update\<close> functions it calls in its loop are empty.\<close>

definition main_turn :: "('r, 'e) program \<Rightarrow> ('r, 'e) program" where
  "main_turn p =
     (case main_at p of
        In_loop \<Rightarrow> if main_running (servers p) then p else p\<lparr>main_at := Halting (shutdown_acts (servers p))\<rparr>
      | Halting [] \<Rightarrow> p
      | Halting (Clear v # acts) \<Rightarrow> p\<lparr>servers := clear_flag v (servers p), main_at := Halting acts\<rparr>
      | Halting (Join t # acts) \<Rightarrow> if phase_of p t = Ended then p\<lparr>main_at := Halting acts\<rparr> else p
      | Halting (Close_remote_key # acts) \<Rightarrow>
          p\<lparr>servers := (servers p)\<lparr>remote_key := map_option remote_key_close (remote_key (servers p))\<rparr>, main_at := Halting acts\<rparr>)"

section \<open>The program\<close>

datatype turn =
    Main_turn
  | Signal_turn
  | Rig_turn os_answers
  | Keyer_turn bool int
  | Client_turn recvfrom_result u32
  | Audio_turn audio_answers
  | Rx_turn "u8 list option" u64
  | Replay_turn u64 int

text \<open>The turn of a thread, if its server was constructed.\<close>

definition on_server ::
    "thread \<Rightarrow> 'v option \<Rightarrow> (phase \<Rightarrow> 'v \<Rightarrow> (phase \<times> 'v) result) \<Rightarrow> ('v \<Rightarrow> ('r, 'e) cwsd \<Rightarrow> ('r, 'e) cwsd)
     \<Rightarrow> ('r, 'e) program \<Rightarrow> ('r, 'e) program result" where
  "on_server t part f store p =
     (case part of
        None \<Rightarrow> Inr p
      | Some v \<Rightarrow>
          bind_result (f (phase_of p t) v) (\<lambda>(ph, v').
            Inr (p\<lparr>servers := store v' (servers p), phase_of := (phase_of p)(t := ph)\<rparr>)))"

fun prog_turn :: "'r hamlib \<Rightarrow> 'e opus \<Rightarrow> hw_env \<Rightarrow> turn \<Rightarrow> ('r, 'e) program \<Rightarrow> ('r, 'e) program result" where
  "prog_turn h op E Main_turn p = Inr (main_turn p)"
| "prog_turn h op E Signal_turn p = Inr (p\<lparr>servers := signal_handler (servers p)\<rparr>)"
| "prog_turn h op E (Rig_turn io) p =
     on_server Rig_worker (rigctld (servers p)) (rig_turn h io) (\<lambda>v s. s\<lparr>rigctld := Some v\<rparr>) p"
| "prog_turn h op E (Keyer_turn tty opened) p =
     on_server Keyer_worker (cwdaemon (servers p)) (keyer_turn E tty opened) (\<lambda>v s. s\<lparr>cwdaemon := Some v\<rparr>) p"
| "prog_turn h op E (Client_turn answer now) p =
     on_server Client_worker (cwdaemon (servers p)) (client_turn answer now) (\<lambda>v s. s\<lparr>cwdaemon := Some v\<rparr>) p"
| "prog_turn h op E (Audio_turn io) p =
     on_server Audio_worker (audio (servers p)) (audio_turn op io) (\<lambda>v s. s\<lparr>audio := Some v\<rparr>) p"
| "prog_turn h op E (Rx_turn received now) p =
     on_server Rx_worker (remote_key (servers p)) (rx_turn received now) (\<lambda>v s. s\<lparr>remote_key := Some v\<rparr>) p"
| "prog_turn h op E (Replay_turn t ret) p =
     on_server Replay_worker (remote_key (servers p)) (replay_turn t ret) (\<lambda>v s. s\<lparr>remote_key := Some v\<rparr>) p"

text \<open>\<open>run\<close> sets the flag of the main loop; the constructors have created the threads.\<close>

definition program_new :: "('r, 'e) cwsd \<Rightarrow> ('r, 'e) program" where
  "program_new s = \<lparr>servers = s\<lparr>main_running := True\<rparr>,
     phase_of = (\<lambda>t. if constructed s (server_of t) then Fresh else Ended), main_at = In_loop\<rparr>"

definition prog_run :: "'r hamlib \<Rightarrow> 'e opus \<Rightarrow> hw_env \<Rightarrow> turn list \<Rightarrow> ('r, 'e) program \<Rightarrow> ('r, 'e) program result" where
  "prog_run h op E = run_turns (prog_turn h op E)"

definition cwsd_run :: "'r hamlib \<Rightarrow> 'e opus \<Rightarrow> hw_env \<Rightarrow> turn list \<Rightarrow> ('r, 'e) cwsd \<Rightarrow> ('r, 'e) program result" where
  "cwsd_run h op E turns s = prog_run h op E turns (program_new s)"

text \<open>\<open>main\<close>: a \<open>std::exception\<close> is logged and ends the process with code 1, undefined behaviour is not
  caught, and an exception in a thread takes the process down. \<open>Runs\<close>: the main thread has not returned from \<open>run\<close> at the end of the
  list of turns.\<close>

definition caught :: "cpp_error \<Rightarrow> 'a process" where
  "caught e =
     (case e of
        Undefined_behaviour \<Rightarrow> Dies e
      | Runtime_error what \<Rightarrow> Exits 1 [what]
      | _ \<Rightarrow> Exits 1 [])"

record ('r, 'e) surroundings =
  home :: "string option"
  readable :: "string \<Rightarrow> string option"
  yaml :: "string \<Rightarrow> node result"
  version :: string
  log_defaults :: log_conf
  forks :: fork_answers
  boots :: boot_answers
  env :: hw_env
  codec :: "'e opus"
  radio :: "'r hamlib"

definition main_program ::
    "('r, 'e) surroundings \<Rightarrow> turn list \<Rightarrow> string list \<Rightarrow> proc \<Rightarrow> (proc \<times> log_conf) process" where
  "main_program w turns args p =
     (case parse_args (version w) (forks w) args (p\<lparr>config_path := ''~/.config/cwsdrc''\<rparr>) of
        Exits c out \<Rightarrow> Exits c out
      | Dies e \<Rightarrow> Dies e
      | Runs p' \<Rightarrow>
          (case read_config (home w) (readable w) (yaml w) (config_path p') of
             Inl e \<Rightarrow> caught e
           | Inr cfg \<Rightarrow>
               let (log, lines) = configure_logging (log_defaults w) (version w)
                     (to_logging_level (log_level (logging_cfg cfg))) (filename (logging_cfg cfg))
                     (to_string (uint (max_size (logging_cfg cfg))))
               in case cwsd_new (codec w) (env w) (boots w) cfg of
                    (Some e, s) \<Rightarrow> caught e
                  | (None, s) \<Rightarrow>
                      (case cwsd_run (radio w) (codec w) (env w) turns s of
                         Inl e \<Rightarrow> Dies e
                       | Inr q \<Rightarrow> if main_at q = Halting [] then Exits 0 lines else Runs (p', log))))"

end
