(* ===== verification/Audio_Properties.thy ===== *)
theory Audio_Properties
  imports Audio_Stream
begin

text \<open>
  Properties of the audio stream: the subscriber table refines a map from addresses to the time
  they were last heard, every subscriber sees an unbroken sequence of packets, and a device
  whose reads fail stops the handling of subscribers.
\<close>

section \<open>The subscriber table\<close>

text \<open>What the table promises: a datagram from an address notes the time, and an address not heard
  for the timeout is forgotten.\<close>

definition note_all :: "(sockaddr_in \<times> u32) list \<Rightarrow> (sockaddr_in \<Rightarrow> u32 option) \<Rightarrow> sockaddr_in \<Rightarrow> u32 option" where
  "note_all ds m = fold (\<lambda>(a, now) m. m(a \<mapsto> now)) ds m"

definition forget :: "u32 \<Rightarrow> u32 \<Rightarrow> (sockaddr_in \<Rightarrow> u32 option) \<Rightarrow> sockaddr_in \<Rightarrow> u32 option" where
  "forget timeout now m =
     (\<lambda>a. case m a of Some t \<Rightarrow> if now - t < timeout then Some t else None | None \<Rightarrow> None)"

text \<open>
  (C35) The hash table of subscribers implements a map from addresses to the time they were last heard:
  one sweep over the waiting datagrams and the table notes every sender and forgets exactly the
  addresses not heard for the timeout, measured modulo \<open>2^32\<close> milliseconds, so that the wrap of the clock
  after 49.7 days drops nobody; and the table stays well formed.
\<close>

theorem poll_clients_refines:
  assumes "table_ok (subscribers s)"
  shows "heard (subscribers (poll_clients io s))
           = forget (of_int (client_timeout_ms (config s))) (expiry_now io)
               (note_all (arrived io) (heard (subscribers s)))
       \<and> table_ok (subscribers (poll_clients io s))"
proof
  show "heard (subscribers (poll_clients io s))
      = forget (of_int (client_timeout_ms (config s))) (expiry_now io)
          (note_all (arrived io) (heard (subscribers s)))"
    unfolding poll_clients_sweep
    by (intro ext) (subst table.sweep_heard [OF assms], auto simp: forget_def note_all_def not_le split: option.split)
  show "table_ok (subscribers (poll_clients io s))" using assms by (rule poll_clients_table_ok)
qed

text \<open>A server with the configured defaults and an encoder that makes packets of three bytes.\<close>

definition demo_opus :: "unit opus" where
  "demo_opus = \<lparr>opus_encoder_create = (\<lambda>_ _. Inr ()), opus_set_bitrate = (\<lambda>_ e. e),
     opus_set_inband_fec = (\<lambda>_ e. e), opus_set_packet_loss_perc = (\<lambda>_ e. e),
     opus_encode = (\<lambda>e _ _ _. (Inr [7, 8, 9], e))\<rparr>"

definition demo_audio :: "unit audio_stream_server" where
  "demo_audio = \<lparr>config = audio_stream_config_default, pcm = False, encoder = (), sockfd = 3, subscribers = [],
     frame_size = 160, sequence = 0, capture_was_open = False, audio_running = True, outbox = []\<rparr>"

lemma demo_audio_new: "audio_stream_server_new demo_opus 3 0 audio_stream_config_default = Inr demo_audio"
  by (simp add: audio_stream_server_new_def demo_opus_def audio_stream_config_default_def open_socket_def demo_audio_def)

definition home :: sockaddr_in where "home = \<lparr>s_addr = 0x0100007F, sin_port = 0x1234\<rparr>"

definition demo_pass :: "(sockaddr_in \<times> u32) list \<Rightarrow> int \<Rightarrow> audio_answers" where
  "demo_pass ds frames = \<lparr>pcm_open_err = 0, hw_params_err = (\<lambda>_. 0), readi_frames = (\<lambda>_. frames),
     readi_samples = [], arrived = ds, expiry_now = 0x00000010\<rparr>"

theorem poll_clients_refines_witness:
  "table_ok (subscribers demo_audio)
   \<and> heard (subscribers (poll_clients (demo_pass [(home, 0xFFFFFFF0)] 160) demo_audio)) home = Some 0xFFFFFFF0"
proof -
  have "table_ok (subscribers demo_audio)" by (simp add: demo_audio_def)
  then show ?thesis
    using poll_clients_refines [of demo_audio "demo_pass [(home, 0xFFFFFFF0)] 160"]
    by (simp add: demo_audio_def demo_pass_def forget_def note_all_def audio_stream_config_default_def)
qed

section \<open>The packets a subscriber sees\<close>

definition packets_to :: "sockaddr_in \<Rightarrow> (sockaddr_in \<times> u8 list) list \<Rightarrow> u8 list list" where
  "packets_to a out = map snd (filter (\<lambda>(b, p). b = a) out)"

text \<open>The sequence number as the receiver reads it: four bytes, most significant first.\<close>

definition header_of :: "u8 list \<Rightarrow> u32" where
  "header_of p = push_bit 24 (ucast (p ! 0)) OR push_bit 16 (ucast (p ! 1)) OR push_bit 8 (ucast (p ! 2)) OR ucast (p ! 3)"

lemma length_put_be32: "length (put_be32 v) = 4"
  by (simp add: put_be32_def)

lemma header_put_be32: "header_of (put_be32 v @ payload) = v"
proof (rule bit_word_eqI)
  fix n assume "n < LENGTH(32)"
  then consider "n < 8" | "8 \<le> n" "n < 16" | "16 \<le> n" "n < 24" | "24 \<le> n" "n < 32" by fastforce
  then show "bit (header_of (put_be32 v @ payload)) n = bit v n"
    by cases (auto simp: header_of_def put_be32_def bit_simps)
qed

lemma packets_to_append [simp]: "packets_to a (xs @ ys) = packets_to a xs @ packets_to a ys"
  by (simp add: packets_to_def)

text \<open>A well-formed table has one entry for a subscribed address.\<close>

lemma packets_of_broadcast:
  assumes "table_ok cs" "heard cs a \<noteq> None"
  shows "packets_to a (map (\<lambda>(k, c). (addr c, p)) cs) = [p]"
  using assms
proof (induction cs)
  case (Cons kc cs)
  obtain k c where kc: "kc = (k, c)" by fastforce
  have ok: "table_ok cs" "k = client_key (addr c)" "k \<notin> fst ` set cs"
    using Cons.prems(1) by (auto simp: table_ok_def kc)
  show ?case
  proof (cases "addr c = a")
    case True
    have "addr c' \<noteq> a" if "(k', c') \<in> set cs" for k' c'
    proof
      assume "addr c' = a"
      then have "k' = k" using that ok(1,2) True by (auto simp: table_ok_def)
      then show False using that ok(3) by force
    qed
    then have "packets_to a (map (\<lambda>(k, c). (addr c, p)) cs) = []"
      by (auto simp: packets_to_def filter_empty_conv)
    then show ?thesis using True by (simp add: packets_to_def kc)
  next
    case False
    then have "heard cs a \<noteq> None" using Cons.prems(2) ok(2) by (auto simp: heard_def kc split: if_splits)
    then show ?thesis using Cons.IH [OF ok(1)] False by (simp add: packets_to_def kc)
  qed
qed (simp add: heard_def)

text \<open>One pass either sends nothing, or sends the next packet to everybody in the table it leaves.\<close>

definition sends :: "'e audio_stream_server \<Rightarrow> 'e audio_stream_server \<Rightarrow> u8 list \<Rightarrow> bool" where
  "sends s s' payload \<longleftrightarrow> payload \<noteq> [] \<and> AUDIO_HEADER_BYTES + length payload \<le> MAX_PACKET
     \<and> sequence s' = sequence s + 1
     \<and> outbox s' = outbox s @ map (\<lambda>(k, c). (addr c, put_be32 (sequence s) @ payload)) (subscribers s')"

definition silent :: "'e audio_stream_server \<Rightarrow> 'e audio_stream_server \<Rightarrow> bool" where
  "silent s s' \<longleftrightarrow> sequence s' = sequence s \<and> outbox s' = outbox s"

lemma stream_frame_sends: "silent s (stream_frame op io s) \<or> (\<exists>p. sends s (stream_frame op io s) p)"
  by (auto simp: stream_frame_def Let_def broadcast_def poll_clients_def close_capture_def silent_def sends_def
      split: prod.splits sum.splits if_splits)

lemma audio_iteration_sends: "silent s (audio_iteration op io s) \<or> (\<exists>p. sends s (audio_iteration op io s) p)"
proof -
  have "silent s (stream_frame op io s1) \<or> (\<exists>p. sends s (stream_frame op io s1) p)"
    if "sequence s1 = sequence s" "outbox s1 = outbox s" for s1 :: "'a audio_stream_server"
    using stream_frame_sends [of s1 op io] that by (auto simp: silent_def sends_def)
  then show ?thesis
    by (auto simp: audio_iteration_def open_capture_def poll_clients_def silent_def sends_def split: prod.splits bool.splits if_splits)
qed

lemma stream_frame_table_ok:
  "table_ok (subscribers s) \<Longrightarrow> table_ok (subscribers (stream_frame op io s))"
  using poll_clients_table_ok [of s io]
  by (auto simp: stream_frame_def Let_def broadcast_def close_capture_def split: prod.splits sum.splits)

lemma audio_iteration_table_ok:
  "table_ok (subscribers s) \<Longrightarrow> table_ok (subscribers (audio_iteration op io s))"
  by (auto simp: audio_iteration_def open_capture_def stream_frame_table_ok poll_clients_table_ok
      split: prod.splits bool.splits)

lemma audio_iteration_running: "audio_running (audio_iteration op io s) = audio_running s"
  by (auto simp: audio_iteration_def stream_frame_def Let_def broadcast_def poll_clients_def close_capture_def
      open_capture_def split: prod.splits sum.splits bool.splits)

lemma one_packet:
  assumes "table_ok (subscribers s)" "heard (subscribers (audio_iteration op io s)) a \<noteq> None"
  shows "\<exists>ps. packets_to a (outbox (audio_iteration op io s)) = packets_to a (outbox s) @ ps
    \<and> sequence (audio_iteration op io s) = sequence s + of_nat (length ps)
    \<and> length ps \<le> 1 \<and> (\<forall>p \<in> set ps. header_of p = sequence s \<and> length p \<le> MAX_PACKET)"
proof (cases "silent s (audio_iteration op io s)")
  case True
  then show ?thesis by (intro exI [of _ "[]"]) (simp add: silent_def)
next
  case False
  then obtain p where p: "sends s (audio_iteration op io s) p" using audio_iteration_sends by blast
  then have "packets_to a (outbox (audio_iteration op io s))
      = packets_to a (outbox s) @ [put_be32 (sequence s) @ p]"
    using packets_of_broadcast [OF audio_iteration_table_ok [OF assms(1)] assms(2)] by (simp add: sends_def)
  then show ?thesis
    using p by (intro exI [of _ "[put_be32 (sequence s) @ p]"])
      (simp add: sends_def header_put_be32 AUDIO_HEADER_BYTES_def length_put_be32)
qed

text \<open>
  (C34) A subscriber sees an unbroken sequence: over any number of passes of the worker thread during
  which an address stays subscribed, the packets sent to it carry consecutive sequence numbers,
  modulo \<open>2^32\<close>, starting with the current one and none longer than the maximum. So a gap it sees is
  a lost datagram, whatever failures of the device and the encoder happened and whoever else came and
  went.
\<close>

theorem sequence_unbroken:
  assumes "table_ok (subscribers s)"
    and "\<forall>i < length ios. heard (subscribers (audio_work op (take (Suc i) ios) s)) a \<noteq> None"
  shows "\<exists>ps. packets_to a (outbox (audio_work op ios s)) = packets_to a (outbox s) @ ps
    \<and> map header_of ps = map (\<lambda>i. sequence s + of_nat i) [0..<length ps]
    \<and> sequence (audio_work op ios s) = sequence s + of_nat (length ps)
    \<and> (\<forall>p \<in> set ps. length p \<le> MAX_PACKET)"
  using assms
proof (induction ios arbitrary: s)
  case Nil
  then show ?case by simp
next
  case (Cons io ios)
  show ?case
  proof (cases "audio_running s")
    case False
    then show ?thesis by simp
  next
    case True
    let ?s = "audio_iteration op io s"
    have now: "heard (subscribers ?s) a \<noteq> None" using Cons.prems(2) True by (auto dest: spec [of _ 0])
    have later: "\<forall>i < length ios. heard (subscribers (audio_work op (take (Suc i) ios) ?s)) a \<noteq> None"
      using Cons.prems(2) True by (auto dest: spec [of _ "Suc _"])
    obtain ps where ps: "packets_to a (outbox ?s) = packets_to a (outbox s) @ ps"
      "sequence ?s = sequence s + of_nat (length ps)" "length ps \<le> 1"
      "\<forall>p \<in> set ps. header_of p = sequence s \<and> length p \<le> MAX_PACKET"
      using one_packet [OF Cons.prems(1) now] by blast
    obtain qs where qs: "packets_to a (outbox (audio_work op ios ?s)) = packets_to a (outbox ?s) @ qs"
      "map header_of qs = map (\<lambda>i. sequence ?s + of_nat i) [0..<length qs]"
      "sequence (audio_work op ios ?s) = sequence ?s + of_nat (length qs)"
      "\<forall>p \<in> set qs. length p \<le> MAX_PACKET"
      using Cons.IH [OF audio_iteration_table_ok [OF Cons.prems(1)] later] by blast
    have h: "map header_of (ps @ qs) = map (\<lambda>i. sequence s + of_nat i) [0..<length (ps @ qs)]"
    proof (cases ps)
      case (Cons p ps')
      then have "ps = [p]" using ps(3) by simp
      then show ?thesis
        using qs(2) ps(2,4) by (simp add: upt_conv_Cons map_Suc_upt [symmetric] add.assoc o_def del: upt_Suc)
    qed (use qs(2) ps(2) in simp)
    show ?thesis
      using True ps qs h by (intro exI [of _ "ps @ qs"]) (auto simp: add.assoc)
  qed
qed

text \<open>Two passes after a subscription.\<close>

theorem sequence_unbroken_witness:
  "\<exists>ps. packets_to home (outbox (audio_work demo_opus [demo_pass [(home, 5)] 160, demo_pass [] 160] demo_audio)) = ps
     \<and> length ps = 2 \<and> map header_of ps = [0, 1]"
proof -
  let ?ios = "[demo_pass [(home, 5)] 160, demo_pass [] 160]"
  note defs = demo_audio_def demo_pass_def demo_opus_def audio_iteration_def open_capture_def stream_frame_def EPIPE_def
    poll_clients_def register_def expired_def audio_stream_config_default_def broadcast_def AUDIO_HEADER_BYTES_def
    MAX_PACKET_def heard_def Let_def
  have one: "heard (subscribers (audio_work demo_opus [demo_pass [(home, 5)] 160] demo_audio)) home \<noteq> None"
    and two: "heard (subscribers (audio_work demo_opus ?ios demo_audio)) home \<noteq> None"
    and n: "sequence (audio_work demo_opus ?ios demo_audio) = 2"
    and l: "length (packets_to home (outbox (audio_work demo_opus ?ios demo_audio))) = 2"
    by (simp_all add: defs packets_to_def)
  have "\<forall>i < length ?ios. heard (subscribers (audio_work demo_opus (take (Suc i) ?ios) demo_audio)) home \<noteq> None"
    using one two by (auto simp: less_Suc_eq simp del: audio_work.simps)
  then obtain ps where "packets_to home (outbox (audio_work demo_opus ?ios demo_audio)) = packets_to home (outbox demo_audio) @ ps"
    "map header_of ps = map (\<lambda>i. sequence demo_audio + of_nat i) [0..<length ps]"
    using sequence_unbroken [of demo_audio ?ios demo_opus home] by (auto simp: demo_audio_def)
  moreover have "packets_to home (outbox demo_audio) = []" "sequence demo_audio = 0"
    by (simp_all add: demo_audio_def packets_to_def)
  ultimately show ?thesis using l by (auto simp: upt_rec simp del: audio_work.simps)
qed

section \<open>A device that opens but does not read\<close>

text \<open>
  While the capture device can be opened but every read from it fails, the worker thread reopens
  it without looking at its socket: no subscriber is registered, refreshed or dropped, however
  many passes go by, unlike while the device cannot be opened.
\<close>

theorem failing_reads_ignore_subscribers:
  assumes "\<forall>io \<in> set ios. 0 \<le> pcm_open_err io \<and> (\<forall>r. 0 \<le> hw_params_err io r) \<and> (\<forall>n. readi_frames io n < 0)"
  shows "subscribers (audio_work op ios s) = subscribers s \<and> outbox (audio_work op ios s) = outbox s"
  using assms
proof (induction ios arbitrary: s)
  case (Cons io ios)
  have "subscribers (audio_iteration op io s) = subscribers s \<and> outbox (audio_iteration op io s) = outbox s"
    using Cons.prems
    by (auto simp: audio_iteration_def open_capture_def stream_frame_def close_capture_def Let_def not_less [symmetric]
        split: prod.splits bool.splits)
  then show ?case using Cons by simp
qed simp

theorem failing_reads_ignore_subscribers_witness:
  "subscribers (audio_work demo_opus [demo_pass [(home, 5)] (-5), demo_pass [(home, 6)] (-5)] demo_audio) = []"
  using failing_reads_ignore_subscribers
    [of "[demo_pass [(home, 5)] (-5), demo_pass [(home, 6)] (-5)]" demo_opus demo_audio]
  by (simp add: demo_pass_def demo_audio_def del: audio_work.simps)

end
