(* ===== verification/Cwsd_Properties.thy ===== *)
theory Cwsd_Properties
  imports Cwsd_Threads Rig_Properties Audio_Properties
begin

text \<open>
  Properties of the whole program: what the constructor starts, and what a signal stops.
\<close>

section \<open>Starting\<close>

definition enabled_servers :: "cwsd_config \<Rightarrow> bool list" where
  "enabled_servers cfg = [rigctld_enabled (rigctld_cfg cfg), cwd_enabled (cwdaemon_cfg cfg),
     aud_enabled (audio_cfg cfg), rkc_enabled (remote_key_cfg cfg)]"

definition started :: "('r, 'e) cwsd \<Rightarrow> bool list" where
  "started s = [rigctld s \<noteq> None, cwdaemon s \<noteq> None, audio s \<noteq> None, remote_key s \<noteq> None]"

text \<open>
  (C33) The constructor starts exactly the enabled servers, or throws: without an exception the servers
  started are those of the configuration; with one, at least one enabled server is missing and those
  configured before it have been started and are left running, since nothing stops them.
\<close>

theorem construction_all_or_exception:
  "case cwsd_new op E b cfg of
     (None, s) \<Rightarrow> started s = enabled_servers cfg
   | (Some e, s) \<Rightarrow> \<exists>n < 4. enabled_servers cfg ! n \<and> take n (started s) = take n (enabled_servers cfg)
       \<and> drop n (started s) = replicate (4 - n) False"
proof -
  have four: "(\<exists>n < 4. P n) \<longleftrightarrow> P 0 \<or> P 1 \<or> P 2 \<or> P (3::nat)" for P
    by (auto simp: numeral_eq_Suc less_Suc_eq)
  have r: "replicate 4 False = [False, False, False, False]" "replicate 3 False = [False, False, False]"
    "replicate 2 False = [False, False]" by code_simp+
  show ?thesis
    unfolding four
    by (auto simp: cwsd_new_def start_if_def cwsd_zero_def started_def enabled_servers_def r
        split: sum.splits if_splits)
qed

section \<open>Turns\<close>

datatype actor = Main | Kernel | Thread thread

fun actor_of :: "turn \<Rightarrow> actor" where
  "actor_of Main_turn = Main"
| "actor_of Signal_turn = Kernel"
| "actor_of (Rig_turn _) = Thread Rig_worker"
| "actor_of (Keyer_turn _ _) = Thread Keyer_worker"
| "actor_of (Client_turn _ _) = Thread Client_worker"
| "actor_of (Audio_turn _) = Thread Audio_worker"
| "actor_of (Rx_turn _ _) = Thread Rx_worker"
| "actor_of (Replay_turn _ _) = Thread Replay_worker"

text \<open>The flag a thread tests.\<close>

fun flag :: "('r, 'e) cwsd \<Rightarrow> thread \<Rightarrow> bool" where
  "flag s Rig_worker = (\<exists>r. rigctld s = Some r \<and> is_running r)"
| "flag s Keyer_worker = (\<exists>c. cwdaemon s = Some c \<and> cw_running c)"
| "flag s Client_worker = (\<exists>c. cwdaemon s = Some c \<and> cw_running c)"
| "flag s Audio_worker = (\<exists>a. audio s = Some a \<and> audio_running a)"
| "flag s Rx_worker = (\<exists>sr. remote_key s = Some (sr, True))"
| "flag s Replay_worker = (\<exists>sr. remote_key s = Some (sr, True))"

definition client_pending :: "('r, 'e) cwsd \<Rightarrow> nat" where
  "client_pending s = (case cwdaemon s of None \<Rightarrow> 0 | Some c \<Rightarrow> client_work (cw_client c))"

section \<open>What a thread promises\<close>

text \<open>The turns a thread whose flag is down needs to end, when \<open>n\<close> is the work left in its pass.\<close>

definition weight :: "phase \<Rightarrow> nat \<Rightarrow> nat" where
  "weight ph n = (case ph of Ended \<Rightarrow> 0 | Looping \<Rightarrow> Suc n | Fresh \<Rightarrow> Suc (Suc n))"

lemma weight_zero [simp]: "weight ph n = 0 \<longleftrightarrow> ph = Ended"
  by (cases ph) (simp_all add: weight_def)

text \<open>A thread enters its loop, never leaves the state \<open>Ended\<close>, does not touch its flag in a pass, and with the flag
  down ends or gets closer to the head of its loop.\<close>

locale worker =
  fixes turn :: "'x \<Rightarrow> phase \<Rightarrow> 'v \<Rightarrow> (phase \<times> 'v) result"
    and running :: "'v \<Rightarrow> bool"
    and work :: "'v \<Rightarrow> nat"
  assumes ended: "turn x Ended v = Inr (ph, v') \<Longrightarrow> ph = Ended \<and> v' = v"
    and fresh: "turn x Fresh v = Inr (ph, v') \<Longrightarrow> ph = Looping \<and> work v' = work v"
    and keeps_flag: "turn x Looping v = Inr (ph, v') \<Longrightarrow> ph \<noteq> Fresh \<and> running v' = running v"
    and stops: "turn x Looping v = Inr (ph, v') \<Longrightarrow> \<not> running v \<Longrightarrow> ph = Ended \<or> work v' < work v"
begin

lemma stays_ended: "turn x ph v = Inr (ph', v') \<Longrightarrow> ph = Ended \<Longrightarrow> ph' = Ended"
  using ended by blast

lemma never_fresh_again: "turn x ph v = Inr (ph', v') \<Longrightarrow> ph' \<noteq> Fresh"
  using ended fresh keeps_flag by (cases ph) fastforce+

lemma flag_kept: "turn x ph v = Inr (ph', v') \<Longrightarrow> ph \<noteq> Fresh \<Longrightarrow> running v' = running v"
  using ended keeps_flag by (cases ph) blast+

lemma lowers:
  "turn x ph v = Inr (ph', v') \<Longrightarrow> ph \<noteq> Ended \<Longrightarrow> \<not> running v \<Longrightarrow> weight ph' (work v') < weight ph (work v)"
proof (cases ph)
  case Fresh
  then show "turn x ph v = Inr (ph', v') \<Longrightarrow> weight ph' (work v') < weight ph (work v)"
    using fresh [of x v ph' v'] by (simp add: weight_def)
next
  case Looping
  then show "turn x ph v = Inr (ph', v') \<Longrightarrow> \<not> running v \<Longrightarrow> weight ph' (work v') < weight ph (work v)"
    using stops [of x v ph' v'] keeps_flag [of x v ph' v'] by (cases ph') (auto simp: weight_def)
qed simp

end

text \<open>A thread that does not set its own flag when it starts.\<close>

locale obedient_worker = worker +
  assumes fresh_flag: "turn x Fresh v = Inr (ph, v') \<Longrightarrow> running v' = running v"
begin

lemma obeys: "turn x ph v = Inr (ph', v') \<Longrightarrow> running v' = running v"
  using fresh_flag flag_kept by (cases ph) blast+

end

interpretation rig_thread: worker "rig_turn h" is_running "\<lambda>_. 0"
  by unfold_locales (auto simp: rig_turn_def bind_result_Inr_iff work_iteration_running split: if_splits)

interpretation keyer_thread: obedient_worker "\<lambda>(tty, opened). keyer_turn E tty opened" cw_running "\<lambda>_. 0"
  by unfold_locales (auto simp: keyer_turn_def Let_def bind_result_Inr_iff split: if_splits)

interpretation client_thread: obedient_worker "\<lambda>(answer, now). client_turn answer now" cw_running "client_work \<circ> cw_client"
  by unfold_locales
    (auto simp: client_turn_def Let_def bind_result_Inr_iff client_act_step_work split: if_splits list.splits)

interpretation audio_thread: obedient_worker "audio_turn op" audio_running "\<lambda>_. 0"
  by unfold_locales (auto simp: audio_turn_def audio_iteration_running split: if_splits)

interpretation rx_thread: obedient_worker "\<lambda>(received, now). rx_turn received now" snd "\<lambda>_. 0"
  by unfold_locales (auto simp: rx_turn_def split: if_splits)

interpretation replay_thread: obedient_worker "\<lambda>(t, ret). replay_turn t ret" snd "\<lambda>_. 0"
  by unfold_locales (auto simp: replay_turn_def split: if_splits)

section \<open>Turns of the program\<close>

definition wait :: "('r, 'e) program \<Rightarrow> thread \<Rightarrow> nat" where
  "wait p t = weight (phase_of p t) (if t = Client_worker then client_pending (servers p) else 0)"

lemma wait_zero [simp]: "wait p t = 0 \<longleftrightarrow> phase_of p t = Ended"
  by (simp add: wait_def)

lemma on_server_Inr:
  "on_server t part f store p = Inr p' \<longleftrightarrow>
     (part = None \<and> p' = p
      \<or> (\<exists>v ph v'. part = Some v \<and> f (phase_of p t) v = Inr (ph, v')
           \<and> p' = p\<lparr>servers := store v' (servers p), phase_of := (phase_of p)(t := ph)\<rparr>))"
  by (cases part) (auto simp: on_server_def bind_result_Inr_iff)

text \<open>What a turn of a thread leaves alone: the main thread, which servers there are, the phases of the other
  threads, and the flags, but for the first turn of the CAT thread.\<close>

lemma thread_turn_frame:
  assumes "prog_turn h op E x p = Inr p'" "actor_of x = Thread u"
  shows "main_at p' = main_at p" "main_running (servers p') = main_running (servers p)"
    "constructed (servers p') = constructed (servers p)" "shutdown_acts (servers p') = shutdown_acts (servers p)"
    "t \<noteq> u \<Longrightarrow> phase_of p' t = phase_of p t"
proof -
  have c: "constructed (servers p') v = constructed (servers p) v" for v
    using assms by (cases x; cases v) (auto simp: on_server_Inr)
  show "main_at p' = main_at p" "main_running (servers p') = main_running (servers p)"
    "t \<noteq> u \<Longrightarrow> phase_of p' t = phase_of p t"
    using assms by (cases x; auto simp: on_server_Inr)+
  show "constructed (servers p') = constructed (servers p)" using c by blast
  show "shutdown_acts (servers p') = shutdown_acts (servers p)" by (simp only: shutdown_acts_def c)
qed

lemmas phase_laws = rig_thread.stays_ended keyer_thread.stays_ended [where x = "(a, b)" for a b, simplified]
  client_thread.stays_ended [where x = "(a, b)" for a b, simplified] audio_thread.stays_ended
  rx_thread.stays_ended [where x = "(a, b)" for a b, simplified] replay_thread.stays_ended [where x = "(a, b)" for a b, simplified]

lemmas fresh_laws = rig_thread.never_fresh_again keyer_thread.never_fresh_again [where x = "(a, b)" for a b, simplified]
  client_thread.never_fresh_again [where x = "(a, b)" for a b, simplified] audio_thread.never_fresh_again
  rx_thread.never_fresh_again [where x = "(a, b)" for a b, simplified] replay_thread.never_fresh_again [where x = "(a, b)" for a b, simplified]

lemmas flag_laws = rig_thread.flag_kept keyer_thread.obeys [where x = "(a, b)" for a b, simplified]
  client_thread.obeys [where x = "(a, b)" for a b, simplified] audio_thread.obeys
  rx_thread.obeys [where x = "(a, b)" for a b, simplified] replay_thread.obeys [where x = "(a, b)" for a b, simplified]

lemmas weight_laws = rig_thread.lowers keyer_thread.lowers [where x = "(a, b)" for a b, simplified]
  client_thread.lowers [where x = "(a, b)" for a b, simplified] audio_thread.lowers
  rx_thread.lowers [where x = "(a, b)" for a b, simplified] replay_thread.lowers [where x = "(a, b)" for a b, simplified]

lemma thread_turn_phase:
  assumes "prog_turn h op E x p = Inr p'" "actor_of x = Thread u"
  shows "phase_of p t = Ended \<Longrightarrow> phase_of p' t = Ended" "phase_of p t \<noteq> Fresh \<Longrightarrow> phase_of p' t \<noteq> Fresh"
  using assms by (cases x; cases "t = u"; auto simp: on_server_Inr dest: phase_laws fresh_laws)+

lemma thread_turn_flags:
  assumes "prog_turn h op E x p = Inr p'" "actor_of x = Thread u" "u = Rig_worker \<Longrightarrow> phase_of p u \<noteq> Fresh"
  shows "flag (servers p') t = flag (servers p) t"
  using assms by (cases x; cases t) (auto simp: on_server_Inr dest: flag_laws)

lemma thread_turn_wait:
  assumes "prog_turn h op E x p = Inr p'" "actor_of x = Thread u"
  shows "t \<noteq> u \<Longrightarrow> wait p' t = wait p t"
    "constructed (servers p) (server_of u) \<Longrightarrow> \<not> flag (servers p) u \<Longrightarrow> phase_of p u \<noteq> Ended \<Longrightarrow> wait p' u < wait p u"
proof -
  have k: "keyer_turn E tty opened ph c = Inr (ph', c') \<Longrightarrow> cw_client c' = cw_client c" for tty opened ph c ph' c'
    by (auto simp: keyer_turn_def Let_def bind_result_Inr_iff split: phase.splits if_splits)
  show "wait p' t = wait p t" if "t \<noteq> u"
    using assms that k by (cases x) (auto simp: on_server_Inr wait_def client_pending_def split: option.splits)
  assume "constructed (servers p) (server_of u)" "\<not> flag (servers p) u" "phase_of p u \<noteq> Ended"
  then show "wait p' u < wait p u"
    using assms by (cases x) (auto simp: on_server_Inr wait_def client_pending_def dest: weight_laws)
qed

section \<open>Shutdown\<close>

text \<open>The servers whose flag is down; every thread is waited for after its flag went down, and the descriptors of the
  remote key are closed last.\<close>

definition down :: "('r, 'e) cwsd \<Rightarrow> server set" where
  "down s = {v. \<forall>t. server_of t = v \<longrightarrow> \<not> flag s t}"

fun in_order :: "server set \<Rightarrow> main_act list \<Rightarrow> bool" where
  "in_order C [] = True"
| "in_order C (Clear v # acts) = in_order (insert v C) acts"
| "in_order C (Join t # acts) = (server_of t \<in> C \<and> in_order C acts)"
| "in_order C (Close_remote_key # acts) = (acts = [])"

lemma shutdown_in_order: "in_order C (shutdown_acts s)"
  by (simp add: shutdown_acts_def del: constructed.simps)

lemma shutdown_joins: "Join t \<in> set (shutdown_acts s) \<longleftrightarrow> constructed s (server_of t)"
  by (cases t) (simp_all add: shutdown_acts_def del: constructed.simps)

lemma shutdown_clears: "Clear v \<in> set (shutdown_acts s) \<longleftrightarrow> constructed s v"
  by (cases v) (simp_all add: shutdown_acts_def del: constructed.simps)

lemma shutdown_closes: "Close_remote_key \<in> set (shutdown_acts s) \<longleftrightarrow> constructed s Remote_key"
  by (simp add: shutdown_acts_def del: constructed.simps)

lemma flag_clear: "flag (clear_flag v s) t \<longleftrightarrow> flag s t \<and> server_of t \<noteq> v"
  by (cases v; cases t) (auto simp: stop_def cwdaemon_stop_def audio_stop_def remote_key_clear_def)

lemma down_clear: "down (clear_flag v s) = insert v (down s)"
  by (auto simp: down_def flag_clear)

lemma absent_down: "\<not> constructed s v \<Longrightarrow> v \<in> down s"
proof -
  have "flag s t \<Longrightarrow> constructed s (server_of t)" for t by (cases t) auto
  then show "\<not> constructed s v \<Longrightarrow> v \<in> down s" by (auto simp: down_def)
qed

lemma clear_frame: "constructed (clear_flag v s) = constructed s" "main_running (clear_flag v s) = main_running s"
  by (rule ext, rename_tac w, case_tac v; case_tac w; simp) (cases v; simp)

lemma close_frame:
  "constructed (s\<lparr>remote_key := map_option f (remote_key s)\<rparr>) = constructed s"
  "flag (s\<lparr>remote_key := map_option remote_key_close (remote_key s)\<rparr>) = flag s"
  by (rule ext, rename_tac w, case_tac w; simp) (rule ext, rename_tac w, case_tac w; auto simp: remote_key_close_def)

text \<open>A program that was told to stop and has all its threads under way.\<close>

definition stopping :: "('r, 'e) program \<Rightarrow> bool" where
  "stopping p \<longleftrightarrow> \<not> main_running (servers p) \<and> phase_of p Rig_worker \<noteq> Fresh
     \<and> (\<forall>t. phase_of p t = Ended \<or> constructed (servers p) (server_of t))
     \<and> (\<forall>acts. main_at p = Halting acts \<longrightarrow> in_order (down (servers p)) acts
          \<and> (\<forall>v. v \<in> down (servers p) \<or> Clear v \<in> set acts))"

definition needed :: "('r, 'e) program \<Rightarrow> actor" where
  "needed p = (case main_at p of Halting (Join t # acts) \<Rightarrow> if phase_of p t = Ended then Main else Thread t | _ \<Rightarrow> Main)"

definition shutdown_rank :: "('r, 'e) program \<Rightarrow> nat \<times> nat" where
  "shutdown_rank p =
     (case main_at p of
        In_loop \<Rightarrow> (Suc (length (shutdown_acts (servers p))), 0)
      | Halting acts \<Rightarrow> (length acts, case acts of Join t # _ \<Rightarrow> wait p t | _ \<Rightarrow> 0))"

lemma stopping_thread:
  assumes "stopping p" "prog_turn h op E x p = Inr p'" "actor_of x = Thread u"
  shows "stopping p'" "down (servers p') = down (servers p)"
proof -
  have f: "flag (servers p') t = flag (servers p) t" for t
    using thread_turn_flags [OF assms(2,3)] assms(1) by (auto simp: stopping_def)
  then show d: "down (servers p') = down (servers p)" by (simp add: down_def)
  show "stopping p'"
    using assms(1) thread_turn_frame [OF assms(2,3)] thread_turn_phase [OF assms(2,3)] by (auto simp: stopping_def d)
qed

lemma stopping_main: "stopping p \<Longrightarrow> stopping (main_turn p)"
  by (auto simp: stopping_def main_turn_def down_clear clear_frame close_frame down_def [of "_\<lparr>remote_key := _\<rparr>"]
      shutdown_in_order shutdown_clears absent_down down_def [symmetric]
      split: main_pc.splits list.splits main_act.splits)

lemma signal_frame:
  "constructed (signal_handler s) = constructed s" "flag (signal_handler s) = flag s" "down (signal_handler s) = down s"
  "shutdown_acts (signal_handler s) = shutdown_acts s" "client_pending (signal_handler s) = client_pending s"
  "remote_key (signal_handler s) = remote_key s"
proof -
  have c: "constructed (signal_handler s) v = constructed s v" for v by (cases v) (simp_all add: signal_handler_def)
  have f: "flag (signal_handler s) t = flag s t" for t by (cases t) (simp_all add: signal_handler_def)
  show "constructed (signal_handler s) = constructed s" "flag (signal_handler s) = flag s" using c f by blast+
  show "down (signal_handler s) = down s" by (simp only: down_def f)
  show "shutdown_acts (signal_handler s) = shutdown_acts s" by (simp only: shutdown_acts_def c)
qed (simp_all add: client_pending_def signal_handler_def)

lemma actor_cases:
  obtains "x = Main_turn" | "x = Signal_turn" | u where "actor_of x = Thread u"
  by (cases x) auto

lemma stopping_turn: "stopping p \<Longrightarrow> prog_turn h op E x p = Inr p' \<Longrightarrow> stopping p'"
proof (cases x rule: actor_cases)
  case 2
  then show "stopping p \<Longrightarrow> prog_turn h op E x p = Inr p' \<Longrightarrow> stopping p'"
    by (auto simp: stopping_def signal_frame) (simp add: signal_handler_def)
qed (auto intro: stopping_main stopping_thread)

lemma signal_same: "shutdown_rank (p\<lparr>servers := signal_handler (servers p)\<rparr>) = shutdown_rank p"
    "needed (p\<lparr>servers := signal_handler (servers p)\<rparr>) = needed p"
  by (auto simp: shutdown_rank_def needed_def signal_frame wait_def split: main_pc.splits list.splits main_act.splits)

lemma main_turn_rank:
  assumes "stopping p"
  shows "if needed p = Main \<and> main_at p \<noteq> Halting []
    then (shutdown_rank (main_turn p), shutdown_rank p) \<in> less_than <*lex*> less_than else main_turn p = p"
  using assms
  by (auto simp: main_turn_def needed_def shutdown_rank_def stopping_def
      split: main_pc.splits list.splits main_act.splits if_splits)

text \<open>A thread the main thread waits for was told to stop.\<close>

lemma waited_for:
  assumes "stopping p" "main_at p = Halting (Join t # acts)"
  shows "\<not> flag (servers p) t"
  using assms by (auto simp: stopping_def down_def)

lemma thread_turn_rank:
  assumes "stopping p" "prog_turn h op E x p = Inr p'" "actor_of x = Thread u"
  shows "if needed p = Thread u then (shutdown_rank p', shutdown_rank p) \<in> less_than <*lex*> less_than
    else shutdown_rank p' = shutdown_rank p \<and> needed p' = needed p"
proof (cases "\<exists>t acts. main_at p = Halting (Join t # acts)")
  case True
  then obtain t acts where m: "main_at p = Halting (Join t # acts)" by blast
  have m': "main_at p' = Halting (Join t # acts)" using m thread_turn_frame(1) [OF assms(2,3)] by simp
  have c: "phase_of p t = Ended \<or> constructed (servers p) (server_of t)" using assms(1) by (simp add: stopping_def)
  note w = thread_turn_wait [OF assms(2,3)] and f = waited_for [OF assms(1) m]
  show ?thesis
  proof (cases "t = u \<and> phase_of p t \<noteq> Ended")
    case True
    then show ?thesis using m m' w(2) c f by (auto simp: needed_def shutdown_rank_def)
  next
    case False
    then have "wait p' t = wait p t" using w(1) thread_turn_phase(1) [OF assms(2,3)] by (metis wait_zero)
    moreover from this have "(phase_of p' t = Ended) = (phase_of p t = Ended)" by (metis wait_zero)
    ultimately show ?thesis using m m' False by (auto simp: needed_def shutdown_rank_def)
  qed
next
  case False
  then show ?thesis
    using thread_turn_frame(1,4) [OF assms(2,3)]
    by (auto simp: needed_def shutdown_rank_def split: main_pc.splits list.splits main_act.splits)
qed

interpretation shutdown: fair_progress "prog_turn h op E" actor_of stopping needed shutdown_rank
proof
  fix x p p'
  assume p: "stopping p" "prog_turn h op E x p = Inr p'"
  show "stopping p'" using p by (rule stopping_turn)
  show "shutdown_rank p' = shutdown_rank p \<and> needed p' = needed p
      \<or> (shutdown_rank p', shutdown_rank p) \<in> less_than <*lex*> less_than"
    using p main_turn_rank [OF p(1)] thread_turn_rank [OF p] signal_same [of p]
    by (cases x rule: actor_cases) (auto split: if_splits)
  assume "actor_of x = needed p" "shutdown_rank p \<noteq> (0, 0)"
  moreover have "shutdown_rank p = (0, 0)" if "main_at p = Halting []" using that by (simp add: shutdown_rank_def)
  ultimately show "(shutdown_rank p', shutdown_rank p) \<in> less_than <*lex*> less_than"
    using p main_turn_rank [OF p(1)] thread_turn_rank [OF p]
    by (cases x rule: actor_cases) (auto simp: needed_def split: if_splits main_pc.splits list.splits main_act.splits)
qed

text \<open>What holds in every run: the main thread has waited for every thread it does not still have to wait for, and the
  lines of the remote key follow its flags until the replay thread ends, and are low then.\<close>

definition key_lines :: "phase \<Rightarrow> rk \<Rightarrow> bool" where
  "key_lines ph sr =
     (case ph of
        Fresh \<Rightarrow> lines_safe sr \<and> rk_fd (fst sr) < 0
      | Looping \<Rightarrow> lines_safe sr
      | Ended \<Rightarrow> \<not> dtr_line (fst sr) \<and> \<not> rts_line (fst sr))"

definition key_closed :: "('r, 'e) cwsd \<Rightarrow> bool" where
  "key_closed s \<longleftrightarrow> pred_option (\<lambda>x. rk_fd (fst (fst x)) < 0 \<and> rk_sockfd (fst (fst x)) < 0) (remote_key s)"

definition joined :: "('r, 'e) program \<Rightarrow> bool" where
  "joined p \<longleftrightarrow>
     (case main_at p of
        In_loop \<Rightarrow> \<forall>t. phase_of p t = Ended \<or> constructed (servers p) (server_of t)
      | Halting acts \<Rightarrow> (\<forall>t. phase_of p t = Ended \<or> Join t \<in> set acts) \<and> in_order UNIV acts
          \<and> (Close_remote_key \<in> set acts \<or> phase_of p Replay_worker = Ended \<and> key_closed (servers p)))
     \<and> pred_option (\<lambda>x. key_lines (phase_of p Replay_worker) (fst x)) (remote_key (servers p))"

lemma receive_datagram_frame:
  "dtr_line (receive_datagram buf now s) = dtr_line s" "rts_line (receive_datagram buf now s) = rts_line s"
  "rk_fd (receive_datagram buf now s) = rk_fd s" "rk_sockfd (receive_datagram buf now s) = rk_sockfd s"
  "lines_safe (receive_datagram buf now s, r) = lines_safe (s, r)"
proof -
  have "rk_fd (fold (enqueue_edge now) es s) = rk_fd s \<and> rk_sockfd (fold (enqueue_edge now) es s) = rk_sockfd s" for es s
    by (induction es arbitrary: s) (simp_all add: enqueue_edge_def Let_def)
  then show "rk_fd (receive_datagram buf now s) = rk_fd s" "rk_sockfd (receive_datagram buf now s) = rk_sockfd s"
    by (simp_all add: receive_datagram_def accept_packet_def begin_session_def store_last_rx_def Let_def split: option.splits)
qed (simp_all add: receive_datagram_def receive_frame lines_safe_receive split: option.splits)

lemma lines_safe_iteration: "lines_safe x \<Longrightarrow> lines_safe (replay_iteration t ret x)"
  using iterations.keeps_lines [of x "(t, ret)"] by simp

lemma replay_turn_lines:
  assumes "replay_turn t ret ph x = Inr (ph', x')" "key_lines ph (fst x)"
  shows "key_lines ph' (fst x')"
proof (cases ph)
  case Fresh
  then show ?thesis
    using assms by (cases x; cases "fst x") (auto simp: replay_turn_def key_lines_def lines_safe_def open_port_def Let_def split: if_splits)
qed (use assms shutdown_lines [of "fst x"] in
    \<open>auto simp: replay_turn_def key_lines_def lines_safe_iteration split: if_splits prod.splits\<close>)

lemma rx_turn_frame:
  assumes "rx_turn received now ph x = Inr (ph', x')"
  shows "key_lines ph2 (fst x') = key_lines ph2 (fst x)"
    "rk_fd (fst (fst x')) = rk_fd (fst (fst x))" "rk_sockfd (fst (fst x')) = rk_sockfd (fst (fst x))"
  using assms
  by (cases ph; cases ph2; auto simp: rx_turn_def key_lines_def receive_datagram_frame split: if_splits option.splits prod.splits)+

lemma rx_turn_closed:
  "rx_turn received now ph x = Inr (ph', x') \<Longrightarrow> rk_fd (fst (fst x)) < 0 \<and> rk_sockfd (fst (fst x)) < 0
   \<Longrightarrow> rk_fd (fst (fst x')) < 0 \<and> rk_sockfd (fst (fst x')) < 0"
  by (simp add: rx_turn_frame)

lemma rx_turn_lines: "rx_turn received now ph x = Inr (ph', x') \<Longrightarrow> key_lines ph2 (fst x) \<Longrightarrow> key_lines ph2 (fst x')"
  by (simp add: rx_turn_frame)

lemma joined_thread:
  assumes "joined p" "prog_turn h op E x p = Inr p'" "actor_of x = Thread u"
  shows "joined p'"
proof -
  have k: "pred_option (\<lambda>x. key_lines (phase_of p' Replay_worker) (fst x)) (remote_key (servers p'))"
    using assms
    by (cases x) (auto simp: joined_def on_server_Inr dest: replay_turn_lines rx_turn_lines)
  have c: "key_closed (servers p')" if "key_closed (servers p)" "phase_of p Replay_worker = Ended"
    using assms(2,3) that
    by (cases x) (auto simp: key_closed_def on_server_Inr dest: rx_turn_closed replay_thread.ended [of "(a, b)" for a b, simplified])
  show ?thesis
    using assms(1) k c thread_turn_frame [OF assms(2,3)] thread_turn_phase(1) [OF assms(2,3)]
    by (auto simp: joined_def split: main_pc.splits)
qed

lemma rk_close_fields:
  "dtr_line (rk_close s) = dtr_line s" "rts_line (rk_close s) = rts_line s" "rk_fd (rk_close s) < 0" "rk_sockfd (rk_close s) < 0"
  by (simp_all add: rk_close_def Let_def)

lemma clear_key: "remote_key (clear_flag v s) = (if v = Remote_key then map_option remote_key_clear (remote_key s) else remote_key s)"
  by (cases v) simp_all

lemma fst_remote_key_clear [simp]: "fst (remote_key_clear x) = fst x"
  by (simp add: remote_key_clear_def split: prod.split)

lemma joined_main:
  assumes "joined p"
  shows "joined (main_turn p)"
proof (cases "\<exists>acts. main_at p = Halting (Close_remote_key # acts)")
  case True
  then have m: "main_at p = Halting [Close_remote_key]" "\<forall>t. phase_of p t = Ended" using assms by (auto simp: joined_def)
  then show ?thesis
    using assms
    by (auto simp: joined_def main_turn_def key_closed_def remote_key_close_def rk_close_fields key_lines_def
        option.pred_map comp_def case_prod_beta option.pred_True)
next
  case False
  show ?thesis
  proof (cases "main_at p")
    case In_loop
    have "phase_of p Replay_worker = Ended \<and> key_closed (servers p)" if "\<not> constructed (servers p) Remote_key"
      using assms In_loop that by (cases "remote_key (servers p)") (force simp: joined_def key_closed_def)+
    then show ?thesis
      using assms In_loop
      by (auto simp: joined_def main_turn_def shutdown_joins shutdown_closes shutdown_in_order simp del: constructed.simps)
  next
    case (Halting acts)
    then show ?thesis
      using assms False
      by (auto simp: joined_def main_turn_def key_closed_def clear_key option.pred_map comp_def
          split: list.splits main_act.splits)
  qed
qed

lemma joined_run: "prog_run h op E turns p = Inr q \<Longrightarrow> joined p \<Longrightarrow> joined q"
  unfolding prog_run_def
proof (erule run_turns_invariant)
  show "joined t'" if "joined t" "prog_turn h op E x t = Inr t'" for x t t'
  proof (cases x rule: actor_cases)
    case 2
    then have "t' = t\<lparr>servers := signal_handler (servers t)\<rparr>" using that(2) by simp
    then show ?thesis using that(1) by (simp add: joined_def key_closed_def signal_frame split: main_pc.splits)
  qed (use that in \<open>auto intro: joined_main joined_thread\<close>)
qed

lemma joined_new:
  assumes "cwsd_new op E b cfg = (None, s)"
  shows "joined (program_new s)"
proof -
  have "pred_option (\<lambda>x. key_lines Fresh (fst x)) (remote_key s)"
    using assms
    by (auto simp: cwsd_new_def start_if_def cwsd_zero_def remote_key_server_new_def key_lines_def lines_safe_def
        rks_init_def replay_init_def split: sum.splits if_splits)
  moreover have "constructed (s\<lparr>main_running := True\<rparr>) v = constructed s v" for v by (cases v) simp_all
  ultimately show ?thesis
    by (cases "remote_key s") (auto simp: joined_def program_new_def split: if_splits)
qed

text \<open>A round in which the main thread and every other thread take at least one turn, in any order and among
  any others.\<close>

definition fair_round :: "turn list \<Rightarrow> bool" where
  "fair_round xs \<longleftrightarrow> Main_turn \<in> set xs \<and> (\<forall>t. Thread t \<in> actor_of ` set xs)"

text \<open>
  (C32) From construction to the end: once the servers are constructed, a signal that is caught while the main thread is in
  its loop and the CAT thread has started ends the program, however the threads are scheduled and whatever they meet,
  as long as every thread goes on taking turns. Unless a thread takes the process down, the main thread returns from \<open>run\<close>
  after finitely many rounds; then every thread has ended, every flag is down, the key and PTT lines of
  the remote key are low, and its descriptors are closed.
\<close>

theorem signal_stops_servers:
  assumes "cwsd_new op E b cfg = (None, s)" "cwsd_run h op E before s = Inr p"
    and "main_at p = In_loop" "phase_of p Rig_worker \<noteq> Fresh" "\<forall>i. fair_round (rounds i)"
  shows "\<exists>n. case prog_run h op E (Signal_turn # concat (map rounds [0..<n])) p of
      Inl e \<Rightarrow> True
    | Inr q \<Rightarrow> main_at q = Halting [] \<and> (\<forall>t. phase_of q t = Ended \<and> \<not> flag (servers q) t)
        \<and> (\<forall>k r alive. remote_key (servers q) = Some ((k, r), alive) \<longrightarrow>
              \<not> dtr_line k \<and> \<not> rts_line k \<and> rk_fd k < 0 \<and> rk_sockfd k < 0)"
proof -
  let ?p = "p\<lparr>servers := signal_handler (servers p)\<rparr>"
  have j: "joined p" using joined_run [of h op E before] joined_new [OF assms(1)] assms(2) by (simp add: cwsd_run_def)
  then have "stopping ?p"
    using assms(3,4) by (auto simp: stopping_def joined_def signal_frame) (simp add: signal_handler_def)
  moreover have "needed t \<in> actor_of ` set (rounds i)" for i and t :: "('a, 'b) program"
    using assms(5) by (force simp: needed_def fair_round_def split: main_pc.splits list.splits main_act.splits)
  ultimately obtain n where n: "case run_turns (prog_turn h op E) (concat (map rounds [0..<n])) ?p of
      Inl e \<Rightarrow> True | Inr q \<Rightarrow> stopping q \<and> shutdown_rank q = (0, 0)"
    using shutdown.eventually_done [of ?p rounds h op E] by blast
  have "main_at q = Halting [] \<and> (\<forall>t. phase_of q t = Ended \<and> \<not> flag (servers q) t)
      \<and> (\<forall>k r alive. remote_key (servers q) = Some ((k, r), alive) \<longrightarrow>
            \<not> dtr_line k \<and> \<not> rts_line k \<and> rk_fd k < 0 \<and> rk_sockfd k < 0)"
    if q: "prog_run h op E (Signal_turn # concat (map rounds [0..<n])) p = Inr q" for q
  proof -
    have "stopping q" "main_at q = Halting []"
      using n q by (auto simp: prog_run_def shutdown_rank_def split: main_pc.splits)
    moreover have "joined q" using joined_run [OF q j] .
    ultimately show ?thesis by (auto simp: joined_def stopping_def down_def key_closed_def key_lines_def)
  qed
  then show ?thesis by (intro exI [of _ n]) (simp split: sum.splits)
qed

text \<open>
  Without the condition on the CAT thread this fails. When a signal is caught and the main thread has told the CAT
  server to stop before its thread has executed its first statement, that thread then sets the flag again, and the
  main thread waits for it for ever, whatever the schedule.
\<close>

theorem stop_before_start_hangs:
  assumes "cwsd_new op E b cfg = (None, s)" "rigctld_enabled (rigctld_cfg cfg)"
    and "cwsd_run h op E ([Signal_turn, Main_turn, Main_turn] @ turns) s = Inr q"
  shows "main_at q \<noteq> Halting []"
proof -
  define hung where "hung p \<longleftrightarrow> (\<exists>acts. main_at p = Halting (Join Rig_worker # acts)) \<and> constructed (servers p) Rigctld
    \<and> (phase_of p Rig_worker = Fresh \<or> phase_of p Rig_worker = Looping \<and> flag (servers p) Rig_worker)" for p :: "('a, 'b) program"
  have step: "hung t'" if "hung t" "prog_turn h op E x t = Inr t'" for x t t'
  proof (cases x rule: actor_cases)
    case 1
    then have "t' = t" using that by (auto simp: hung_def main_turn_def)
    then show ?thesis using that(1) by simp
  next
    case 2
    then have "t' = t\<lparr>servers := signal_handler (servers t)\<rparr>" using that(2) by simp
    then show ?thesis using that(1) by (simp add: hung_def signal_frame del: flag.simps constructed.simps)
  next
    case (3 u)
    show ?thesis
    proof (cases "u = Rig_worker")
      case True
      then show ?thesis
        using that 3 by (cases x) (auto simp: hung_def on_server_Inr rig_turn_def bind_result_Inr_iff work_iteration_running split: if_splits)
    next
      case False
      then show ?thesis
        using that(1) thread_turn_frame [OF that(2) 3] thread_turn_flags [OF that(2) 3]
        by (metis hung_def)
    qed
  qed
  have c: "rigctld s \<noteq> None"
    using assms(1,2) by (auto simp: cwsd_new_def start_if_def cwsd_zero_def split: sum.splits if_splits)
  let ?p = "main_turn (main_turn ((program_new s)\<lparr>servers := signal_handler (servers (program_new s))\<rparr>))"
  have "hung ?p"
    using c by (auto simp: hung_def main_turn_def program_new_def signal_handler_def shutdown_acts_def stop_def)
  moreover have "run_turns (prog_turn h op E) turns ?p = Inr q"
    using assms(3) by (simp add: cwsd_run_def prog_run_def)
  ultimately have "hung q" using run_turns_invariant [of _ turns ?p q hung] step by blast
  then show ?thesis by (auto simp: hung_def)
qed

text \<open>
  A signal that is caught while the servers are being constructed is forgotten: entering the main
  loop sets the flag again, and without another signal the main thread stays in its loop.
\<close>

theorem early_signal_forgotten:
  assumes "cwsd_run h op E turns (signal_handler s) = Inr q" "Signal_turn \<notin> set turns"
  shows "main_at q = In_loop"
proof -
  have "main_at q = In_loop \<and> main_running (servers q)"
    if "prog_run h op E turns p = Inr q" "main_at p = In_loop" "main_running (servers p)" "Signal_turn \<notin> set turns" for p
    using that unfolding prog_run_def
  proof (induction turns arbitrary: p)
    case (Cons x turns)
    obtain p1 where p1: "prog_turn h op E x p = Inr p1" "run_turns (prog_turn h op E) turns p1 = Inr q"
      using Cons.prems(1) by (auto simp: bind_result_Inr_iff)
    have "main_at p1 = In_loop \<and> main_running (servers p1)"
      using Cons.prems(2-4) p1(1) thread_turn_frame(1,2) [OF p1(1)]
      by (cases x rule: actor_cases) (auto simp: main_turn_def)
    then show ?case using Cons.IH p1(2) Cons.prems(4) by simp
  qed simp
  then show ?thesis using assms by (simp add: cwsd_run_def program_new_def)
qed

text \<open>A program with the remote key alone.\<close>

definition key_only :: cwsd_config where
  "key_only = demo_config\<lparr>cwdaemon_cfg := \<lparr>cwd_enabled = False, cwd_port = 0, initial_wpm = 0\<rparr>,
     rigctld_cfg := \<lparr>rigctld_enabled = False, rigctld_port = 0\<rparr>, audio_cfg := audio_stream_config_default\<rparr>"

definition boot :: boot_answers where
  "boot = \<lparr>rig_socket = 0, rig_bind = 0, rig_listen = 0, cw_socket = 0, cw_setsockopt = 0, cw_bind = 0,
     cw_garbage = [], audio_socket = 0, audio_bind = 0, rk_socket = 3, rk_bind = 0\<rparr>"

definition demo_round :: "turn list" where
  "demo_round = [Replay_turn 1000 4, Main_turn, Rig_turn (demo_os []), Keyer_turn True 4, Client_turn Recvfrom_error 0,
     Audio_turn (demo_pass [] 160), Rx_turn None 0]"

lemma demo_round_fair: "fair_round demo_round"
proof -
  have "Thread t \<in> actor_of ` set demo_round" for t by (cases t) (simp_all add: demo_round_def)
  then show ?thesis by (simp add: fair_round_def demo_round_def)
qed

text \<open>The remote key alone never takes the process down.\<close>

lemma remote_key_total: "\<exists>y. rx_turn a t ph v = Inr y" "\<exists>y. replay_turn t i ph v = Inr y"
  unfolding rx_turn_def replay_turn_def by (cases v, cases "fst v", cases ph, simp_all del: split_paired_Ex)+

lemma key_only_runs:
  "rigctld (servers p) = None \<Longrightarrow> cwdaemon (servers p) = None \<Longrightarrow> audio (servers p) = None \<Longrightarrow> \<exists>q. prog_run h op E turns p = Inr q"
  unfolding prog_run_def
proof (induction turns arbitrary: p)
  case (Cons x turns)
  have on: "\<exists>q. on_server t part f store p = Inr q" if tot: "part = None \<or> (\<forall>v. \<exists>y. f (phase_of p t) v = Inr y)"
    for t and part :: "'c option" and f and store :: "'c \<Rightarrow> ('a, 'b) cwsd \<Rightarrow> ('a, 'b) cwsd"
  proof (cases part)
    case (Some v)
    then obtain y where "f (phase_of p t) v = Inr y" using tot by blast
    then show ?thesis using Some by (cases y) (simp add: on_server_def)
  qed (simp add: on_server_def)
  have "\<exists>q. prog_turn h op E x p = Inr q"
    using Cons.prems remote_key_total by (cases x) (auto intro!: on)
  then obtain q where q: "prog_turn h op E x p = Inr q" by blast
  have "rigctld (servers q) = None \<and> cwdaemon (servers q) = None \<and> audio (servers q) = None"
  proof (cases "x = Main_turn")
    case True
    moreover have "rigctld (clear_flag v (servers p)) = None \<and> cwdaemon (clear_flag v (servers p)) = None \<and> audio (clear_flag v (servers p)) = None" for v
      using Cons.prems by (cases v) simp_all
    ultimately show ?thesis
      using q Cons.prems by (auto simp: main_turn_def split: main_pc.splits list.splits main_act.splits)
  next
    case False
    then show ?thesis using q Cons.prems by (cases x) (auto simp: on_server_Inr signal_handler_def)
  qed
  then show ?case using Cons.IH q by simp
qed simp

theorem signal_stops_servers_witness:
  "\<exists>s n q. cwsd_new demo_opus still_env boot key_only = (None, s)
     \<and> prog_run demo_hamlib demo_opus still_env (Signal_turn # concat (map (\<lambda>_. demo_round) [0..<n])) (program_new s) = Inr q
     \<and> main_at q = Halting [] \<and> phase_of q Replay_worker = Ended"
proof -
  have en: "\<not> cwd_enabled (cwdaemon_cfg key_only)" "\<not> rigctld_enabled (rigctld_cfg key_only)"
    "\<not> aud_enabled (audio_cfg key_only)" "rkc_enabled (remote_key_cfg key_only)"
    by (simp_all add: key_only_def demo_config_def audio_stream_config_default_def)
  obtain x where x: "remote_key_server_new boot (remote_key_cfg key_only) = Inr x"
    by (simp add: remote_key_server_new_def boot_def)
  define s where "s = (cwsd_zero\<lparr>remote_key := Some x\<rparr> :: (flt, unit) cwsd)"
  have n: "cwsd_new demo_opus still_env boot key_only = (None, s)"
    by (simp add: cwsd_new_def start_if_def en x s_def)
  have absent: "rigctld (servers (program_new s)) = None" "cwdaemon (servers (program_new s)) = None"
    "audio (servers (program_new s)) = None" "phase_of (program_new s) Rig_worker \<noteq> Fresh" "main_at (program_new s) = In_loop"
    by (simp_all add: program_new_def s_def cwsd_zero_def)
  have "cwsd_run demo_hamlib demo_opus still_env [] s = Inr (program_new s)" by (simp add: cwsd_run_def prog_run_def)
  from signal_stops_servers [OF n this absent(5,4), of "\<lambda>_. demo_round"] demo_round_fair
  obtain m where m: "case prog_run demo_hamlib demo_opus still_env (Signal_turn # concat (map (\<lambda>_. demo_round) [0..<m])) (program_new s) of
      Inl e \<Rightarrow> True | Inr q \<Rightarrow> main_at q = Halting [] \<and> (\<forall>t. phase_of q t = Ended \<and> \<not> flag (servers q) t)
        \<and> (\<forall>k r alive. remote_key (servers q) = Some ((k, r), alive) \<longrightarrow>
              \<not> dtr_line k \<and> \<not> rts_line k \<and> rk_fd k < 0 \<and> rk_sockfd k < 0)"
    by blast
  obtain q where "prog_run demo_hamlib demo_opus still_env (Signal_turn # concat (map (\<lambda>_. demo_round) [0..<m])) (program_new s) = Inr q"
    using key_only_runs [OF absent(1-3)] by blast
  then show ?thesis using n m by (intro exI [of _ s] exI [of _ m] exI [of _ q]) simp
qed

end
