(* ===== verification/Oscillator.thy ===== *)
theory Oscillator
  imports Cpp_Float
begin

text \<open>
  \<open>src/keyer/oscillator.{h,cpp}\<close>: the tone generator, a phase accumulator over four tables of 1024
  samples. The samples are integers; that they fit \<open>int16_t\<close> is proved. The values of \<open>sin\<close>, scaled
  and converted, are an argument of the constructor, as is what the memory of the tables held before.
\<close>

section \<open>State\<close>

datatype wave_type = Sine | Triangle | Sawtooth | Square

fun wave_index :: "wave_type \<Rightarrow> nat" where
  "wave_index Sine = 0"
| "wave_index Triangle = 1"
| "wave_index Sawtooth = 2"
| "wave_index Square = 3"

record oscillator =
  samplerate :: flt
  phase :: u32
  phase_add :: u32
  tables :: "int list list"
  osc_type :: wave_type
  table_index :: nat

section \<open>Tables\<close>

text \<open>Integer division truncates towards zero.\<close>

definition c_div :: "int \<Rightarrow> int \<Rightarrow> int" where
  "c_div a b = (if a < 0 then - ((- a) div b) else a div b)"

definition triangle_value :: "int \<Rightarrow> int" where
  "triangle_value i = (if i < 512 then c_div ((i - 256) * 32767) 256 else c_div ((255 - (i - 512)) * 32767) 256)"

definition sawtooth_value :: "int \<Rightarrow> int" where
  "sawtooth_value i = c_div (i * 65535) 1025 - 32767"

definition square_value :: "int \<Rightarrow> int" where
  "square_value i = (if i < 512 then -32767 else 32767)"

text \<open>A loop over \<open>i\<close> that writes the cell \<open>(i + offset) & 0b1111111111\<close>.\<close>

definition fill :: "nat \<Rightarrow> (int \<Rightarrow> int) \<Rightarrow> int list \<Rightarrow> int list" where
  "fill offset f t = fold (\<lambda>i t. t[(i + offset) AND 1023 := f (int i)]) [0..<1024] t"

definition oscillator_new :: "(int \<Rightarrow> int) \<Rightarrow> int list list \<Rightarrow> flt \<Rightarrow> oscillator" where
  "oscillator_new sine garbage sr =
     \<lparr>samplerate = sr, phase = 0, phase_add = 0,
      tables = [fill 0 sine (garbage ! 0), fill 256 triangle_value (garbage ! 1),
                fill 512 sawtooth_value (garbage ! 2), fill 0 square_value (garbage ! 3)],
      osc_type = Sine, table_index = 0\<rparr>"

section \<open>Operations\<close>

definition osc_set_wave_type :: "wave_type \<Rightarrow> oscillator \<Rightarrow> oscillator" where
  "osc_set_wave_type t s = s\<lparr>osc_type := t, table_index := wave_index t\<rparr>"

definition osc_set_frequency :: "flt \<Rightarrow> oscillator \<Rightarrow> oscillator option" where
  "osc_set_frequency frequency s =
     map_option (\<lambda>a. s\<lparr>phase_add := a\<rparr>)
       (to_u32 (mul32 (f32_of_int 4294967295) (div32 frequency (samplerate s))))"

definition osc_reset :: "oscillator \<Rightarrow> oscillator" where
  "osc_reset s = s\<lparr>phase := 0\<rparr>"

text \<open>\<open>tables[table_index][idx]\<close>, undefined out of range.\<close>

definition table_read :: "u32 \<Rightarrow> oscillator \<Rightarrow> int option" where
  "table_read ph s =
     (let idx = unat (drop_bit 22 ph) in
      if table_index s < length (tables s) \<and> idx < length (tables s ! table_index s)
      then Some (tables s ! table_index s ! idx) else None)"

definition osc_tick :: "oscillator \<Rightarrow> (int \<times> oscillator) option" where
  "osc_tick s = map_option (\<lambda>v. (v, s\<lparr>phase := phase s + phase_add s\<rparr>)) (table_read (phase s) s)"

definition get_at_phase_offset :: "u32 \<Rightarrow> oscillator \<Rightarrow> int option" where
  "get_at_phase_offset phase_offset s = table_read (phase s + phase_offset) s"

section \<open>The tables are complete\<close>

lemma and_1023: "n AND 1023 = n mod 1024" for n :: nat
  using take_bit_eq_mask [of 10 n] by (simp add: take_bit_eq_mod mask_eq_exp_minus_1)

lemma fill_upto:
  assumes "m \<le> 1024" "length t = 1024"
  shows "length (fold (\<lambda>i t. t[(i + offset) AND 1023 := f (int i)]) [0..<m] t) = 1024
    \<and> (\<forall>i < m. fold (\<lambda>i t. t[(i + offset) AND 1023 := f (int i)]) [0..<m] t ! ((i + offset) mod 1024) = f (int i))"
  using assms(1)
proof (induction m)
  case (Suc m)
  have "(m + offset) mod 1024 \<noteq> (i + offset) mod 1024" if "i < m" for i
    using that Suc.prems mod_eq_dvd_iff_nat [of "i + offset" "m + offset" 1024] nat_dvd_not_less [of "m - i" 1024]
    by auto
  with Suc show ?case by (auto simp: and_1023 less_Suc_eq nth_list_update)
qed (use assms(2) in simp)

lemma length_fill [simp]: "length t = 1024 \<Longrightarrow> length (fill offset f t) = 1024"
  using fill_upto [of 1024 t offset f] by (simp add: fill_def)

lemma fill_cell:
  assumes "length t = 1024" "i < 1024"
  shows "fill offset f t ! ((i + offset) mod 1024) = f (int i)"
  using fill_upto [of 1024 t offset f] assms by (simp add: fill_def)

text \<open>The computed samples fit \<open>int16_t\<close>.\<close>

lemma triangle_bounds: "0 \<le> i \<Longrightarrow> i < 1024 \<Longrightarrow> -32767 \<le> triangle_value i \<and> triangle_value i \<le> 32767"
  unfolding triangle_value_def c_div_def by (auto split: if_splits; presburger)

lemma sawtooth_bounds: "0 \<le> i \<Longrightarrow> i < 1024 \<Longrightarrow> -32767 \<le> sawtooth_value i \<and> sawtooth_value i \<le> 32767"
  unfolding sawtooth_value_def c_div_def by (auto split: if_splits; presburger)

section \<open>Playing\<close>

definition osc_ok :: "oscillator \<Rightarrow> bool" where
  "osc_ok s \<longleftrightarrow> length (tables s) = 4 \<and> (\<forall>t \<in> set (tables s). length t = 1024) \<and> table_index s = wave_index (osc_type s)"

fun osc_ticks :: "nat \<Rightarrow> oscillator \<Rightarrow> (int list \<times> oscillator) option" where
  "osc_ticks 0 s = Some ([], s)"
| "osc_ticks (Suc n) s =
     Option.bind (osc_tick s) (\<lambda>(v, s1). map_option (apfst ((#) v)) (osc_ticks n s1))"

lemma wave_index_less: "wave_index t < 4"
  by (cases t) simp_all

lemma unat_index: "unat (drop_bit 22 (ph :: u32)) = unat ph div 2 ^ 22"
  by (subst unat_drop_bit_eq) (rule drop_bit_eq_div)

lemma osc_index: "unat (drop_bit 22 (ph :: u32)) < 1024"
proof -
  have "unat ph < 2 ^ 32" using unsigned_less [of ph, where 'a = nat] by simp
  then show ?thesis by (simp only: unat_index) (simp add: less_mult_imp_div_less)
qed

lemma table_read_ok:
  assumes "osc_ok s"
  shows "table_read ph s = Some (tables s ! table_index s ! (unat ph div 2 ^ 22))"
proof -
  have t: "table_index s < length (tables s)" using assms wave_index_less [of "osc_type s"] by (simp add: osc_ok_def)
  then have "tables s ! table_index s \<in> set (tables s)" by simp
  then have "length (tables s ! table_index s) = 1024" using assms by (simp add: osc_ok_def)
  then show ?thesis using t osc_index [of ph] by (simp only: table_read_def Let_def if_True simp_thms unat_index)
qed

lemma osc_tick_ok:
  assumes "osc_ok s"
  shows "osc_tick s = Some (tables s ! table_index s ! (unat (phase s) div 2 ^ 22), s\<lparr>phase := phase s + phase_add s\<rparr>)"
    "osc_ok (s\<lparr>phase := phase s + phase_add s\<rparr>)"
  using assms table_read_ok [OF assms] by (simp_all add: osc_tick_def osc_ok_def)

text \<open>
  (C40) The oscillator plays its table at a constant rate and never reads outside it: from a constructed
  oscillator, whatever the memory of the tables held before and whichever wave is set, every
  sequence of ticks is defined, and its \<open>k\<close>-th sample is the table entry at \<open>phase + k phase_add\<close> modulo
  \<open>2^32\<close>, cut to its top ten bits. The tables hold the shifted triangle and sawtooth and the square.
\<close>

theorem oscillator_plays_table:
  assumes "length garbage = 4" "\<forall>t \<in> set garbage. length t = 1024"
    and "s = (osc_set_wave_type w (oscillator_new sine garbage sr))\<lparr>phase := p, phase_add := a\<rparr>"
  shows "osc_ticks n s = Some (map (\<lambda>k. tables s ! wave_index w ! (unat (p + of_nat k * a) div 2 ^ 22)) [0..<n],
           s\<lparr>phase := p + of_nat n * a\<rparr>)
    \<and> (\<forall>i < 1024. tables s ! 1 ! ((i + 256) mod 1024) = triangle_value (int i)
         \<and> tables s ! 2 ! ((i + 512) mod 1024) = sawtooth_value (int i)
         \<and> tables s ! 3 ! i = square_value (int i))"
proof
  have g: "length (garbage ! i) = 1024" if "i < 4" for i using that assms(1,2) by simp
  then show "\<forall>i < 1024. tables s ! 1 ! ((i + 256) mod 1024) = triangle_value (int i)
      \<and> tables s ! 2 ! ((i + 512) mod 1024) = sawtooth_value (int i) \<and> tables s ! 3 ! i = square_value (int i)"
    using fill_cell [of "garbage ! 1" _ 256] fill_cell [of "garbage ! 2" _ 512] fill_cell [of "garbage ! 3" _ 0]
    by (simp add: assms(3) osc_set_wave_type_def oscillator_new_def)
  have ok: "osc_ok s" using assms(3) g by (auto simp: osc_ok_def osc_set_wave_type_def oscillator_new_def)
  have "osc_ticks n s = Some (map (\<lambda>k. tables s ! table_index s ! (unat (phase s + of_nat k * phase_add s) div 2 ^ 22)) [0..<n],
      s\<lparr>phase := phase s + of_nat n * phase_add s\<rparr>)" if "osc_ok s" for s
    using that
  proof (induction n arbitrary: s)
    case (Suc n)
    let ?s = "s\<lparr>phase := phase s + phase_add s\<rparr>"
    show ?case
      using Suc.IH [OF osc_tick_ok(2) [OF Suc.prems]] osc_tick_ok(1) [OF Suc.prems]
      by (simp add: upt_conv_Cons map_Suc_upt [symmetric] o_def algebra_simps del: upt_Suc)
  qed simp
  from this [OF ok] show "osc_ticks n s = Some (map (\<lambda>k. tables s ! wave_index w ! (unat (p + of_nat k * a) div 2 ^ 22)) [0..<n],
      s\<lparr>phase := p + of_nat n * a\<rparr>)" using assms(3) by (simp add: osc_set_wave_type_def)
qed

text \<open>A triangle at a quarter of the sample rate: the entries 0, 256, 512 and 768.\<close>

theorem oscillator_plays_table_witness:
  "\<exists>s'. osc_ticks 4 ((osc_set_wave_type Triangle (oscillator_new (\<lambda>_. 0) (replicate 4 (replicate 1024 7)) (Fin 96000)))
       \<lparr>phase := 0, phase_add := 0x40000000\<rparr>) = Some ([-127, -32767, 0, 32639], s')"
proof -
  define s where "s = (osc_set_wave_type Triangle (oscillator_new (\<lambda>_. 0) (replicate 4 (replicate 1024 7)) (Fin 96000)))
       \<lparr>phase := 0, phase_add := 0x40000000\<rparr>"
  have r: "osc_ticks 4 s = Some (map (\<lambda>k. tables s ! wave_index Triangle ! (unat (0 + of_nat k * 0x40000000 :: u32) div 2 ^ 22)) [0..<4],
           s\<lparr>phase := 0 + of_nat 4 * 0x40000000\<rparr>)"
    and v: "\<And>i. i < 1024 \<Longrightarrow> tables s ! 1 ! ((i + 256) mod 1024) = triangle_value (int i)"
    using oscillator_plays_table [OF _ _ s_def, of 4] by auto
  have "[0..<4] = [0, 1, 2, 3 :: nat]" by (simp add: upt_rec)
  moreover have "unat (0 + of_nat 2 * 0x40000000 :: u32) = 2147483648" "unat (0 + of_nat 3 * 0x40000000 :: u32) = 3221225472"
    by simp_all
  ultimately show ?thesis
    using r v [of 768] v [of 0] v [of 256] v [of 512]
    by (simp add: s_def [symmetric] triangle_value_def c_div_def)
qed

end
