(* ===== verification/Audio_Renderer.thy ===== *)
theory Audio_Renderer
  imports Oscillator
begin

text \<open>
  \<open>src/keyer/audio_renderer.{h,cpp}\<close>: the sidetone, an oscillator under an envelope that follows the
  key. \<open>sinf\<close> and \<open>cosf\<close> of the C library are arguments; \<open>phase_offset\<close>, a function-static variable
  shared by all renderers, is passed along. A sample that does not fit \<open>int16_t\<close> is undefined,
  \<open>None\<close>.
\<close>

section \<open>State and setters\<close>

record renderer =
  rd_osc :: oscillator
  rd_samplerate :: flt
  key_on :: bool
  rd_level :: flt
  amp :: flt
  ramp_up_samples :: u16
  ramp_down_samples :: u16
  ramp_index :: u16

definition renderer_new :: "(int \<Rightarrow> int) \<Rightarrow> int list list \<Rightarrow> flt \<Rightarrow> renderer" where
  "renderer_new sine garbage sr =
     \<lparr>rd_osc = oscillator_new sine garbage sr, rd_samplerate = sr, key_on = False,
      rd_level = Fin (1 / 2), amp = Fin 1, ramp_up_samples = 0, ramp_down_samples = 0, ramp_index = 0\<rparr>"

definition renderer_key_down :: "renderer \<Rightarrow> renderer" where
  "renderer_key_down r = r\<lparr>key_on := True, rd_osc := osc_reset (rd_osc r), ramp_index := 0\<rparr>"

definition renderer_key_up :: "renderer \<Rightarrow> renderer" where
  "renderer_key_up r = r\<lparr>key_on := False, ramp_index := 0\<rparr>"

definition renderer_set_wave_type :: "wave_type \<Rightarrow> renderer \<Rightarrow> renderer" where
  "renderer_set_wave_type t r = r\<lparr>rd_osc := osc_set_wave_type t (rd_osc r)\<rparr>"

definition renderer_set_frequency :: "u16 \<Rightarrow> renderer \<Rightarrow> renderer option" where
  "renderer_set_frequency f r =
     map_option (\<lambda>s. r\<lparr>rd_osc := s\<rparr>) (osc_set_frequency (f32_of_int (uint f)) (rd_osc r))"

definition renderer_set_level :: "flt \<Rightarrow> renderer \<Rightarrow> renderer" where
  "renderer_set_level v r = r\<lparr>rd_level := v\<rparr>"

text \<open>A conversion to \<open>uint16_t\<close> or \<open>int16_t\<close> truncates and is undefined out of range.\<close>

definition to_u16 :: "flt \<Rightarrow> u16 option" where
  "to_u16 a =
     (case a of
        Fin x \<Rightarrow> if 0 \<le> trunc_rat x \<and> trunc_rat x < 2 ^ 16 then Some (of_int (trunc_rat x)) else None
      | _ \<Rightarrow> None)"

definition to_i16 :: "flt \<Rightarrow> int option" where
  "to_i16 a =
     (case a of
        Fin x \<Rightarrow> if - (2 ^ 15) \<le> trunc_rat x \<and> trunc_rat x < 2 ^ 15 then Some (trunc_rat x) else None
      | _ \<Rightarrow> None)"

definition ramp_samples :: "flt \<Rightarrow> flt \<Rightarrow> u16 option" where
  "ramp_samples sr ms = to_u16 (div32 (mul32 sr ms) (Fin 1000))"

definition set_ramp_up_time :: "flt \<Rightarrow> renderer \<Rightarrow> renderer option" where
  "set_ramp_up_time ms r = map_option (\<lambda>n. r\<lparr>ramp_up_samples := n\<rparr>) (ramp_samples (rd_samplerate r) ms)"

definition set_ramp_down_time :: "flt \<Rightarrow> renderer \<Rightarrow> renderer option" where
  "set_ramp_down_time ms r = map_option (\<lambda>n. r\<lparr>ramp_down_samples := n\<rparr>) (ramp_samples (rd_samplerate r) ms)"

section \<open>Envelope and samples\<close>

text \<open>The \<open>double\<close> constant \<open>M_PI\<close>, and the argument \<open>alpha * (float)M_PI / 2.0f\<close> of sine and cosine.\<close>

definition M_PI :: rat where "M_PI = 884279719003555 / 281474976710656"

definition ramp_angle :: "u16 \<Rightarrow> u16 \<Rightarrow> flt" where
  "ramp_angle i n =
     (let alpha = div32 (f32_of_int (uint i)) (f32_of_int (uint n))
      in div32 (mul32 alpha (rnd32 M_PI)) (Fin 2))"

definition update_amp :: "(flt \<Rightarrow> flt) \<Rightarrow> (flt \<Rightarrow> flt) \<Rightarrow> renderer \<Rightarrow> renderer" where
  "update_amp sinf cosf r0 =
     (let r = r0\<lparr>amp := (if key_on r0 then Fin 1 else Fin 0)\<rparr>
      in if key_on r \<and> ramp_index r < ramp_up_samples r then
           r\<lparr>amp := sinf (ramp_angle (ramp_index r) (ramp_up_samples r)), ramp_index := ramp_index r + 1\<rparr>
         else if \<not> key_on r \<and> ramp_index r < ramp_down_samples r then
           r\<lparr>amp := cosf (ramp_angle (ramp_index r) (ramp_down_samples r)), ramp_index := ramp_index r + 1\<rparr>
         else r)"

definition renderer_tick ::
    "(flt \<Rightarrow> flt) \<Rightarrow> (flt \<Rightarrow> flt) \<Rightarrow> u32 \<times> renderer \<Rightarrow> ((int \<times> int) \<times> u32 \<times> renderer) option" where
  "renderer_tick sinf cosf st =
     (case st of (phase_offset, r0) \<Rightarrow>
        let r = update_amp sinf cosf r0;
            volume = mul32 (amp r) (rd_level r)
        in Option.bind (osc_tick (rd_osc r)) (\<lambda>(s, o1).
           Option.bind (to_i16 (mul32 volume (f32_of_int s))) (\<lambda>left.
           let phase_offset = phase_offset + 5000; r = r\<lparr>rd_osc := o1\<rparr>
           in Option.bind (get_at_phase_offset phase_offset (rd_osc r)) (\<lambda>s.
              map_option (\<lambda>right. ((left, right), phase_offset, r)) (to_i16 (mul32 volume (f32_of_int s)))))))"

fun renderer_ticks ::
    "(flt \<Rightarrow> flt) \<Rightarrow> (flt \<Rightarrow> flt) \<Rightarrow> nat \<Rightarrow> u32 \<times> renderer \<Rightarrow> ((int \<times> int) list \<times> u32 \<times> renderer) option" where
  "renderer_ticks sinf cosf 0 st = Some ([], st)"
| "renderer_ticks sinf cosf (Suc n) st =
     Option.bind (renderer_tick sinf cosf st) (\<lambda>(v, st1). map_option (apfst ((#) v)) (renderer_ticks sinf cosf n st1))"

section \<open>Every sample fits\<close>

text \<open>What the C library promises of sine and cosine.\<close>

definition unit_valued :: "(flt \<Rightarrow> flt) \<Rightarrow> bool" where
  "unit_valued f \<longleftrightarrow> (\<forall>x. \<exists>v. f (Fin x) = Fin v \<and> \<bar>v\<bar> \<le> 1)"

definition tables_ok :: "renderer \<Rightarrow> bool" where
  "tables_ok r \<longleftrightarrow> osc_ok (rd_osc r) \<and> (\<forall>t \<in> set (tables (rd_osc r)). \<forall>s \<in> set t. \<bar>s\<bar> \<le> 32767)"

definition renderer_ok :: "renderer \<Rightarrow> bool" where
  "renderer_ok r \<longleftrightarrow> tables_ok r \<and> (\<exists>l. rd_level r = Fin l \<and> 0 \<le> l \<and> l \<le> 1)"

lemma to_i16_small: "\<bar>x\<bar> < 32768 \<Longrightarrow> \<exists>i. to_i16 (Fin x) = Some i \<and> \<bar>i\<bar> \<le> 32767"
proof -
  assume x: "\<bar>x\<bar> < 32768"
  have "\<bar>trunc_rat x\<bar> \<le> 32767"
  proof (cases "0 \<le> x")
    case True
    then have "\<lfloor>x\<rfloor> < 32768" "0 \<le> \<lfloor>x\<rfloor>" using x by (simp_all add: floor_less_iff)
    then show ?thesis using True by (simp add: trunc_rat_def)
  next
    case False
    then have "- 32768 < \<lceil>x\<rceil>" "\<lceil>x\<rceil> \<le> 0" using x by (simp_all add: less_ceiling_iff ceiling_le_iff)
    moreover have "trunc_rat x = \<lceil>x\<rceil>" using False by (simp add: trunc_rat_def)
    ultimately show ?thesis by linarith
  qed
  then show ?thesis by (auto simp: to_i16_def)
qed

lemma scaled_sample:
  assumes "\<bar>a\<bar> \<le> 1" "0 \<le> l" "l \<le> 1" "\<bar>s\<bar> \<le> 32767"
  shows "\<exists>i. to_i16 (mul32 (mul32 (Fin a) (Fin l)) (f32_of_int s)) = Some i \<and> \<bar>i\<bar> \<le> 32767"
proof -
  have "\<bar>a * l\<bar> \<le> 1 * 1" unfolding abs_mult using assms by (intro mult_mono) simp_all
  then obtain v where v: "rnd32 (a * l) = Fin v" "\<bar>v\<bar> \<le> 1 + 2 / 2 ^ 24" using rnd32_small [of "a * l" 1] by auto
  have s: "f32_of_int s = Fin (of_int s)" using assms(4) by (intro f32_of_int_exact) simp
  have si: "\<bar>of_int s :: rat\<bar> \<le> 32767" using assms(4) by (metis of_int_abs of_int_le_iff of_int_numeral)
  have "\<bar>v * of_int s\<bar> \<le> (1 + 2 / 2 ^ 24) * 32767" unfolding abs_mult using v(2) si by (intro mult_mono) simp_all
  then obtain w where "rnd32 (v * of_int s) = Fin w" "\<bar>w\<bar> < 32768" using rnd32_small [of "v * of_int s" "(1 + 2 / 2 ^ 24) * 32767"] by auto
  then show ?thesis using v s to_i16_small by simp
qed

lemma ramp_angle_finite:
  assumes "i < n"
  shows "\<exists>x. ramp_angle i n = Fin x"
proof -
  define I J where "I = uint i" and "J = uint n"
  have b: "I < J" "J < 65536" "0 \<le> I"
    using unsigned_less [of n, where 'a = int] assms by (simp_all add: word_less_def I_def J_def)
  then have f: "f32_of_int I = Fin (of_int I)" "f32_of_int J = Fin (of_int J)" by (simp_all add: f32_of_int_exact)
  have "\<bar>of_int I / of_int J :: rat\<bar> \<le> 1" using b by (simp add: divide_le_eq)
  then obtain a where a: "div32 (f32_of_int I) (f32_of_int J) = Fin a" "\<bar>a\<bar> \<le> 2"
    using rnd32_small [of "of_int I / of_int J" 1] b f by fastforce
  have "rnd32 M_PI = Fin (13176795 / 4194304)" by code_simp
  moreover have "\<bar>a * (13176795 / 4194304)\<bar> \<le> 8" using a(2) by (simp add: abs_mult)
  then obtain c where "rnd32 (a * (13176795 / 4194304)) = Fin c" "\<bar>c\<bar> \<le> 9"
    using rnd32_small [of "a * (13176795 / 4194304)" 8] by fastforce
  moreover then obtain d where "rnd32 (c / 2) = Fin d" using rnd32_small [of "c / 2" 9] by fastforce
  ultimately show ?thesis using a by (simp add: ramp_angle_def I_def J_def)
qed

lemma update_amp_frame [simp]:
  "rd_osc (update_amp sinf cosf r) = rd_osc r" "rd_level (update_amp sinf cosf r) = rd_level r"
  "key_on (update_amp sinf cosf r) = key_on r" "ramp_up_samples (update_amp sinf cosf r) = ramp_up_samples r"
  "ramp_down_samples (update_amp sinf cosf r) = ramp_down_samples r"
  by (simp_all add: update_amp_def Let_def)

lemma update_amp_unit:
  assumes "unit_valued sinf" "unit_valued cosf"
  shows "\<exists>a. amp (update_amp sinf cosf r) = Fin a \<and> \<bar>a\<bar> \<le> 1"
proof -
  have "\<exists>a. f (ramp_angle i n) = Fin a \<and> \<bar>a\<bar> \<le> 1" if "i < n" "unit_valued f" for f i n
    using ramp_angle_finite [OF that(1)] that(2) by (auto simp: unit_valued_def)
  then show ?thesis using assms by (auto simp: update_amp_def Let_def)
qed

lemma table_read_bounded:
  assumes "osc_ok s" "\<forall>t \<in> set (tables s). \<forall>v \<in> set t. \<bar>v\<bar> \<le> 32767"
  shows "\<exists>v. table_read ph s = Some v \<and> \<bar>v\<bar> \<le> 32767"
proof -
  obtain v where v: "table_read ph s = Some v" using table_read_ok [OF assms(1)] by blast
  then have "v \<in> set (tables s ! table_index s)" "tables s ! table_index s \<in> set (tables s)"
    by (auto simp: table_read_def Let_def split: if_splits)
  with v assms(2) show ?thesis by blast
qed

text \<open>One tick: the samples are defined and fit, and only the phase, the envelope and the ramp move.\<close>

lemma renderer_tick_ok:
  assumes "renderer_ok r" "unit_valued sinf" "unit_valued cosf"
  shows "\<exists>left right r'. renderer_tick sinf cosf (p, r) = Some ((left, right), p + 5000, r')
    \<and> \<bar>left\<bar> \<le> 32767 \<and> \<bar>right\<bar> \<le> 32767 \<and> renderer_ok r'
    \<and> r' = (update_amp sinf cosf r)\<lparr>rd_osc := (rd_osc r)\<lparr>phase := phase (rd_osc r) + phase_add (rd_osc r)\<rparr>\<rparr>"
proof -
  let ?r = "update_amp sinf cosf r"
  let ?o = "(rd_osc r)\<lparr>phase := phase (rd_osc r) + phase_add (rd_osc r)\<rparr>"
  obtain a l where al: "amp ?r = Fin a" "\<bar>a\<bar> \<le> 1" "rd_level r = Fin l" "0 \<le> l" "l \<le> 1"
    using update_amp_unit [OF assms(2,3), of r] assms(1) by (auto simp: renderer_ok_def)
  have o1: "osc_ok (rd_osc r)" "\<forall>t \<in> set (tables (rd_osc r)). \<forall>s \<in> set t. \<bar>s\<bar> \<le> 32767"
    using assms(1) by (simp_all add: renderer_ok_def tables_ok_def)
  then obtain s where s: "osc_tick (rd_osc r) = Some (s, ?o)" "\<bar>s\<bar> \<le> 32767"
    using table_read_bounded by (fastforce simp: osc_tick_def)
  have o2: "osc_ok ?o" "\<forall>t \<in> set (tables ?o). \<forall>s \<in> set t. \<bar>s\<bar> \<le> 32767" using o1 by (simp_all add: osc_ok_def)
  then obtain s' where s': "get_at_phase_offset (p + 5000) ?o = Some s'" "\<bar>s'\<bar> \<le> 32767"
    using table_read_bounded by (fastforce simp: get_at_phase_offset_def)
  obtain left right where "to_i16 (mul32 (mul32 (Fin a) (Fin l)) (f32_of_int s)) = Some left" "\<bar>left\<bar> \<le> 32767"
    "to_i16 (mul32 (mul32 (Fin a) (Fin l)) (f32_of_int s')) = Some right" "\<bar>right\<bar> \<le> 32767"
    using scaled_sample [OF al(2,4,5) s(2)] scaled_sample [OF al(2,4,5) s'(2)] by blast
  moreover have "renderer_ok (?r\<lparr>rd_osc := ?o\<rparr>)" using o2 al by (simp add: renderer_ok_def tables_ok_def)
  ultimately show ?thesis
    using al s s' by (auto simp: renderer_tick_def Let_def simp del: fmul.simps)
qed

lemma renderer_ticks_ok:
  assumes "renderer_ok r" "unit_valued sinf" "unit_valued cosf"
  shows "\<exists>vs r'. renderer_ticks sinf cosf n (p, r) = Some (vs, p + of_nat n * 5000, r') \<and> length vs = n
    \<and> renderer_ok r' \<and> list_all (\<lambda>(left, right). \<bar>left\<bar> \<le> 32767 \<and> \<bar>right\<bar> \<le> 32767) vs"
  using assms(1)
proof (induction n arbitrary: p r)
  case (Suc n)
  obtain left right r1 where t: "renderer_tick sinf cosf (p, r) = Some ((left, right), p + 5000, r1)"
    "\<bar>left\<bar> \<le> 32767" "\<bar>right\<bar> \<le> 32767" "renderer_ok r1"
    using renderer_tick_ok [OF Suc.prems assms(2,3)] by blast
  obtain vs r' where "renderer_ticks sinf cosf n (p + 5000, r1) = Some (vs, p + 5000 + of_nat n * 5000, r')"
    "length vs = n" "renderer_ok r'" "list_all (\<lambda>(left, right). \<bar>left\<bar> \<le> 32767 \<and> \<bar>right\<bar> \<le> 32767) vs"
    using Suc.IH [OF t(4)] by blast
  with t show ?case by (auto simp: algebra_simps)
qed simp

section \<open>Every renderer in use\<close>

text \<open>The renderers a program can make: constructed, and changed by any sequence of calls with any arguments for which
  they are defined. The table of sines is in range.\<close>

inductive renderer_run :: "(flt \<Rightarrow> flt) \<Rightarrow> (flt \<Rightarrow> flt) \<Rightarrow> renderer \<Rightarrow> bool" for sinf cosf where
  rr_new: "length garbage = 4 \<Longrightarrow> \<forall>t \<in> set garbage. length t = 1024 \<Longrightarrow> \<forall>i. \<bar>sine i\<bar> \<le> 32767
     \<Longrightarrow> renderer_run sinf cosf (renderer_new sine garbage sr)"
| rr_down: "renderer_run sinf cosf r \<Longrightarrow> renderer_run sinf cosf (renderer_key_down r)"
| rr_up: "renderer_run sinf cosf r \<Longrightarrow> renderer_run sinf cosf (renderer_key_up r)"
| rr_wave: "renderer_run sinf cosf r \<Longrightarrow> renderer_run sinf cosf (renderer_set_wave_type w r)"
| rr_frequency: "renderer_run sinf cosf r \<Longrightarrow> renderer_set_frequency f r = Some r' \<Longrightarrow> renderer_run sinf cosf r'"
| rr_level: "renderer_run sinf cosf r \<Longrightarrow> renderer_run sinf cosf (renderer_set_level v r)"
| rr_ramp_up: "renderer_run sinf cosf r \<Longrightarrow> set_ramp_up_time ms r = Some r' \<Longrightarrow> renderer_run sinf cosf r'"
| rr_ramp_down: "renderer_run sinf cosf r \<Longrightarrow> set_ramp_down_time ms r = Some r' \<Longrightarrow> renderer_run sinf cosf r'"
| rr_tick: "renderer_run sinf cosf r \<Longrightarrow> renderer_tick sinf cosf (p, r) = Some (v, p', r') \<Longrightarrow> renderer_run sinf cosf r'"

lemma fill_bounded:
  assumes "length t = 1024" "\<forall>i. 0 \<le> i \<and> i < 1024 \<longrightarrow> \<bar>f i\<bar> \<le> b" "v \<in> set (fill offset f t)"
  shows "\<bar>v\<bar> \<le> b"
proof -
  obtain j where j: "j < 1024" "v = fill offset f t ! j" using assms by (auto simp: in_set_conv_nth)
  define q i where "q = offset mod 1024" and "i = (j + (1024 - offset mod 1024)) mod 1024"
  have "(i + offset) mod 1024 = ((j + (1024 - q)) mod 1024 + q) mod 1024"
    by (simp add: i_def q_def mod_add_right_eq)
  also have "\<dots> = (j + (1024 - q) + q) mod 1024" by (rule mod_add_left_eq)
  also have "j + (1024 - q) + q = j + 1024" using mod_less_divisor [of 1024 offset] unfolding q_def [symmetric] by linarith
  also have "(j + 1024) mod 1024 = j" using j(1) by simp
  finally have "(i + offset) mod 1024 = j" .
  then have "v = f (int i)" using fill_cell [OF assms(1), of i offset f] j(2) by (simp add: i_def)
  then show ?thesis using assms(2) by (simp add: i_def)
qed

lemma renderer_new_ok:
  assumes "length garbage = 4" "\<forall>t \<in> set garbage. length t = 1024" "\<forall>i. \<bar>sine i\<bar> \<le> 32767"
  shows "tables_ok (renderer_new sine garbage sr)"
proof -
  have g: "length (garbage ! i) = 1024" if "i < 4" for i using that assms(1,2) by simp
  have "\<bar>f i\<bar> \<le> 32767" if "0 \<le> i" "i < 1024" "f \<in> {triangle_value, sawtooth_value, square_value}" for f i
    using that triangle_bounds [of i] sawtooth_bounds [of i] by (auto simp: square_value_def abs_le_iff)
  then have "\<bar>v\<bar> \<le> 32767"
    if "v \<in> set (fill offset f (garbage ! k))" "k < 4" "f \<in> {sine, triangle_value, sawtooth_value, square_value}"
    for v offset f k using that assms(3) fill_bounded [OF g, of k f 32767 v offset] by blast
  note this [where k = 0, simplified] this [where k = 1, simplified] this [where k = 2, simplified]
    this [where k = 3, simplified]
  then show ?thesis
    using g by (auto simp: tables_ok_def renderer_new_def oscillator_new_def osc_ok_def)
qed

lemma tick_moves_phase:
  "renderer_tick sinf cosf (p, r) = Some (v, p', r') \<Longrightarrow> rd_osc r' = (rd_osc r)\<lparr>phase := phase (rd_osc r) + phase_add (rd_osc r)\<rparr>"
  by (auto simp: renderer_tick_def Let_def bind_eq_Some_conv osc_tick_def)

lemma renderer_run_tables: "renderer_run sinf cosf r \<Longrightarrow> tables_ok r"
proof (induction rule: renderer_run.induct)
  case (rr_new garbage sine sr)
  then show ?case using renderer_new_ok by blast
next
  case (rr_tick r p v p' r')
  then show ?case using tick_moves_phase [OF rr_tick(2)] by (simp add: tables_ok_def osc_ok_def)
qed (auto simp: tables_ok_def osc_ok_def renderer_key_down_def renderer_key_up_def osc_reset_def
    renderer_set_wave_type_def osc_set_wave_type_def renderer_set_frequency_def osc_set_frequency_def
    renderer_set_level_def set_ramp_up_time_def set_ramp_down_time_def)

section \<open>Release\<close>

lemma silent_tick:
  assumes "renderer_ok r" "\<not> key_on r" "ramp_down_samples r \<le> ramp_index r"
    "renderer_tick sinf cosf (p, r) = Some (v, st)"
  shows "v = (0, 0)"
proof -
  have "\<not> ramp_index r < ramp_down_samples r" using assms(3) by (simp add: not_less)
  then have a: "amp (update_amp sinf cosf r) = Fin 0" using assms(2) by (simp add: update_amp_def Let_def)
  have z: "rnd32 0 = Fin 0" "to_i16 (Fin 0) = Some 0" by code_simp+
  obtain l where l: "rd_level r = Fin l" using assms(1) by (auto simp: renderer_ok_def)
  have zero: "to_i16 (mul32 (mul32 (Fin 0) (Fin l)) (f32_of_int s)) = Some y \<Longrightarrow> y = 0" for s y
    by (cases "f32_of_int s") (simp_all add: z to_i16_def inf_of_sign_def trunc_rat_def)
  show ?thesis
    using assms(4) l a by (auto simp: renderer_tick_def Let_def bind_eq_Some_conv simp del: fmul.simps dest: zero)
qed

lemma released_ticks:
  assumes "renderer_ok r" "unit_valued sinf" "unit_valued cosf" "\<not> key_on r" "ramp_index r \<le> ramp_down_samples r"
    "renderer_ticks sinf cosf n (p, r) = Some (vs, st)" "i < n"
    "unat (ramp_down_samples r) \<le> unat (ramp_index r) + i"
  shows "vs ! i = (0, 0)"
  using assms(1,4-)
proof (induction n arbitrary: p r vs i)
  case (Suc n)
  obtain left right r1 where t: "renderer_tick sinf cosf (p, r) = Some ((left, right), p + 5000, r1)" "renderer_ok r1"
    and r1: "r1 = (update_amp sinf cosf r)\<lparr>rd_osc := (rd_osc r)\<lparr>phase := phase (rd_osc r) + phase_add (rd_osc r)\<rparr>\<rparr>"
    using renderer_tick_ok [OF Suc.prems(1) assms(2,3), of p] by blast
  then obtain ws where ws: "renderer_ticks sinf cosf n (p + 5000, r1) = Some (ws, st)" "vs = (left, right) # ws"
    using Suc.prems(4) by (auto simp: bind_eq_Some_conv)
  show ?case
  proof (cases i)
    case 0
    then have "ramp_down_samples r \<le> ramp_index r" using Suc.prems(6) by (simp add: word_le_nat_alt)
    from silent_tick [OF Suc.prems(1,2) this t(1)] 0 ws(2) show ?thesis by simp
  next
    case (Suc j)
    have x: "\<not> key_on r1" "ramp_down_samples r1 = ramp_down_samples r" using Suc.prems(2) r1 by simp_all
    have idx: "ramp_index r1 = (if ramp_index r < ramp_down_samples r then ramp_index r + 1 else ramp_index r)"
      using Suc.prems(2) by (simp add: r1 update_amp_def Let_def)
    have "unat (ramp_index r + 1) = Suc (unat (ramp_index r))" if "ramp_index r < ramp_down_samples r"
      using that by unat_arith
    then have "ramp_index r1 \<le> ramp_down_samples r1" "unat (ramp_down_samples r1) \<le> unat (ramp_index r1) + j"
      using idx x(2) Suc.prems(3,6) \<open>i = Suc j\<close> by (auto simp: word_le_nat_alt word_less_nat_alt)
    then show ?thesis
      using Suc.IH [OF t(2) x(1) _ ws(1)] Suc.prems(5) \<open>i = Suc j\<close> ws(2) by simp
  qed
qed simp

text \<open>
  (C39) The sidetone never leaves the range of its samples and falls silent: whatever was called on a
  renderer before, if its volume is between 0 and 1 when the key is released, then every tick from then on is defined,
  both samples lie between -32767 and 32767, and from the end of the release ramp on they are 0.
\<close>

theorem released_key_silent:
  assumes "renderer_run sinf cosf r" "unit_valued sinf" "unit_valued cosf" "rd_level r = Fin l" "0 \<le> l" "l \<le> 1"
  shows "\<exists>vs st. renderer_ticks sinf cosf n (p, renderer_key_up r) = Some (vs, st) \<and> length vs = n
    \<and> list_all (\<lambda>(left, right). \<bar>left\<bar> \<le> 32767 \<and> \<bar>right\<bar> \<le> 32767) vs
    \<and> (\<forall>i < n. unat (ramp_down_samples r) \<le> i \<longrightarrow> vs ! i = (0, 0))"
proof -
  have ok: "renderer_ok (renderer_key_up r)"
    using renderer_run_tables [OF rr_up [OF assms(1)]] assms(4-6) by (simp add: renderer_ok_def renderer_key_up_def)
  obtain vs r' where v: "renderer_ticks sinf cosf n (p, renderer_key_up r) = Some (vs, p + of_nat n * 5000, r')"
    "length vs = n" "list_all (\<lambda>(left, right). \<bar>left\<bar> \<le> 32767 \<and> \<bar>right\<bar> \<le> 32767) vs"
    using renderer_ticks_ok [OF ok assms(2,3)] by blast
  have "vs ! i = (0, 0)" if "i < n" "unat (ramp_down_samples r) \<le> i" for i
    using released_ticks [OF ok assms(2,3) _ _ v(1) that(1)] that(2) by (simp add: renderer_key_up_def)
  with v show ?thesis by blast
qed

text \<open>A key-up in the middle of the attack does not fall from the level reached: the envelope jumps to
  its full height, the value of the cosine at 0, before it decays. And a renderer whose key was never
  down sounds for the length of the release ramp, since it starts with the ramp not yet run.\<close>

lemma release_starts_at_full_level:
  assumes "0 < ramp_down_samples r"
  shows "amp (update_amp sinf cosf (renderer_key_up r)) = cosf (Fin 0)"
proof -
  have "ramp_angle 0 n = Fin 0" if "0 < n" for n :: u16
  proof -
    have "f32_of_int 0 = Fin 0" "rnd32 0 = Fin 0" "rnd32 M_PI = Fin (13176795 / 4194304)" by code_simp+
    moreover define J where "J = uint n"
    then have "0 < J" "J < 65536" using that unsigned_less [of n, where 'a = int] by (simp_all add: word_less_def)
    then have "f32_of_int J = Fin (of_int J)" "0 < (of_int J :: rat)" by (simp_all add: f32_of_int_exact)
    ultimately show ?thesis by (simp add: ramp_angle_def flip: J_def)
  qed
  then show ?thesis using assms by (simp add: update_amp_def renderer_key_up_def)
qed

lemma never_keyed_sounds:
  assumes "set_ramp_down_time ms (renderer_new sine garbage sr) = Some r" "0 < ramp_down_samples r"
  shows "amp (update_amp sinf cosf r) = cosf (Fin 0)"
proof -
  have "renderer_key_up r = r" using assms(1) by (auto simp: set_ramp_down_time_def renderer_new_def renderer_key_up_def)
  then show ?thesis using release_starts_at_full_level [OF assms(2), of sinf cosf] by simp
qed

text \<open>A square wave at full volume with the key down, which sounds; at twice the volume, which \<open>set_level\<close> accepts, the sample does
  not fit and its conversion is undefined.\<close>

definition square_renderer :: "flt \<Rightarrow> renderer" where
  "square_renderer level =
     renderer_key_down (renderer_set_level level (renderer_set_wave_type Square
       (renderer_new (\<lambda>_. 0) (replicate 4 (replicate 1024 0)) (Fin 96000))))"

lemma square_tick:
  "renderer_tick sinf cosf (0, square_renderer level) = (let x = to_i16 (mul32 (mul32 (Fin 1) level) (f32_of_int (- 32767))) in
     map_option (\<lambda>v. ((v, v), 5000, update_amp sinf cosf (square_renderer level))) x)"
proof -
  let ?r = "square_renderer level"
  have "tables_ok ?r"
    by (rule renderer_run_tables [of sinf cosf]) (auto simp: square_renderer_def intro!: rr_down rr_level rr_wave rr_new)
  then have ok: "osc_ok (rd_osc ?r)" by (simp add: tables_ok_def)
  have f: "phase (rd_osc ?r) = 0" "phase_add (rd_osc ?r) = 0" "tables (rd_osc ?r) ! table_index (rd_osc ?r) ! 0 = - 32767"
    using fill_cell [of "replicate 1024 0" 0 0 square_value]
    by (simp_all add: square_renderer_def renderer_key_down_def renderer_set_level_def renderer_set_wave_type_def renderer_new_def
        osc_reset_def osc_set_wave_type_def oscillator_new_def square_value_def)
  have o: "osc_tick (rd_osc ?r) = Some (- 32767, rd_osc ?r)" using osc_tick_ok(1) [OF ok] f by simp
  have g: "get_at_phase_offset 5000 (rd_osc ?r) = Some (- 32767)"
    using table_read_ok [OF ok, of 5000] f by (simp add: get_at_phase_offset_def)
  have "amp (update_amp sinf cosf ?r) = Fin 1" "rd_level ?r = level"
    by (simp_all add: update_amp_def square_renderer_def renderer_key_down_def renderer_set_level_def renderer_set_wave_type_def renderer_new_def)
  then show ?thesis
    using o g by (cases "to_i16 (mul32 (mul32 (Fin 1) level) (f32_of_int (- 32767)))") (simp_all add: renderer_tick_def Let_def)
qed

theorem loud_level_undefined:
  "renderer_run sinf cosf (square_renderer (Fin 2)) \<and> renderer_tick sinf cosf (0, square_renderer (Fin 2)) = None"
proof -
  have "to_i16 (mul32 (mul32 (Fin 1) (Fin 2)) (f32_of_int (- 32767))) = None" by code_simp
  then show ?thesis unfolding square_tick by (auto simp: square_renderer_def intro!: rr_down rr_level rr_wave rr_new)
qed

theorem released_key_silent_witness:
  "\<exists>r vs st. renderer_run (\<lambda>_. Fin 1) (\<lambda>_. Fin 1) r \<and> (\<exists>st'. renderer_tick (\<lambda>_. Fin 1) (\<lambda>_. Fin 1) (0, r) = Some ((- 32767, - 32767), st'))
     \<and> renderer_ticks (\<lambda>_. Fin 1) (\<lambda>_. Fin 1) 2 (0, renderer_key_up r) = Some (vs, st)
     \<and> vs = [(0, 0), (0, 0)]"
proof -
  let ?r = "square_renderer (Fin 1)"
  have run: "renderer_run (\<lambda>_. Fin 1) (\<lambda>_. Fin 1) ?r" by (auto simp: square_renderer_def intro!: rr_down rr_level rr_wave rr_new)
  have u: "unit_valued (\<lambda>_. Fin 1)" by (simp add: unit_valued_def)
  have "to_i16 (mul32 (mul32 (Fin 1) (Fin 1)) (f32_of_int (- 32767))) = Some (- 32767)" by code_simp
  then have t: "\<exists>st'. renderer_tick (\<lambda>_. Fin 1) (\<lambda>_. Fin 1) (0, ?r) = Some ((- 32767, - 32767), st')" unfolding square_tick by simp
  have d: "ramp_down_samples ?r = 0" "rd_level ?r = Fin 1"
    by (simp_all add: square_renderer_def renderer_key_down_def renderer_set_level_def renderer_set_wave_type_def renderer_new_def)
  obtain vs st where v: "renderer_ticks (\<lambda>_. Fin 1) (\<lambda>_. Fin 1) 2 (0, renderer_key_up ?r) = Some (vs, st)" "length vs = 2"
    "\<forall>i < 2. unat (ramp_down_samples ?r) \<le> i \<longrightarrow> vs ! i = (0, 0)"
    using released_key_silent [OF run u u d(2), of 2 0] by auto
  then have "vs = [(0, 0), (0, 0)]" using d by (auto simp: list_eq_iff_nth_eq less_2_cases_iff)
  with run t v show ?thesis by blast
qed

end
