(* ===== verification/Event_Bus.thy ===== *)
theory Event_Bus
  imports Main
begin

text \<open>
  \<open>src/events.h\<close>: a list of listeners that every published event is passed to. A listener is a value of
  any type; what its \<open>on_event\<close> does to the state around it is an argument. No other source uses the bus.
\<close>

datatype event_type = Connected | Disconnected

record event =
  producer :: int
  event_type :: event_type

record 'l event_bus =
  listeners :: "'l list"

definition event_bus_new :: "'l event_bus" where
  "event_bus_new = \<lparr>listeners = []\<rparr>"

definition add_listener :: "'l \<Rightarrow> 'l event_bus \<Rightarrow> 'l event_bus" where
  "add_listener l bus = bus\<lparr>listeners := listeners bus @ [l]\<rparr>"

definition publish :: "('l \<Rightarrow> event \<Rightarrow> 's \<Rightarrow> 's) \<Rightarrow> event \<Rightarrow> 'l event_bus \<Rightarrow> 's \<Rightarrow> 's" where
  "publish on_event e bus s = fold (\<lambda>l. on_event l e) (listeners bus) s"

text \<open>Every listener is called once for each time it was added, in the order it was added.\<close>

lemma publish_in_order:
  "publish (\<lambda>l e log. log @ [(l, e)]) e (fold add_listener ls event_bus_new) [] = map (\<lambda>l. (l, e)) ls"
proof -
  have "listeners (fold add_listener ls bus) = listeners bus @ ls" for bus :: "'a event_bus"
    by (induction ls arbitrary: bus) (simp_all add: add_listener_def)
  moreover have "fold (\<lambda>l log. log @ [(l, e)]) ls log = log @ map (\<lambda>l. (l, e)) ls" for log :: "('a \<times> event) list"
    by (induction ls arbitrary: log) simp_all
  ultimately show ?thesis by (simp add: publish_def event_bus_new_def)
qed

end
