(* ===== verification/Yaml_Scalar.thy ===== *)
theory Yaml_Scalar
  imports Config Cpp_Text
begin

text \<open>
  How the text of a scalar becomes a node: the class \<open>scalar_scanner\<close>, \<open>from_string\<close>, the \<open>get_\<close> functions of the
  lexical analyzer and \<open>create_scalar_node\<close> of \<open>src/libs/node.hpp\<close>, for scalars that are not aliases. The cutting of
  a document into tokens remains a parameter. A scanning function is given the rest of the token; where the source asserts that
  something is left and then reads it, the empty rest is undefined.
\<close>

section \<open>Kinds of scalars\<close>

datatype lexical_token = NULL_VALUE | BOOLEAN_VALUE | INTEGER_VALUE | FLOAT_NUMBER_VALUE | STRING_VALUE

definition is_odigit :: "char \<Rightarrow> bool" where
  "is_odigit c \<longleftrightarrow> 48 \<le> (of_char c :: nat) \<and> (of_char c :: nat) \<le> 55"

text \<open>What the text after a decimal point was taken for.\<close>

definition float_unless_string :: "lexical_token result \<Rightarrow> lexical_token result" where
  "float_unless_string ret =
     bind_result ret (\<lambda>t. Inr (if t = STRING_VALUE then STRING_VALUE else FLOAT_NUMBER_VALUE))"

fun scan_decimal_number :: "bool \<Rightarrow> string \<Rightarrow> lexical_token result"
  and scan_after_decimal_point :: "bool \<Rightarrow> string \<Rightarrow> lexical_token result"
  and scan_after_exponent :: "bool \<Rightarrow> string \<Rightarrow> lexical_token result" where
  "scan_decimal_number has_decimal_point [] = Inl Undefined_behaviour"
| "scan_decimal_number has_decimal_point (c # cs) =
     (if is_digit c then (if cs \<noteq> [] then scan_decimal_number has_decimal_point cs else Inr INTEGER_VALUE)
      else if c = CHR ''.'' then
        (if has_decimal_point then Inr STRING_VALUE
         else float_unless_string (scan_after_decimal_point True cs))
      else if c = CHR ''e'' \<or> c = CHR ''E'' then
        (if cs \<noteq> [] then scan_after_exponent has_decimal_point cs else Inr STRING_VALUE)
      else Inr STRING_VALUE)"
| "scan_after_decimal_point has_decimal_point [] = Inl Undefined_behaviour"
| "scan_after_decimal_point has_decimal_point (c # cs) =
     (if is_digit c then (if cs \<noteq> [] then scan_decimal_number has_decimal_point cs else Inr FLOAT_NUMBER_VALUE)
      else Inr STRING_VALUE)"
| "scan_after_exponent has_decimal_point [] = Inl Undefined_behaviour"
| "scan_after_exponent has_decimal_point (c # cs) =
     (if is_digit c then (if cs \<noteq> [] then scan_decimal_number has_decimal_point cs else Inr FLOAT_NUMBER_VALUE)
      else if c = CHR ''+'' \<or> c = CHR ''-'' then
        (if cs \<noteq> [] then scan_decimal_number has_decimal_point cs else Inr STRING_VALUE)
      else Inr STRING_VALUE)"

fun scan_octal_number :: "string \<Rightarrow> lexical_token result" where
  "scan_octal_number [] = Inl Undefined_behaviour"
| "scan_octal_number (c # cs) =
     (if is_odigit c then (if cs \<noteq> [] then scan_octal_number cs else Inr INTEGER_VALUE) else Inr STRING_VALUE)"

fun scan_hexadecimal_number :: "string \<Rightarrow> lexical_token result" where
  "scan_hexadecimal_number [] = Inl Undefined_behaviour"
| "scan_hexadecimal_number (c # cs) =
     (if is_xdigit c then (if cs \<noteq> [] then scan_hexadecimal_number cs else Inr INTEGER_VALUE) else Inr STRING_VALUE)"

fun scan_after_zero_at_first :: "string \<Rightarrow> lexical_token result" where
  "scan_after_zero_at_first [] = Inl Undefined_behaviour"
| "scan_after_zero_at_first (c # cs) =
     (if is_digit c then Inr STRING_VALUE
      else if c = CHR ''.'' then
        (if cs = [] then Inr STRING_VALUE else float_unless_string (scan_after_decimal_point True cs))
      else if c = CHR ''o'' then (if cs \<noteq> [] then scan_octal_number cs else Inr STRING_VALUE)
      else if c = CHR ''x'' then (if cs \<noteq> [] then scan_hexadecimal_number cs else Inr STRING_VALUE)
      else Inr STRING_VALUE)"

fun scan_negative_number :: "string \<Rightarrow> lexical_token result" where
  "scan_negative_number [] = Inl Undefined_behaviour"
| "scan_negative_number (c # cs) =
     (if is_digit c then (if cs \<noteq> [] then scan_decimal_number False cs else Inr INTEGER_VALUE) else Inr STRING_VALUE)"

fun scan_possible_number_token :: "string \<Rightarrow> lexical_token result" where
  "scan_possible_number_token [] = Inl Undefined_behaviour"
| "scan_possible_number_token (c # cs) =
     (if c = CHR ''-'' then (if cs \<noteq> [] then scan_negative_number cs else Inr STRING_VALUE)
      else if c = CHR ''+'' then (if cs \<noteq> [] then scan_decimal_number False cs else Inr STRING_VALUE)
      else if c = CHR ''0'' then (if cs \<noteq> [] then scan_after_zero_at_first cs else Inr INTEGER_VALUE)
      else if is_digit c then (if cs \<noteq> [] then scan_decimal_number False cs else Inr INTEGER_VALUE)
      else Inr STRING_VALUE)"

definition null_words :: "string list" where
  "null_words = [''null'', ''Null'', ''NULL'', ''~'']"

definition true_words :: "string list" where
  "true_words = [''true'', ''True'', ''TRUE'']"

definition false_words :: "string list" where
  "false_words = [''false'', ''False'', ''FALSE'']"

definition infinity_words :: "string list" where
  "infinity_words = [''.inf'', ''.Inf'', ''.INF'']"

definition nan_words :: "string list" where
  "nan_words = [''.nan'', ''.NaN'', ''.NAN'']"

definition minus_infinity_words :: "string list" where
  "minus_infinity_words = [''-.inf'', ''-.Inf'', ''-.INF'']"

text \<open>The switch over the length of the token only saves comparisons.\<close>

definition scan :: "string \<Rightarrow> lexical_token result" where
  "scan token =
     (if token = [] then Inr STRING_VALUE
      else if token \<in> set null_words then Inr NULL_VALUE
      else if token \<in> set true_words \<or> token \<in> set false_words then Inr BOOLEAN_VALUE
      else if token \<in> set infinity_words \<or> token \<in> set nan_words \<or> token \<in> set minus_infinity_words
      then Inr FLOAT_NUMBER_VALUE
      else scan_possible_number_token token)"

section \<open>Values\<close>

definition from_string_null :: "string \<Rightarrow> unit result" where
  "from_string_null s =
     (if s \<in> set null_words then Inr () else Inl (Runtime_error ''Cannot convert a string into a null value.''))"

definition from_string_bool :: "string \<Rightarrow> bool result" where
  "from_string_bool s =
     (if s \<in> set true_words then Inr True
      else if s \<in> set false_words then Inr False
      else Inl (Runtime_error ''Cannot convert a string into a boolean value.''))"

text \<open>\<open>std::stol\<close> with base 0: white space, a sign, then hexadecimal digits after \<open>0x\<close>, octal digits when the first
  is \<open>0\<close>, and else decimal digits; the rest is ignored.\<close>

definition digits_base_0 :: "string \<Rightarrow> nat \<times> string" where
  "digits_base_0 s =
     (if take 2 (map lower s) = ''0x'' \<and> takeWhile is_xdigit (drop 2 s) \<noteq> []
      then (16, takeWhile is_xdigit (drop 2 s))
      else if take 1 s = ''0'' then (8, takeWhile is_odigit s)
      else (10, takeWhile is_digit s))"

definition stol_base_0 :: "string \<Rightarrow> int result" where
  "stol_base_0 s =
     (let s1 = dropWhile is_space s;
          neg = (take 1 s1 = ''-'');
          s2 = (if take 1 s1 = ''-'' \<or> take 1 s1 = ''+'' then tl s1 else s1);
          (b, ds) = digits_base_0 s2;
          v = (if neg then - int (base_value b ds) else int (base_value b ds))
      in if ds = [] then Inl Invalid_argument
         else if v < - (2 ^ 63) \<or> 2 ^ 63 \<le> v then Inl Out_of_range
         else Inr v)"

text \<open>The exceptions of the conversion are replaced.\<close>

definition or_exception :: "string \<Rightarrow> 'a result \<Rightarrow> 'a result" where
  "or_exception message r = (case r of Inl _ \<Rightarrow> Inl (Runtime_error message) | Inr v \<Rightarrow> Inr v)"

definition from_string_long :: "string \<Rightarrow> int result" where
  "from_string_long s = or_exception ''Failed to convert a string into a long value.'' (stol_base_0 s)"

definition from_string_double :: "string \<Rightarrow> flt result" where
  "from_string_double s =
     (if s \<in> set infinity_words then Inr PInf
      else if s \<in> set minus_infinity_words then Inr NInf
      else if s \<in> set nan_words then Inr NaN
      else or_exception ''Failed to convert a string into a double value.'' (stod s))"

text \<open>The prefix \<open>0o\<close> of an octal number is replaced by \<open>0\<close>.\<close>

definition get_integer :: "string \<Rightarrow> int result" where
  "get_integer s =
     (if length s > 2 \<and> take 2 s = ''0o'' then from_string_long (CHR ''0'' # drop 2 s) else from_string_long s)"

section \<open>Nodes\<close>

datatype tag = NON_SPECIFIC | CUSTOM_TAG | TAG_NULL | TAG_BOOLEAN | TAG_INTEGER | TAG_FLOATING_NUMBER | TAG_STRING

text \<open>A tag overrides what the text looks like. The tags of sequences and mappings are excluded by an assertion.\<close>

fun tagged_type :: "tag option \<Rightarrow> lexical_token \<Rightarrow> lexical_token" where
  "tagged_type None type = type"
| "tagged_type (Some TAG_NULL) type = NULL_VALUE"
| "tagged_type (Some TAG_BOOLEAN) type = BOOLEAN_VALUE"
| "tagged_type (Some TAG_INTEGER) type = INTEGER_VALUE"
| "tagged_type (Some TAG_FLOATING_NUMBER) type = FLOAT_NUMBER_VALUE"
| "tagged_type (Some TAG_STRING) type = STRING_VALUE"
| "tagged_type (Some NON_SPECIFIC) type = STRING_VALUE"
| "tagged_type (Some CUSTOM_TAG) type = type"

definition create_scalar_node :: "tag option \<Rightarrow> lexical_token \<Rightarrow> string \<Rightarrow> node result" where
  "create_scalar_node tag type s =
     (case tagged_type tag type of
        NULL_VALUE \<Rightarrow> bind_result (from_string_null s) (\<lambda>_. Inr Null_node)
      | BOOLEAN_VALUE \<Rightarrow> bind_result (from_string_bool s) (\<lambda>b. Inr (Bool_node b))
      | INTEGER_VALUE \<Rightarrow> bind_result (get_integer s) (\<lambda>i. Inr (Int_node i))
      | FLOAT_NUMBER_VALUE \<Rightarrow> bind_result (from_string_double s) (\<lambda>_. Inr Float_node)
      | STRING_VALUE \<Rightarrow> Inr (String_node s))"

text \<open>\<open>scan_scalar\<close> for the token that was extracted, and the node made of it: what is between quotes is a string.\<close>

definition read_scalar :: "bool \<Rightarrow> tag option \<Rightarrow> string \<Rightarrow> node result" where
  "read_scalar quoted tag s =
     bind_result (if quoted then Inr STRING_VALUE else scan s) (\<lambda>type. create_scalar_node tag type s)"


section \<open>Scalars read back\<close>

lemma scan_digits: "list_all is_digit ds \<Longrightarrow> ds \<noteq> [] \<Longrightarrow> scan_decimal_number p ds = Inr INTEGER_VALUE"
  by (induction ds) auto

lemma string_of_nat_leading: "0 < n \<Longrightarrow> hd (string_of_nat n) \<noteq> CHR ''0''"
proof (induction n rule: string_of_nat.induct)
  case (1 n)
  show ?case
  proof (cases "n < 10")
    case True
    moreover have "digit_value (CHR ''0'') = 0" by (simp add: digit_value_def)
    ultimately show ?thesis using 1 digit_char [of n] by (subst string_of_nat.simps) auto
  next
    case False
    then show ?thesis using 1 string_of_nat_digits [of "n div 10"] by (subst string_of_nat.simps) auto
  qed
qed

lemma string_of_nat_cases:
  obtains "n = 0" "string_of_nat n = ''0''"
  | c cs where "string_of_nat n = c # cs" "is_digit c" "c \<noteq> CHR ''0''" "list_all is_digit cs"
proof (cases "n = 0")
  case True
  moreover have "string_of_nat 0 = ''0''" by code_simp
  ultimately show ?thesis using that(1) by simp
next
  case False
  then show ?thesis using that(2) string_of_nat_digits [of n] string_of_nat_leading [of n] by (cases "string_of_nat n") auto
qed

lemma base_value_decimal: "list_all is_digit ds \<Longrightarrow> base_value 10 ds = digits_value ds"
  unfolding base_value_def digits_value_def
  by (rule foldl_cong) (auto simp: list_all_iff xdigit_value_def)

lemma digits_base_0_decimal:
  assumes "is_digit c" "c \<noteq> CHR ''0''" "list_all is_digit cs"
  shows "digits_base_0 (c # cs) = (10, c # cs)"
proof -
  have "lower c = c" using assms(1) by (auto simp: is_digit_def lower_def)
  moreover have "takeWhile is_digit cs = cs" using assms(3) by (simp add: list_all_iff takeWhile_eq_all_conv)
  ultimately show ?thesis using assms by (simp add: digits_base_0_def numeral_2_eq_2)
qed

lemma digits_base_0_number:
  "\<exists>b. digits_base_0 (string_of_nat n) = (b, string_of_nat n) \<and> base_value b (string_of_nat n) = n"
proof (cases n rule: string_of_nat_cases)
  case 1
  then show ?thesis by (auto simp: digits_base_0_def is_odigit_def base_value_def xdigit_value_def is_digit_def digit_value_def)
next
  case (2 c cs)
  then show ?thesis
    using digits_value_string_of_nat [of n] base_value_decimal [of "c # cs"] by (auto simp: digits_base_0_decimal)
qed

lemma stol_to_string:
  assumes "- (2 ^ 63) \<le> i" "i < 2 ^ 63"
  shows "stol_base_0 (to_string i) = Inr i"
proof -
  define n where "n = nat \<bar>i\<bar>"
  obtain b where b: "digits_base_0 (string_of_nat n) = (b, string_of_nat n)" "base_value b (string_of_nat n) = n"
    using digits_base_0_number by blast
  obtain c cs where c: "string_of_nat n = c # cs" "is_digit c"
    using string_of_nat_digits [of n] by (cases "string_of_nat n") auto
  note digit_not_sign [OF c(2)]
  then show ?thesis
    using assms b c by (auto simp: stol_base_0_def to_string_def Let_def n_def is_space_def whitespace_def abs_if split: if_splits)
qed

lemma to_string_cases:
  obtains "to_string i = ''0''"
  | c cs where "to_string i = c # cs" "is_digit c" "c \<noteq> CHR ''0''" "list_all is_digit cs"
  | c cs where "to_string i = CHR ''-'' # c # cs" "is_digit c" "list_all is_digit cs"
proof (cases "i < 0")
  case True
  then show ?thesis using that(3) string_of_nat_digits [of "nat (- i)"]
    by (cases "string_of_nat (nat (- i))") (auto simp: to_string_def)
next
  case False
  then show ?thesis using that(1,2) by (cases "nat i" rule: string_of_nat_cases) (auto simp: to_string_def)
qed

lemmas word_lists = null_words_def true_words_def false_words_def infinity_words_def nan_words_def minus_infinity_words_def

lemma digit_not_word:
  "is_digit c \<Longrightarrow> c \<notin> {CHR ''n'', CHR ''N'', CHR ''~'', CHR ''t'', CHR ''T'', CHR ''f'', CHR ''F'', CHR ''.'', CHR ''-'', CHR ''+''}"
  by (auto simp: is_digit_def)

lemma scan_digit_first:
  "is_digit c \<Longrightarrow> scan (c # cs) = scan_possible_number_token (c # cs)"
  "is_digit c \<Longrightarrow> scan (CHR ''-'' # c # cs) = scan_possible_number_token (CHR ''-'' # c # cs)"
  by (drule digit_not_word, simp add: scan_def word_lists)+

lemma scan_to_string: "scan (to_string i) = Inr INTEGER_VALUE"
proof (cases i rule: to_string_cases)
  case 1
  then show ?thesis using scan_digit_first(1) [of "CHR ''0''" "[]"] by (simp add: is_digit_def)
next
  case (2 c cs)
  then show ?thesis using digit_not_word [of c] by (auto simp: scan_digit_first(1) scan_digits)
next
  case (3 c cs)
  then show ?thesis by (auto simp: scan_digit_first(2) scan_digits)
qed

lemma get_integer_to_string: "get_integer (to_string i) = from_string_long (to_string i)"
  by (cases i rule: to_string_cases) (auto simp: get_integer_def numeral_2_eq_2)

text \<open>The scalars that can be written without quotes, and their text. Words begin neither with a digit nor with a sign.\<close>

definition plain_word :: "string \<Rightarrow> bool" where
  "plain_word s \<longleftrightarrow> s \<noteq> [] \<and> \<not> is_digit (hd s) \<and> hd s \<notin> {CHR ''+'', CHR ''-''}
     \<and> s \<notin> set (null_words @ true_words @ false_words @ infinity_words @ nan_words)"

fun plain_scalar :: "node \<Rightarrow> bool" where
  "plain_scalar Null_node = True"
| "plain_scalar (Bool_node b) = True"
| "plain_scalar (Int_node i) \<longleftrightarrow> - (2 ^ 63) \<le> i \<and> i < 2 ^ 63"
| "plain_scalar (String_node s) = plain_word s"
| "plain_scalar _ = False"

fun scalar_text :: "node \<Rightarrow> string" where
  "scalar_text (Bool_node b) = (if b then ''true'' else ''false'')"
| "scalar_text (Int_node i) = to_string i"
| "scalar_text (String_node s) = s"
| "scalar_text _ = ''null''"

lemma scan_plain_word: "plain_word s \<Longrightarrow> scan s = Inr STRING_VALUE"
  by (cases s) (auto simp: plain_word_def scan_def minus_infinity_words_def is_digit_def)

text \<open>
  (C37) The settings in the text of the configuration file mean what they say: a scalar written without quotes, a number in the
  range of 64 bits, a truth value, the null value or a word, is taken for what it is and has the value that was written.
\<close>

theorem plain_scalar_read_back:
  assumes "plain_scalar n"
  shows "read_scalar False None (scalar_text n) = Inr n"
proof (cases n)
  case (Int_node i)
  then show ?thesis
    using assms
    by (simp add: read_scalar_def scan_to_string create_scalar_node_def get_integer_to_string from_string_long_def
        or_exception_def stol_to_string)
next
  case (String_node s)
  then show ?thesis using assms by (simp add: read_scalar_def scan_plain_word create_scalar_node_def)
qed (use assms in \<open>auto simp: read_scalar_def scan_def word_lists create_scalar_node_def from_string_null_def from_string_bool_def\<close>)

theorem plain_scalar_read_back_witness:
  "read_scalar False None ''-14'' = Inr (Int_node (- 14)) \<and> read_scalar False None ''/dev/ttyUSB0'' = Inr (String_node ''/dev/ttyUSB0'')"
proof -
  have "scalar_text (Int_node (- 14)) = ''-14''" "plain_scalar (String_node ''/dev/ttyUSB0'')" by code_simp+
  then show ?thesis
    using plain_scalar_read_back [of "Int_node (- 14)"] plain_scalar_read_back [of "String_node ''/dev/ttyUSB0''"] by simp
qed

section \<open>Numbers that are misread\<close>

lemma float_unless_string_Inl [simp]: "float_unless_string r = Inl e \<longleftrightarrow> r = Inl e"
  by (cases r) (auto simp: float_unless_string_def)

lemma scan_number_defined:
  "scan_decimal_number p cs = Inl e \<Longrightarrow> cs \<noteq> [] \<Longrightarrow> e = Undefined_behaviour \<and> last cs = CHR ''.''"
  "scan_after_decimal_point p cs = Inl e \<Longrightarrow> cs \<noteq> [] \<Longrightarrow> e = Undefined_behaviour \<and> last cs = CHR ''.''"
  "scan_after_exponent p cs = Inl e \<Longrightarrow> cs \<noteq> [] \<Longrightarrow> e = Undefined_behaviour \<and> last cs = CHR ''.''"
  by (induction p cs and p cs and p cs rule: scan_decimal_number_scan_after_decimal_point_scan_after_exponent.induct)
    (auto split: if_splits)

lemma scan_octal_defined: "cs \<noteq> [] \<Longrightarrow> scan_octal_number cs \<noteq> Inl e"
  by (induction cs rule: scan_octal_number.induct) auto

lemma scan_hexadecimal_defined: "cs \<noteq> [] \<Longrightarrow> scan_hexadecimal_number cs \<noteq> Inl e"
  by (induction cs rule: scan_hexadecimal_number.induct) auto

lemma scan_negative_defined: "scan_negative_number cs = Inl e \<Longrightarrow> cs \<noteq> [] \<Longrightarrow> e = Undefined_behaviour \<and> last cs = CHR ''.''"
  by (cases cs) (auto split: if_splits dest: scan_number_defined)

lemma scan_after_zero_defined:
  "scan_after_zero_at_first cs = Inl e \<Longrightarrow> cs \<noteq> [] \<Longrightarrow> e = Undefined_behaviour \<and> last cs = CHR ''.''"
  by (cases cs) (auto simp: scan_octal_defined scan_hexadecimal_defined split: if_splits dest: scan_number_defined)

text \<open>The scanner reads past the end of a token only if the token ends with a dot, as \<open>12.\<close> does.\<close>

theorem scan_undefined_only_after_dot:
  assumes "scan s = Inl e"
  shows "e = Undefined_behaviour \<and> last s = CHR ''.''"
  using assms
  by (cases s)
    (auto simp: scan_def split: if_splits dest: scan_number_defined scan_negative_defined scan_after_zero_defined)

lemma scan_digits_dot:
  "list_all is_digit ds \<Longrightarrow> scan_decimal_number False (ds @ ''.'') = Inl Undefined_behaviour"
  by (induction ds) (auto simp: float_unless_string_def is_digit_def)

theorem trailing_dot_undefined:
  assumes "0 < n"
  shows "read_scalar False tag (string_of_nat n @ ''.'') = Inl Undefined_behaviour"
proof (cases n rule: string_of_nat_cases)
  case (2 c cs)
  then show ?thesis using digit_not_word [of c] by (simp add: read_scalar_def scan_digit_first(1) scan_digits_dot)
qed (use assms in simp)

text \<open>A number with an exponent of several digits is taken for an integer and loses the exponent; a leading zero behind
  a sign makes a number octal.\<close>

theorem numbers_misread:
  "read_scalar False None ''1e10'' = Inr (Int_node 1)"
  "read_scalar False None ''-010'' = Inr (Int_node (- 8))"
  "read_scalar False None ''+09'' = Inr (Int_node 0)"
  by code_simp+

end
