(* ===== verification/Spec2Isabelle.thy ===== *)
theory Spec2Isabelle
  imports Remote_Key_Properties Cwdaemon_Liveness Rig_Protocol Cwsd_Properties Audio_Renderer Event_Bus Yaml_Scalar
begin

text \<open>
  A verification development for cwsd, a daemon that puts an amateur-radio station on the network: a
  CW keyer driven by the cwdaemon protocol, remote keying with an own protocol, CAT control with the
  rigctld protocol, and an audio stream. File names below are relative to the repository; the headers
  of the theories say more.

  \<^bold>\<open>Conventions.\<close> Machine integers are words (\<open>u8\<close> to \<open>u64\<close> of \<open>Prelude\<close>), \<open>float\<close> is the type \<open>flt\<close> of
  \<open>Cpp_Float\<close> (exact rationals rounded to 24 bits, infinities, NaN). A function that may throw returns
  \<open>'a result\<close>, an error or a value; behaviour the language leaves undefined (an array index out of
  range, a conversion out of range) is the error \<open>Undefined_behaviour\<close>, or \<open>None\<close> in the keyer, where
  nothing throws. The answers of system calls, clocks and libraries are arguments. Loops are
  recursive functions with a termination proof; where the source loops until it is told to stop, one pass
  is a function and the loop runs over the list of the answers from outside. The only bound taken from the
  source is the cap of 16 transitions per tick of the keyer.

  \<^bold>\<open>Remote keying\<close> (\<open>src/remote_key_protocol.h\<close>, \<open>src/remote_key_server.{h,cpp}\<close>). \<open>Remote_Key_Protocol\<close>: the
  datagrams, encoded and decoded; both directions of the round trip. \<open>Remote_Key_Server\<close>: the record
  \<open>rks\<close> is the class, \<open>replay\<close> the locals of the replay thread; \<open>accept_packet\<close> is the locked region of the
  receiver, the \<open>rp_\<close> functions are the stages of one pass of \<open>replay_worker\<close>, and \<open>rk_step\<close> interleaves
  the two threads between the points where they touch shared state. Invariant: the lines follow the flags
  of the engine and the key is never down without PTT. The field \<open>key_calls\<close> of \<open>rks\<close> is a log of the
  calls that drive the key line, on which the class has no state of its own. \<open>Remote_Key_Properties\<close>: the bound on the time from the
  rise of the key line to its release, the safe state after silence, recovery of lost datagrams, spacing across any
  number of datagrams and passes, that no queued edge is overslept, and two defects (a race that discards edges, a busy loop).

  \<^bold>\<open>The keyer\<close> (\<open>src/keyer\<close>, \<open>src/circular_buffer.h\<close>). \<open>Circular_Buffer\<close>: the ring as an interpretation of
  the locale \<open>overwriting_queue\<close>. \<open>Char_Patterns\<close>, \<open>Morse\<close>: the code table and the timings. \<open>Keyer_Data\<close>,
  \<open>Keyer_Profile\<close>, \<open>Keyer_Machine\<close>: the record \<open>keyer\<close> is the global state of \<open>keyer.cpp\<close> with the members of
  the state objects, \<open>state_enter\<close>, \<open>state_update\<close> and \<open>state_exit\<close> dispatch to the states, \<open>update\<close> is a
  tick and \<open>winkeyer_data\<close> the byte parser. The calls to the hardware are recorded in \<open>trace\<close>; clock and
  paddles are the environment \<open>hw_env\<close>. \<open>Keyer_Start\<close> evaluates the first steps for the witnesses.
  \<open>Keyer_Key_Line\<close>: the key is down exactly in the state \<open>send_element\<close>. \<open>Keyer_Text\<close>: the elements sent and
  pending are the patterns of the characters received. \<open>Keyer_Trace\<close>: the trace only grows, and an element is
  held to its deadline. \<open>Keyer_Properties\<close>: the parser never leaves its array, element lengths, and
  what is undefined or ineffective. \<open>Keyer_Rates\<close>, \<open>Keyer_Liveness\<close>: rates under which every length is
  defined, and that text is then sent in time: a measure counts the transitions ahead, a tick past
  the deadline reduces it, and every new deadline is near. \<open>Oscillator\<close>, \<open>Audio_Renderer\<close>: the tone generator
  never reads outside its tables, and the sidetone under its envelope fits its samples and falls silent, for a volume
  between 0 and 1; a larger one, which the code accepts, is undefined.

  \<^bold>\<open>The CW daemon\<close> (\<open>src/cw_daemon.cpp\<close>, \<open>src/cwdaemon_server.{h,cpp}\<close>, \<open>src/udp_server.{h,cpp}\<close>, \<open>src/timer.cpp\<close>).
  \<open>Udp_Server\<close>: receiving a message. \<open>Cw_Daemon\<close>: its translation into WinKeyer bytes. \<open>Cwdaemon_Server\<close>: one
  iteration of the client thread and of the keyer thread, the serial port, and \<open>daemon_run\<close>, the
  interleaving of ticks and bytes allowed by the mutex of the keyer. \<open>Cwdaemon_Client\<close>: the client thread in the
  steps in which it locks the keyer, which together are an iteration. \<open>Cwdaemon_Properties\<close>: the locale
  \<open>winkeyer_sink\<close> is what the translation relies on, interpreted on the keyer: messages are complete commands;
  the locale \<open>hw_client\<close> is what the port relies on, interpreted on ticks and bytes: the DTR line
  follows the key; and the tuning carrier is timed, whatever messages arrive but for the exit command. \<open>Cwdaemon_Liveness\<close> puts socket, translation, parser and
  state machine together: a datagram of text is keyed within a bound.

  \<^bold>\<open>CAT control\<close> (\<open>src/rigctld_server.{h,cpp}\<close>, \<open>src/string_util.h\<close>). \<open>String_Util\<close>, \<open>Cpp_Text\<close>: string functions
  and number formats. \<open>Rig_Command\<close>: \<open>interpret_command\<close> and its parts over the parameter \<open>hamlib\<close>.
  \<open>Rig_Server\<close>: the client table, buffers, the callback through which Hamlib reports failures, and one pass of \<open>work\<close>. \<open>Rig_Poll\<close>: the poll array stays in step
  with the table, provided descriptor 0 is in use so that \<open>accept\<close> does not return it. \<open>Rig_Properties\<close>: reading is independent of
  how the stream is cut as long as it contains no zero byte, writing loses nothing,
  exceptions are answered and contained, and a rig that is unplugged is told from one that does not answer and given up
  cleanly. \<open>Rig_Protocol\<close>: a frequency survives the text protocol, and which lines are
  answered.

  \<^bold>\<open>Audio\<close> (\<open>src/audio_stream_server.{h,cpp}\<close>). \<open>Audio_Stream\<close>: subscribers, packets, one pass of the
  worker; Opus is the parameter \<open>opus\<close>. The table is an interpretation of the locale \<open>timed_map\<close>. \<open>Audio_Properties\<close>: it
  refines a map with expiry, sequence numbers are unbroken, failing reads starve the subscribers.

  \<^bold>\<open>The program\<close> (\<open>main.cpp\<close>, \<open>src/cwsd.{h,cpp}\<close>). \<open>Config\<close>: \<open>read_config\<close> over YAML nodes, with the node
  operations of \<open>src/libs/node.hpp\<close> it calls; every setting is read back. \<open>Yaml_Scalar\<close>: how the text of a scalar
  becomes a node there; plain scalars are read back, and which numbers are not. \<open>Logging\<close>: levels and rotation.
  \<open>Cwsd\<close>: arguments, \<open>daemonize\<close>, construction, and what stopping and destroying does to the servers. \<open>Cwsd_Threads\<close>:
  the main thread and the six threads of the servers, each with its own program counter; \<open>prog_turn\<close> is a turn of one of
  them, \<open>cwsd_run\<close> runs a schedule, and \<open>main_program\<close> is \<open>main\<close>. \<open>Cwsd_Properties\<close>: construction and shutdown. The locale
  \<open>worker\<close> says what the main thread relies on, that a thread leaves its loop within a bounded number of turns once its flag is
  down, and each of the six threads is an interpretation; the locale \<open>fair_progress\<close> of \<open>Fair_Run\<close> turns a rank that a needed turn
  reduces and no other raises into termination under every fair schedule, and the shutdown is an
  interpretation of it.
  \<open>Event_Bus\<close> is \<open>src/events.h\<close>, which the program declares and does not use.

  \<^bold>\<open>Bounds of the liveness properties.\<close> They hold for a clock that does not go back and stays below
  \<open>2 ^ 31\<close> milliseconds, beyond which the deadlines of the keyer can wrap, and for ticks at most \<open>gap\<close>
  milliseconds apart. With \<open>M\<close> the longest length at the rates set, a unit of work takes at most
  \<open>M + 512 + 2 gap\<close> milliseconds; the 512 cover the rounding of deadlines computed in \<open>float\<close>.

  \<^bold>\<open>Not modelled.\<close> The third-party libraries (logging, the YAML parser but for its scalars, Hamlib, Opus, ALSA), which are
  parameters or answers from outside; log messages; the promotion to real-time scheduling, which changes no
  state of the program; the \<open>update\<close> functions of the servers and \<open>set_event_bus\<close>, which are empty; packaging
  and scripts. The memory model is sequentially consistent, and an iteration of a thread is atomic where the
  development does not split it.
\<close>

end
